(* ===== verification/Prelude.thy ===== *)
theory Prelude
  imports Main "HOL-Library.Sublist" "HOL-Library.AList" "HOL-Library.Multiset"
begin

text \<open>
  Shared vocabulary of the development: Go errors as values, Go maps as association lists,
  and the functions of the Go packages \<open>strings\<close>, \<open>strconv\<close> and \<open>path/filepath\<close> that the
  operator calls.  Go strings are byte sequences, so \<^typ>\<open>string\<close> (a list of 8-bit characters)
  is the same type; \<open>strings.ToUpper\<close> and \<open>strings.TrimSpace\<close> are given on their ASCII
  range, where field names and templates of this program live.
\<close>

named_theorems go_text \<open>facts on Go string functions\<close>
named_theorems res_simps \<open>facts on results and errors\<close>

section \<open>Errors as values\<close>

text \<open>
  \<open>Errorf\<close> is \<open>fmt.Errorf\<close> without \<open>%w\<close> (a message and its arguments), \<open>Wrapf\<close> is
  \<open>fmt.Errorf\<close> with \<open>%w\<close>, \<open>PathError\<close> is an \<open>os\<close> error on a path (the flag says whether
  \<open>os.IsNotExist\<close> holds of it), \<open>External\<close> an error handed back by code outside the repository
  (the flag says whether \<open>apierrors.IsNotFound\<close> holds), \<open>Sentinel\<close> a package level
  \<open>errors.New\<close> value and \<open>Panic\<close> a run-time panic.  \<open>Waiting\<close> is no error of the code: it is the
  outcome of a polling loop that has used up the rounds given to the model and has not returned.
\<close>

datatype goerr =
    Errorf string "string list"
  | Wrapf string goerr
  | PathError bool string
  | External bool string
  | Sentinel string
  | Panic string
  | Waiting

type_synonym 'a res = "goerr + 'a"

fun errors_Is :: "goerr \<Rightarrow> goerr \<Rightarrow> bool" where
  "errors_Is (Wrapf m e) t = (Wrapf m e = t \<or> errors_Is e t)"
| "errors_Is e t = (e = t)"

definition IsNotExist :: "goerr \<Rightarrow> bool" where
  "IsNotExist e = (case e of PathError b p \<Rightarrow> b | _ \<Rightarrow> False)"

definition IsNotFound :: "goerr \<Rightarrow> bool" where
  "IsNotFound e = (case e of External b m \<Rightarrow> b | _ \<Rightarrow> False)"

definition is_ok :: "'a res \<Rightarrow> bool" where
  "is_ok r = (case r of Inl e \<Rightarrow> False | Inr x \<Rightarrow> True)"

lemma is_ok_simps [simp, res_simps]: "is_ok (Inr x)" "\<not> is_ok (Inl e)"
  by (simp_all add: is_ok_def)

lemma is_ok_iff [res_simps]: "is_ok r \<longleftrightarrow> (\<exists>x. r = Inr x)"
  by (cases r) simp_all

section \<open>Stateful operations\<close>

text \<open>
  An operation with effects takes the state and returns a result and the next state.  The next
  state comes with errors too: what was done before an error stays done.
\<close>

type_synonym ('s, 'a) op = "'s \<Rightarrow> 'a res \<times> 's"

definition ret :: "'a \<Rightarrow> ('s, 'a) op" where
  "ret x s = (Inr x, s)"

definition fail :: "goerr \<Rightarrow> ('s, 'a) op" where
  "fail e s = (Inl e, s)"

definition andThen :: "('s, 'a) op \<Rightarrow> ('a \<Rightarrow> ('s, 'b) op) \<Rightarrow> ('s, 'b) op" where
  "andThen m f s = (case m s of (Inl e, s') \<Rightarrow> (Inl e, s') | (Inr x, s') \<Rightarrow> f x s')"

definition wrapErr :: "(goerr \<Rightarrow> goerr) \<Rightarrow> ('s, 'a) op \<Rightarrow> ('s, 'a) op" where
  "wrapErr g m s = (case m s of (Inl e, s') \<Rightarrow> (Inl (g e), s') | (Inr x, s') \<Rightarrow> (Inr x, s'))"

definition liftRes :: "'a res \<Rightarrow> ('s, 'a) op" where
  "liftRes r s = (r, s)"

lemma op_simps [simp, res_simps]:
  "ret x s = (Inr x, s)" "fail e s = (Inl e, s)" "liftRes r s = (r, s)"
  by (simp_all add: ret_def fail_def liftRes_def)

lemma andThen_ret [simp, res_simps]:
  "andThen (ret x) f = f x" "andThen (fail e) f = fail e"
  "andThen (liftRes (Inr x)) f = f x" "andThen (liftRes (Inl e)) f = fail e"
  by (auto simp: andThen_def fun_eq_iff)

lemma andThen_Inr: "m s = (Inr x, s') \<Longrightarrow> andThen m f s = f x s'"
  by (simp add: andThen_def)

lemma andThen_Inl: "m s = (Inl e, s') \<Longrightarrow> andThen m f s = (Inl e, s')"
  by (simp add: andThen_def)

lemma andThen_ok:
  "andThen m f s = (Inr y, s'') \<longleftrightarrow> (\<exists>x s'. m s = (Inr x, s') \<and> f x s' = (Inr y, s''))"
  by (auto simp: andThen_def split: prod.splits sum.splits)

lemma andThen_err:
  "andThen m f s = (Inl e, s'') \<longleftrightarrow>
     m s = (Inl e, s'') \<or> (\<exists>x s'. m s = (Inr x, s') \<and> f x s' = (Inl e, s''))"
  by (auto simp: andThen_def split: prod.splits sum.splits)

lemma wrapErr_ok: "wrapErr g m s = (Inr x, s') \<longleftrightarrow> m s = (Inr x, s')"
  by (auto simp: wrapErr_def split: prod.splits sum.splits)

lemma wrapErr_err: "wrapErr g m s = (Inl e, s') \<longleftrightarrow> (\<exists>e'. m s = (Inl e', s') \<and> e = g e')"
  by (auto simp: wrapErr_def split: prod.splits sum.splits)

text \<open>
  Code that drops the error of a call still does not survive a panic, nor go on while the call is
  waiting.
\<close>

definition stops :: "goerr \<Rightarrow> bool" where
  "stops e = (case e of Panic m \<Rightarrow> True | Waiting \<Rightarrow> True | _ \<Rightarrow> False)"

definition ignoreErr :: "('s, 'a) op \<Rightarrow> ('s, unit) op" where
  "ignoreErr m s =
     (case m s of
        (Inl e, s') \<Rightarrow> if stops e then (Inl e, s') else (Inr (), s')
      | (Inr x, s') \<Rightarrow> (Inr (), s'))"

definition orElse :: "('s, 'a) op \<Rightarrow> (goerr \<Rightarrow> ('s, 'b) op) \<Rightarrow> ('a \<Rightarrow> ('s, 'b) op) \<Rightarrow> ('s, 'b) op" where
  "orElse m g f s =
     (case m s of
        (Inl e, s') \<Rightarrow> if stops e then (Inl e, s') else g e s'
      | (Inr x, s') \<Rightarrow> f x s')"

lemma andThen_cong [fundef_cong]:
  assumes "m = m'" and "s = s'" and "\<And>x s1. m' s' = (Inr x, s1) \<Longrightarrow> f x s1 = f' x s1"
  shows "andThen m f s = andThen m' f' s'"
  using assms by (auto simp: andThen_def split: prod.splits sum.splits)

section \<open>Go maps\<close>

text \<open>
  A Go map is an association list with distinct keys; its order stands for one iteration
  order, which Go leaves unspecified.  Facts that must not depend on the order are stated for
  every permutation of the list.
\<close>

type_synonym ('k, 'v) gomap = "('k \<times> 'v) list"

abbreviation map_put :: "('k, 'v) gomap \<Rightarrow> 'k \<Rightarrow> 'v \<Rightarrow> ('k, 'v) gomap" where
  "map_put m k v \<equiv> AList.update k v m"

definition wf_map :: "('k, 'v) gomap \<Rightarrow> bool" where
  "wf_map m = distinct (map fst m)"

definition put_all :: "('k, 'v) gomap \<Rightarrow> ('k, 'v) gomap" where
  "put_all kvs = foldl (\<lambda>m (k, v). map_put m k v) [] kvs"

locale go_map =
  fixes empty :: 'm
    and put :: "'m \<Rightarrow> 'k \<Rightarrow> 'v \<Rightarrow> 'm"
    and lookup :: "'m \<Rightarrow> 'k \<Rightarrow> 'v option"
    and invar :: "'m \<Rightarrow> bool"
  assumes lookup_empty: "lookup empty k = None"
    and lookup_put: "lookup (put m k v) k' = (if k' = k then Some v else lookup m k')"
    and invar_empty: "invar empty"
    and invar_put: "invar m \<Longrightarrow> invar (put m k v)"
begin

lemma lookup_foldl_put:
  "lookup (foldl (\<lambda>m (k, v). put m k v) m kvs) k =
     (case map_of (rev kvs) k of None \<Rightarrow> lookup m k | Some v \<Rightarrow> Some v)"
proof (induction kvs arbitrary: m)
  case Nil
  then show ?case by simp
next
  case (Cons a kvs)
  obtain k' v' where a: "a = (k', v')" by (cases a)
  show ?case
    by (auto simp: a Cons.IH lookup_put map_add_def split: option.splits)
qed

lemma invar_foldl_put: "invar m \<Longrightarrow> invar (foldl (\<lambda>m (k, v). put m k v) m kvs)"
  by (induction kvs arbitrary: m) (auto simp: invar_put split: prod.splits)

lemma put_keeps_others: "k' \<noteq> k \<Longrightarrow> lookup (put m k v) k' = lookup m k'"
  by (simp add: lookup_put)

end

interpretation amap: go_map "[]" map_put map_of wf_map
  by unfold_locales (auto simp: wf_map_def update_conv' distinct_update)

lemma wf_map_simps [simp]: "wf_map []" "wf_map ((k, v) # m) \<longleftrightarrow> k \<notin> fst ` set m \<and> wf_map m"
  by (simp_all add: wf_map_def)

lemma wf_map_perm: "mset m = mset m' \<Longrightarrow> wf_map m \<Longrightarrow> wf_map m'"
  by (metis wf_map_def mset_map mset_eq_imp_distinct_iff)

lemma map_of_perm:
  assumes "mset m = mset m'" and "wf_map m"
  shows "map_of m = map_of m'"
proof -
  have "wf_map m'" using assms by (rule wf_map_perm)
  moreover have "set m = set m'" using assms(1) by (rule mset_eq_setD)
  ultimately show ?thesis
    using assms(2) by (simp add: wf_map_def map_of_inject_set)
qed

lemma wf_put_all [simp]: "wf_map (put_all kvs)"
  unfolding put_all_def by (rule amap.invar_foldl_put) simp

lemma map_of_put_all: "map_of (put_all kvs) k = map_of (rev kvs) k"
  unfolding put_all_def by (simp add: amap.lookup_foldl_put split: option.splits)

section \<open>Strings\<close>

definition HasPrefix :: "string \<Rightarrow> string \<Rightarrow> bool" where
  "HasPrefix s p = prefix p s"

definition HasSuffix :: "string \<Rightarrow> string \<Rightarrow> bool" where
  "HasSuffix s x = suffix x s"

definition TrimPrefix :: "string \<Rightarrow> string \<Rightarrow> string" where
  "TrimPrefix s p = (if HasPrefix s p then drop (length p) s else s)"

definition TrimSuffix :: "string \<Rightarrow> string \<Rightarrow> string" where
  "TrimSuffix s x = (if HasSuffix s x then take (length s - length x) s else s)"

primrec Index :: "string \<Rightarrow> string \<Rightarrow> nat option" where
  "Index [] sub = (if sub = [] then Some 0 else None)"
| "Index (c # cs) sub =
     (if prefix sub (c # cs) then Some 0 else map_option Suc (Index cs sub))"

primrec Split :: "string \<Rightarrow> char \<Rightarrow> string list" where
  "Split [] sep = [[]]"
| "Split (c # cs) sep =
     (if c = sep then [] # Split cs sep
      else (case Split cs sep of [] \<Rightarrow> [[c]] | w # ws \<Rightarrow> (c # w) # ws))"

fun ReplaceAll :: "string \<Rightarrow> string \<Rightarrow> string \<Rightarrow> string" where
  "ReplaceAll [] old new = (if old = [] then new else [])"
| "ReplaceAll (c # cs) old new =
     (if old = [] then new @ c # ReplaceAll cs old new
      else if prefix old (c # cs) then new @ ReplaceAll (drop (length old - 1) cs) old new
      else c # ReplaceAll cs old new)"

definition up_char :: "char \<Rightarrow> char" where
  "up_char c = (if 97 \<le> (of_char c :: nat) \<and> (of_char c :: nat) \<le> 122
     then char_of ((of_char c :: nat) - 32) else c)"

definition ToUpper :: "string \<Rightarrow> string" where
  "ToUpper s = map up_char s"

definition down_char :: "char \<Rightarrow> char" where
  "down_char c = (if 65 \<le> (of_char c :: nat) \<and> (of_char c :: nat) \<le> 90
     then char_of ((of_char c :: nat) + 32) else c)"

definition ToLower :: "string \<Rightarrow> string" where
  "ToLower s = map down_char s"

definition is_space :: "char \<Rightarrow> bool" where
  "is_space c = ((of_char c :: nat) = 32 \<or> (9 \<le> (of_char c :: nat) \<and> (of_char c :: nat) \<le> 13))"

definition TrimSpace :: "string \<Rightarrow> string" where
  "TrimSpace s = rev (dropWhile is_space (rev (dropWhile is_space s)))"

primrec Join :: "string list \<Rightarrow> string \<Rightarrow> string" where
  "Join [] sep = []"
| "Join (w # ws) sep = (if ws = [] then w else w @ sep @ Join ws sep)"

definition digit_char :: "nat \<Rightarrow> char" where
  "digit_char d = char_of (48 + d)"

definition is_digit :: "char \<Rightarrow> bool" where
  "is_digit c = (48 \<le> (of_char c :: nat) \<and> (of_char c :: nat) \<le> 57)"

definition digit_val :: "char \<Rightarrow> nat" where
  "digit_val c = (of_char c :: nat) - 48"

fun Itoa :: "nat \<Rightarrow> string" where
  "Itoa n = (if n < 10 then [digit_char n] else Itoa (n div 10) @ [digit_char (n mod 10)])"

declare Itoa.simps [simp del]

definition dec_val :: "string \<Rightarrow> nat" where
  "dec_val s = foldl (\<lambda>a c. 10 * a + digit_val c) 0 s"

definition Atoi :: "string \<Rightarrow> int option" where
  "Atoi s =
     (let neg = HasPrefix s ''-'';
          body = (if neg \<or> HasPrefix s ''+'' then drop 1 s else s);
          n = (if neg then - int (dec_val body) else int (dec_val body))
      in if body = [] \<or> \<not> list_all is_digit body then None
         else if n < - (2 ^ 63) \<or> 2 ^ 63 \<le> n then None
         else Some n)"

definition filepath_Ext :: "string \<Rightarrow> string" where
  "filepath_Ext path =
     (let t = takeWhile (\<lambda>c. c \<noteq> CHR ''/'' \<and> c \<noteq> CHR ''.'') (rev path)
      in (case drop (length t) (rev path) of
            [] \<Rightarrow> []
          | c # _ \<Rightarrow> if c = CHR ''.'' then CHR ''.'' # rev t else []))"

definition filepath_Base :: "string \<Rightarrow> string" where
  "filepath_Base path =
     (if path = [] then ''.''
      else let p = rev (dropWhile (\<lambda>c. c = CHR ''/'') (rev path))
           in if p = [] then ''/'' else rev (takeWhile (\<lambda>c. c \<noteq> CHR ''/'') (rev p)))"

section \<open>Facts on strings\<close>

lemma HasPrefix_code [simp, go_text]: "HasPrefix (p @ s) p"
  by (simp add: HasPrefix_def)

lemma TrimPrefix_append [simp, go_text]: "TrimPrefix (p @ s) p = s"
  by (simp add: TrimPrefix_def)

lemma HasSuffix_append [simp, go_text]: "HasSuffix (s @ x) x"
  by (simp add: HasSuffix_def suffix_def)

lemma TrimSuffix_append [simp, go_text]: "TrimSuffix (s @ x) x = s"
  by (simp add: TrimSuffix_def)

lemma HasSuffix_iff [go_text]: "HasSuffix s x \<longleftrightarrow> (\<exists>b. s = b @ x)"
  by (auto simp: HasSuffix_def suffix_def)

lemma Index_Some_drop:
  "Index s sub = Some i \<Longrightarrow> i + length sub \<le> length s \<and> prefix sub (drop i s)"
proof (induction s arbitrary: i)
  case Nil
  then show ?case by (auto split: if_splits)
next
  case (Cons c cs)
  show ?case
  proof (cases "prefix sub (c # cs)")
    case True
    then show ?thesis using Cons.prems prefix_length_le [OF True] by auto
  next
    case False
    then obtain j where j: "Index cs sub = Some j" "i = Suc j"
      using Cons.prems by auto
    from Cons.IH [OF j(1)] j(2) show ?thesis by simp
  qed
qed

lemma Index_Some_split:
  assumes "Index s sub = Some i"
  shows "s = take i s @ sub @ drop (i + length sub) s"
proof -
  from Index_Some_drop [OF assms] obtain r where "drop i s = sub @ r"
    by (auto simp: prefix_def)
  moreover from this have "drop (i + length sub) s = r"
    by (metis add.commute append_eq_conv_conj drop_drop)
  ultimately show ?thesis by (metis append_take_drop_id)
qed

lemma Index_least: "Index s sub = Some i \<Longrightarrow> j < i \<Longrightarrow> \<not> prefix sub (drop j s)"
proof (induction s arbitrary: i j)
  case Nil
  then show ?case by (auto split: if_splits)
next
  case (Cons c cs)
  then show ?case by (cases j) (auto split: if_splits)
qed

lemma Index_None: "Index s sub = None \<longleftrightarrow> (\<forall>j \<le> length s. \<not> prefix sub (drop j s))"
proof (induction s)
  case Nil
  then show ?case by simp
next
  case (Cons c cs)
  have "(\<forall>j \<le> length (c # cs). \<not> prefix sub (drop j (c # cs))) \<longleftrightarrow>
      \<not> prefix sub (c # cs) \<and> (\<forall>j \<le> length cs. \<not> prefix sub (drop j cs))"
    (is "?l \<longleftrightarrow> ?r")
  proof
    assume ?l
    then show ?r by (metis Suc_le_mono drop0 drop_Suc_Cons le0 length_Cons)
  next
    assume r: ?r
    show ?l
    proof (intro allI impI)
      fix j assume "j \<le> length (c # cs)"
      with r show "\<not> prefix sub (drop j (c # cs))" by (cases j) auto
    qed
  qed
  with Cons show ?case by auto
qed

lemma Index_None_sublist: "Index s sub = None \<longleftrightarrow> \<not> sublist sub s"
proof -
  have "sublist sub s \<longleftrightarrow> (\<exists>j \<le> length s. prefix sub (drop j s))"
  proof
    assume "sublist sub s"
    then obtain a b where "s = a @ sub @ b" by (auto simp: sublist_def)
    then show "\<exists>j \<le> length s. prefix sub (drop j s)"
      by (intro exI [of _ "length a"]) simp
  next
    assume "\<exists>j \<le> length s. prefix sub (drop j s)"
    then obtain j r where "drop j s = sub @ r" by (auto simp: prefix_def)
    then have "s = take j s @ sub @ r" by (metis append_take_drop_id)
    then show "sublist sub s" by (auto simp: sublist_def)
  qed
  then show ?thesis by (auto simp: Index_None)
qed

lemma Split_nonempty [simp]: "Split s sep \<noteq> []"
  by (induction s) (auto split: list.splits)

lemma Split_no_sep: "w \<in> set (Split s sep) \<Longrightarrow> sep \<notin> set w"
  by (induction s arbitrary: w) (auto split: list.splits if_splits)

lemma Join_Split: "Join (Split s sep) [sep] = s"
proof (induction s)
  case Nil
  then show ?case by simp
next
  case (Cons c cs)
  obtain w ws where "Split cs sep = w # ws" by (cases "Split cs sep") auto
  with Cons show ?case by (auto split: if_splits)
qed

lemma Split_atom: "sep \<notin> set w \<Longrightarrow> Split w sep = [w]"
  by (induction w) auto

lemma Split_append_sep: "sep \<notin> set w \<Longrightarrow> Split (w @ sep # s) sep = w # Split s sep"
  by (induction w) (auto split: list.splits)

lemma Split_Join:
  "ws \<noteq> [] \<Longrightarrow> (\<And>w. w \<in> set ws \<Longrightarrow> sep \<notin> set w) \<Longrightarrow> Split (Join ws [sep]) sep = ws"
proof (induction ws)
  case Nil
  then show ?case by simp
next
  case (Cons w ws)
  then show ?case
    by (cases "ws = []") (auto simp: Split_atom Split_append_sep)
qed

lemma ReplaceAll_absent: "old \<noteq> [] \<Longrightarrow> \<not> sublist old s \<Longrightarrow> ReplaceAll s old new = s"
proof (induction s)
  case Nil
  then show ?case by simp
next
  case (Cons c cs)
  then have "\<not> prefix old (c # cs)" by auto
  with Cons show ?case by (auto simp: sublist_Cons_right)
qed

subsection \<open>Decimal numbers\<close>

lemma digit_char_val [simp]: "d < 10 \<Longrightarrow> digit_val (digit_char d) = d"
  by (simp add: digit_val_def digit_char_def)

lemma digit_char_is_digit [simp]: "d < 10 \<Longrightarrow> is_digit (digit_char d)"
  by (simp add: is_digit_def digit_char_def)

lemma dec_val_snoc [simp]: "dec_val (s @ [c]) = 10 * dec_val s + digit_val c"
  by (simp add: dec_val_def)

lemma dec_val_Itoa [simp]: "dec_val (Itoa n) = n"
proof (induction n rule: Itoa.induct)
  case (1 n)
  show ?case
  proof (cases "n < 10")
    case True
    then show ?thesis by (subst Itoa.simps) (simp add: dec_val_def)
  next
    case False
    with "1" have "dec_val (Itoa (n div 10)) = n div 10" by simp
    with False show ?thesis by (subst Itoa.simps) simp
  qed
qed

lemma Itoa_inj: "Itoa m = Itoa n \<Longrightarrow> m = n"
  by (metis dec_val_Itoa)

lemma Itoa_digits: "c \<in> set (Itoa n) \<Longrightarrow> is_digit c"
proof (induction n rule: Itoa.induct)
  case (1 n)
  show ?case
  proof (cases "n < 10")
    case True
    then show ?thesis using "1.prems" by (subst (asm) Itoa.simps) simp
  next
    case False
    then have "c \<in> set (Itoa (n div 10)) \<or> c = digit_char (n mod 10)"
      using "1.prems" by (subst (asm) Itoa.simps) auto
    then show ?thesis using "1.IH" False by auto
  qed
qed

lemma Itoa_nonempty [simp]: "Itoa n \<noteq> []"
  by (subst Itoa.simps) simp

lemma not_digit_Itoa: "\<not> is_digit c \<Longrightarrow> c \<notin> set (Itoa n)"
  using Itoa_digits by blast

end
