(* ===== verification/Naming.thy ===== *)
theory Naming
  imports Prelude
begin

text \<open>
  \<open>internal/controller/rule_helpers.go\<close>: the names of the generated Terraform files.
  \<open>splitTerraformExt\<close> cuts a trailing \<open>.tmpl\<close> and splits the rest into base and extension;
  \<open>IndexedResourceFile\<close> names the file of the n-th element of a list.
\<close>

definition splitTerraformExt :: "string \<Rightarrow> string \<times> string" where
  "splitTerraformExt filename =
     (let filename = (if HasSuffix filename ''.tmpl'' then TrimSuffix filename ''.tmpl'' else filename);
          ext = filepath_Ext filename
      in if ext = [] then (filename, ''.tf'')
         else (TrimSuffix filename ext, ext))"

definition IndexedResourceFile :: "string \<Rightarrow> nat \<Rightarrow> string" where
  "IndexedResourceFile baseFile index =
     (case splitTerraformExt baseFile of
        (base, ext) \<Rightarrow> base @ ''_'' @ Itoa (index + 1) @ ext)"

text \<open>
  The name a rendered template is finally written under: \<open>base + ext\<close> in
  \<open>writeAndEnsureDotTf\<close>, \<open>tfCommon\<close> and \<open>selectOperatorRule\<close>.
\<close>

definition finalName :: "string \<Rightarrow> string" where
  "finalName filename = (case splitTerraformExt filename of (base, ext) \<Rightarrow> base @ ext)"

section \<open>The extension of a path\<close>

lemma filepath_Ext_eq:
  assumes "CHR ''/'' \<notin> set t" and "CHR ''.'' \<notin> set t"
  shows "filepath_Ext (b @ CHR ''.'' # t) = CHR ''.'' # t"
proof -
  have "takeWhile (\<lambda>c. c \<noteq> CHR ''/'' \<and> c \<noteq> CHR ''.'') (rev t @ CHR ''.'' # rev b) = rev t"
    using assms by (subst takeWhile_append2) auto
  then show ?thesis by (simp add: filepath_Ext_def)
qed

lemma filepath_Ext_suffix: "filepath_Ext p = x \<Longrightarrow> x \<noteq> [] \<Longrightarrow> \<exists>b t. p = b @ x \<and> x = CHR ''.'' # t \<and>
    CHR ''/'' \<notin> set t \<and> CHR ''.'' \<notin> set t"
proof -
  assume x: "filepath_Ext p = x" "x \<noteq> []"
  define P where "P = (\<lambda>c. c \<noteq> CHR ''/'' \<and> c \<noteq> CHR ''.'')"
  define t where "t = takeWhile P (rev p)"
  obtain c r where d: "drop (length t) (rev p) = c # r"
    using x by (auto simp: filepath_Ext_def Let_def t_def P_def split: list.splits)
  have c: "c = CHR ''.''" and xt: "x = CHR ''.'' # rev t"
    using x d by (auto simp: filepath_Ext_def Let_def t_def P_def split: if_splits)
  have split: "t @ dropWhile P (rev p) = rev p"
    unfolding t_def by (rule takeWhile_dropWhile_id)
  have "dropWhile P (rev p) = c # r"
    using d unfolding t_def by (simp only: dropWhile_eq_drop)
  with split have "rev p = t @ c # r" by simp
  then have "rev (rev p) = rev (t @ c # r)" by simp
  then have "p = rev r @ c # rev t" by simp
  moreover have "P y" if "y \<in> set t" for y
    using that unfolding t_def by (rule set_takeWhileD [THEN conjunct2])
  then have "CHR ''/'' \<notin> set t" "CHR ''.'' \<notin> set t" by (auto simp: P_def)
  ultimately show ?thesis using c xt
    by (intro exI [of _ "rev r"] exI [of _ "rev t"]) simp
qed

lemma filepath_Ext_append_base:
  assumes "filepath_Ext p = x" "x \<noteq> []"
  shows "TrimSuffix p x @ x = p"
  using filepath_Ext_suffix [OF assms] by auto

section \<open>Names of generated files\<close>

definition template_stem :: "string \<Rightarrow> string" where
  "template_stem f = (if HasSuffix f ''.tmpl'' then TrimSuffix f ''.tmpl'' else f)"

lemma splitTerraformExt_stem:
  "splitTerraformExt f =
     (if filepath_Ext (template_stem f) = [] then (template_stem f, ''.tf'')
      else (TrimSuffix (template_stem f) (filepath_Ext (template_stem f)), filepath_Ext (template_stem f)))"
  by (simp add: splitTerraformExt_def template_stem_def Let_def)

lemma finalName_stem:
  "finalName f =
     (if filepath_Ext (template_stem f) = [] then template_stem f @ ''.tf'' else template_stem f)"
  by (simp add: finalName_def splitTerraformExt_stem filepath_Ext_append_base)

lemma splitTerraformExt_shape:
  assumes "splitTerraformExt f = (b, x)"
  shows "\<exists>t. x = CHR ''.'' # t \<and> CHR ''/'' \<notin> set t \<and> CHR ''.'' \<notin> set t"
proof (cases "filepath_Ext (template_stem f) = []")
  case True
  with assms have "x = ''.tf''" by (simp add: splitTerraformExt_stem)
  then show ?thesis by simp
next
  case False
  with assms have "x = filepath_Ext (template_stem f)" by (simp add: splitTerraformExt_stem)
  with False filepath_Ext_suffix [of "template_stem f" x] show ?thesis by auto
qed

lemma splitTerraformExt_tf:
  shows "splitTerraformExt (b @ ''.tf'') = (b, ''.tf'')"
    and "splitTerraformExt (b @ ''.tf'' @ ''.tmpl'') = (b, ''.tf'')"
proof -
  have e: "filepath_Ext (b @ ''.tf'') = ''.tf''"
    using filepath_Ext_eq [of "''tf''" b] by simp
  have ns: "\<not> HasSuffix (b @ ''.tf'') ''.tmpl''"
    by (simp add: HasSuffix_def suffix_to_prefix)
  show "splitTerraformExt (b @ ''.tf'') = (b, ''.tf'')"
    using e ns by (simp add: splitTerraformExt_def Let_def)
  have "TrimSuffix ((b @ ''.tf'') @ ''.tmpl'') ''.tmpl'' = b @ ''.tf''" by (rule TrimSuffix_append)
  moreover have "HasSuffix ((b @ ''.tf'') @ ''.tmpl'') ''.tmpl''" by (rule HasSuffix_append)
  ultimately show "splitTerraformExt (b @ ''.tf'' @ ''.tmpl'') = (b, ''.tf'')"
    using e by (simp add: splitTerraformExt_def Let_def)
qed

text \<open>
  The extension is found again in an indexed name, and cutting \<open>.tmpl\<close> never applies to it
  unless the extension itself is \<open>.tmpl\<close>.
\<close>

lemma filepath_Ext_indexed:
  assumes "splitTerraformExt f = (b, x)"
  shows "filepath_Ext (IndexedResourceFile f i) = x"
proof -
  obtain t where "x = CHR ''.'' # t" "CHR ''/'' \<notin> set t" "CHR ''.'' \<notin> set t"
    using splitTerraformExt_shape [OF assms] by auto
  with assms show ?thesis
    using filepath_Ext_eq [of t "b @ ''_'' @ Itoa (i + 1)"] by (simp add: IndexedResourceFile_def)
qed

lemma IndexedResourceFile_inj: "IndexedResourceFile f i = IndexedResourceFile f j \<Longrightarrow> i = j"
  by (auto simp: IndexedResourceFile_def split: prod.splits dest: Itoa_inj)

lemma IndexedResourceFile_not_final: "IndexedResourceFile f i \<noteq> finalName f"
  by (auto simp: IndexedResourceFile_def finalName_def split: prod.splits)

end
