(* ===== verification/Json.thy ===== *)
theory Json
  imports Prelude
begin

text \<open>
  The generic values (\<open>interface{}\<close>) that \<open>encoding/json\<close> builds from a custom resource: their
  textual form under \<open>fmt.Sprintf("%v", v)\<close>, key normalisation
  (\<open>normalizzaMappaInMaiuscolo\<close>), and the path lookups of the template engine
  (\<open>resolveListPath\<close>, \<open>resolveItem\<close>) and of the rule mappings (\<open>lookupRawPath\<close>,
  \<open>lookupPath\<close>).

  A JSON number is a \<open>float64\<close>.  What the program does with one is print it, and \<open>strconv\<close>
  prints from the shortest decimal form: \<open>JNum neg ds dp\<close> is the number
  \<open>0.d1d2...dn * 10 ^ dp\<close>, negated if \<open>neg\<close>, its digits without trailing zeros (no digits for zero).
\<close>

datatype json =
    JNull
  | JBool bool
  | JNum bool "nat list" int
  | JStr string
  | JArr "json list"
  | JObj "(string \<times> json) list"

type_synonym obj = "(string, json) gomap"

section \<open>Printing scalars\<close>

definition digits_text :: "nat list \<Rightarrow> string" where
  "digits_text ds = map digit_char ds"

definition fmtF :: "nat list \<Rightarrow> int \<Rightarrow> string" where
  "fmtF ds dp =
     (if 0 < dp
      then digits_text (take (nat dp) ds) @ replicate (nat dp - length ds) (CHR ''0'')
      else ''0'') @
     (if dp < int (length ds)
      then CHR ''.'' # replicate (nat (- dp)) (CHR ''0'') @ digits_text (drop (nat dp) ds)
      else [])"

definition fmtExp :: "int \<Rightarrow> string" where
  "fmtExp e = (if e < 0 then ''-'' else ''+'') @
     (if \<bar>e\<bar> < 10 then ''0'' @ Itoa (nat \<bar>e\<bar>) else Itoa (nat \<bar>e\<bar>))"

definition fmtE :: "nat list \<Rightarrow> int \<Rightarrow> string" where
  "fmtE ds dp =
     (case ds of [] \<Rightarrow> ''0'' | d # _ \<Rightarrow> [digit_char d]) @
     (if 1 < length ds then CHR ''.'' # digits_text (tl ds) else []) @
     ''e'' @ fmtExp (if ds = [] then 0 else dp - 1)"

definition fmtG :: "bool \<Rightarrow> nat list \<Rightarrow> int \<Rightarrow> string" where
  "fmtG neg ds dp = (if neg then ''-'' else []) @
     (if dp - 1 < - 4 \<or> 6 \<le> dp - 1 then fmtE ds dp
      else fmtF ds dp)"

text \<open>The integer \<open>n\<close>, as a number: its decimal digits without trailing zeros.\<close>

definition strip_zeros :: "nat list \<Rightarrow> nat list" where
  "strip_zeros ds = rev (dropWhile (\<lambda>d. d = 0) (rev ds))"

definition num_of_int :: "int \<Rightarrow> json" where
  "num_of_int n =
     (if n = 0 then JNum False [] 0
      else let s = Itoa (nat \<bar>n\<bar>)
           in JNum (n < 0) (strip_zeros (map digit_val s)) (int (length s)))"

text \<open>Both callers of \<open>%v\<close> leave out arrays and objects before they print.\<close>

fun Sprintf_v :: "json \<Rightarrow> string" where
  "Sprintf_v JNull = ''<nil>''"
| "Sprintf_v (JBool b) = (if b then ''true'' else ''false'')"
| "Sprintf_v (JNum neg ds dp) = fmtG neg ds dp"
| "Sprintf_v (JStr s) = s"
| "Sprintf_v (JArr vs) = ''[...]''"
| "Sprintf_v (JObj kvs) = ''map[...]''"

fun is_scalar :: "json \<Rightarrow> bool" where
  "is_scalar (JArr vs) = False"
| "is_scalar (JObj kvs) = False"
| "is_scalar _ = True"

section \<open>Well-formed values, key normalisation\<close>

text \<open>Objects are Go maps: their keys are distinct, at every depth.\<close>

fun wf_json :: "json \<Rightarrow> bool" where
  "wf_json (JArr vs) = list_all wf_json vs"
| "wf_json (JObj kvs) = (wf_map kvs \<and> list_all (\<lambda>kv. wf_json (snd kv)) kvs)"
| "wf_json _ = True"

fun normalizzaMappaInMaiuscolo :: "json \<Rightarrow> json" where
  "normalizzaMappaInMaiuscolo (JObj kvs) =
     JObj (put_all (map (\<lambda>kv. (ToUpper (fst kv), normalizzaMappaInMaiuscolo (snd kv))) kvs))"
| "normalizzaMappaInMaiuscolo (JArr vs) = JArr (map normalizzaMappaInMaiuscolo vs)"
| "normalizzaMappaInMaiuscolo v = v"

section \<open>Lookups of the template engine\<close>

fun resolveItem :: "json \<Rightarrow> obj option" where
  "resolveItem (JObj m) = Some m"
| "resolveItem JNull = None"
| "resolveItem v = Some [(''VALUE'', v)]"

fun walk_path :: "json \<Rightarrow> string list \<Rightarrow> json option" where
  "walk_path cur [] = Some cur"
| "walk_path (JObj m) (p # ps) = (case map_of m p of None \<Rightarrow> None | Some v \<Rightarrow> walk_path v ps)"
| "walk_path _ (p # ps) = None"

definition resolveListPath :: "obj \<Rightarrow> string \<Rightarrow> json list option" where
  "resolveListPath container tag =
     (case map_of container tag of
        Some (JArr list) \<Rightarrow> Some list
      | _ \<Rightarrow>
        (let parts = Split tag (CHR ''_'')
         in if length parts < 2 then None
            else (case walk_path (JObj container) parts of
                    Some (JArr list) \<Rightarrow> Some list
                  | _ \<Rightarrow> None)))"

section \<open>Lookups of the rule mappings\<close>

definition lookupRawPath :: "obj \<Rightarrow> string \<Rightarrow> json option" where
  "lookupRawPath dataMap path =
     walk_path (JObj dataMap) (filter (\<lambda>p. p \<noteq> []) (Split (TrimPrefix path ''spec.'') (CHR ''.'')))"

definition lookupPath :: "string \<Rightarrow> obj \<Rightarrow> string \<Rightarrow> string option" where
  "lookupPath cfgName dataMap path =
     (if path = ''$cr.name'' then Some cfgName
      else let path = TrimPrefix path ''spec.''
           in if path = [] then None
              else (case lookupRawPath dataMap path of
                      None \<Rightarrow> None
                    | Some (JStr v) \<Rightarrow> Some v
                    | Some JNull \<Rightarrow> None
                    | Some (JObj m) \<Rightarrow> None
                    | Some (JArr l) \<Rightarrow> None
                    | Some v \<Rightarrow> Some (Sprintf_v v)))"

section \<open>Facts\<close>

lemma walk_path_append:
  "walk_path v (ps @ qs) = (case walk_path v ps of None \<Rightarrow> None | Some w \<Rightarrow> walk_path w qs)"
  by (induction v ps rule: walk_path.induct) (auto split: option.splits)

lemma wf_json_walk: "walk_path v ps = Some w \<Longrightarrow> wf_json v \<Longrightarrow> wf_json w"
proof (induction v ps rule: walk_path.induct)
  case (2 m p ps)
  then obtain u where u: "map_of m p = Some u" "walk_path u ps = Some w"
    by (auto split: option.splits)
  then have "wf_json u"
    using "2.prems" by (auto simp: list_all_iff dest!: map_of_SomeD)
  with u "2.IH" show ?case by blast
qed auto

lemma ToUpper_idem [simp]: "ToUpper (ToUpper s) = ToUpper s"
proof -
  have "up_char (up_char c) = up_char c" for c
  proof (cases "97 \<le> (of_char c :: nat) \<and> (of_char c :: nat) \<le> 122")
    case True
    then have "(of_char c :: nat) - 32 < 256" by arith
    then have "((of_char c :: nat) - 32) mod 256 = of_char c - 32" by (rule mod_less)
    moreover have "\<not> 97 \<le> (of_char c :: nat) - 32" using True by arith
    ultimately show ?thesis using True by (simp add: up_char_def)
  next
    case False
    then show ?thesis by (simp only: up_char_def if_False)
  qed
  then show ?thesis by (simp add: ToUpper_def)
qed

lemma fst_put_all: "fst ` set (put_all kvs) = fst ` set kvs"
proof -
  have "fst ` set (put_all kvs) = dom (map_of (put_all kvs))" by (simp add: dom_map_of_conv_image_fst)
  also have "\<dots> = dom (map_of (rev kvs))" by (simp add: map_of_put_all dom_def)
  also have "\<dots> = fst ` set kvs" by (simp add: dom_map_of_conv_image_fst)
  finally show ?thesis .
qed

lemma set_put_all: "set (put_all kvs) \<subseteq> set kvs"
proof
  fix kv assume kv: "kv \<in> set (put_all kvs)"
  obtain k v where [simp]: "kv = (k, v)" by (cases kv)
  have "map_of (put_all kvs) k = Some v"
    using kv wf_put_all [of kvs] by (simp add: wf_map_def)
  then have "map_of (rev kvs) k = Some v" by (simp add: map_of_put_all)
  then show "kv \<in> set kvs" by (auto dest: map_of_SomeD)
qed

text \<open>Normalised values have upper-case keys at every depth, and are well-formed.\<close>

fun upper_keys :: "json \<Rightarrow> bool" where
  "upper_keys (JArr vs) = list_all upper_keys vs"
| "upper_keys (JObj kvs) = list_all (\<lambda>kv. ToUpper (fst kv) = fst kv \<and> upper_keys (snd kv)) kvs"
| "upper_keys _ = True"

lemma upper_keys_normalizza: "upper_keys (normalizzaMappaInMaiuscolo v)"
proof (induction v rule: normalizzaMappaInMaiuscolo.induct)
  case (1 kvs)
  let ?l = "map (\<lambda>kv. (ToUpper (fst kv), normalizzaMappaInMaiuscolo (snd kv))) kvs"
  have "\<forall>kv \<in> set ?l. ToUpper (fst kv) = fst kv \<and> upper_keys (snd kv)"
    using "1" by auto
  then have "\<forall>kv \<in> set (put_all ?l). ToUpper (fst kv) = fst kv \<and> upper_keys (snd kv)"
    using set_put_all [of ?l] by blast
  then show ?case by (simp add: list_all_iff)
qed (auto simp: list_all_iff)

lemma wf_normalizza: "wf_json (normalizzaMappaInMaiuscolo v)"
proof (induction v rule: normalizzaMappaInMaiuscolo.induct)
  case (1 kvs)
  let ?l = "map (\<lambda>kv. (ToUpper (fst kv), normalizzaMappaInMaiuscolo (snd kv))) kvs"
  have "\<forall>kv \<in> set ?l. wf_json (snd kv)" using "1" by auto
  then have "\<forall>kv \<in> set (put_all ?l). wf_json (snd kv)"
    using set_put_all [of ?l] by blast
  then show ?case by (simp add: list_all_iff)
qed (auto simp: list_all_iff)

end
