(* ===== verification/Template.thy ===== *)
theory Template
  imports Naming Json
begin

text \<open>
  The text part of \<open>internal/controller/smart_nested_process.go\<close>: the placeholder substitution
  (\<open>processVariables\<close>, \<open>processVariablesNoSuffix\<close>), the balanced scan for
  \<open><FGT_FOR_STR><TAG>...<FGT_FOR_END>\<close> blocks (\<open>findTopLevelLoops\<close>) and their expansion
  (\<open>renderLoop\<close>, \<open>renderBlockBody\<close>, \<open>renderInPlace\<close>).  Offsets are byte offsets, as in the code.
\<close>

section \<open>Placeholder substitution\<close>

text \<open>
  \<open>regexp.MustCompile(`<([^>]+)>`).ReplaceAllStringFunc\<close>: matches are found from the left and
  do not overlap; a match opens at a \<open><\<close> whose next character is not \<open>>\<close> and ends at the first
  \<open>>\<close> after it.  The callback gets the name between the brackets.
\<close>

function ReplaceTags :: "(string \<Rightarrow> string) \<Rightarrow> string \<Rightarrow> string" where
  "ReplaceTags f [] = []"
| "ReplaceTags f (c # cs) =
     (let name = takeWhile (\<lambda>x. x \<noteq> CHR ''>'') cs;
          rest = dropWhile (\<lambda>x. x \<noteq> CHR ''>'') cs
      in if c = CHR ''<'' \<and> name \<noteq> [] \<and> rest \<noteq> [] then f name @ ReplaceTags f (tl rest)
         else c # ReplaceTags f cs)"
  by pat_completeness auto
termination
proof (relation "measure (\<lambda>(f, s). length s)", goal_cases)
  case (2 f c cs x xa)
  have "length (dropWhile (\<lambda>x. x \<noteq> CHR ''>'') cs) \<le> length cs"
    by (rule length_dropWhile_le)
  with 2 show ?case by simp
qed auto

definition loop_marker :: "string \<Rightarrow> bool" where
  "loop_marker varName = (varName = ''FGT_FOR_STR'' \<or> varName = ''FGT_FOR_END'' \<or>
     HasPrefix varName ''FGT_FOR_STR'')"

definition expectedPath :: "string \<Rightarrow> string \<Rightarrow> string" where
  "expectedPath currentPath key = (if currentPath = [] then key else currentPath @ ''_'' @ key)"

primrec findVariable :: "obj \<Rightarrow> string \<Rightarrow> string \<Rightarrow> string option" where
  "findVariable [] currentPath tag = None"
| "findVariable (kv # kvs) currentPath tag =
     (if \<not> is_scalar (snd kv) then findVariable kvs currentPath tag
      else if tag = expectedPath currentPath (fst kv) then Some (Sprintf_v (snd kv))
      else findVariable kvs currentPath tag)"

definition resolveTag :: "obj \<Rightarrow> string \<Rightarrow> string \<Rightarrow> string option" where
  "resolveTag itemData currentPath varName =
     findVariable itemData currentPath (ToUpper (TrimPrefix varName ''FGT_''))"

definition bracket :: "string \<Rightarrow> string" where
  "bracket name = ''<'' @ name @ ''>''"

definition processVariables :: "string \<Rightarrow> nat \<Rightarrow> obj \<Rightarrow> string \<Rightarrow> string" where
  "processVariables text index itemData currentPath =
     ReplaceTags (\<lambda>varName.
        if loop_marker varName then bracket varName
        else (case resolveTag itemData currentPath varName of
                Some s \<Rightarrow> s
              | None \<Rightarrow> bracket (varName @ ''_'' @ Itoa index))) text"

definition processVariablesNoSuffix :: "string \<Rightarrow> obj \<Rightarrow> string \<Rightarrow> string" where
  "processVariablesNoSuffix text itemData currentPath =
     ReplaceTags (\<lambda>varName.
        if loop_marker varName then bracket varName
        else (case resolveTag itemData currentPath varName of
                Some s \<Rightarrow> s
              | None \<Rightarrow> bracket varName)) text"

section \<open>Loop blocks\<close>

definition startTag :: string where "startTag = ''<FGT_FOR_STR>''"
definition endTag :: string where "endTag = ''<FGT_FOR_END>''"

record loopBlock =
  lb_tag :: string
  lb_body :: string
  lb_start :: nat
  lb_end :: nat

definition slice :: "string \<Rightarrow> nat \<Rightarrow> nat \<Rightarrow> string" where
  "slice s a b = take (b - a) (drop a s)"

lemma tag_lengths [simp]: "length startTag = 13" "length endTag = 13"
  by (simp_all add: startTag_def endTag_def)

lemma tags_nonempty [simp]: "startTag \<noteq> []" "endTag \<noteq> []"
  by (simp_all add: startTag_def endTag_def)

lemma Index_drop_bound: "Index (drop p s) sub = Some i \<Longrightarrow> sub \<noteq> [] \<Longrightarrow>
    p + i + length sub \<le> length s"
  using Index_Some_drop [of "drop p s" sub i] by (cases sub) auto

text \<open>
  The depth loop: from \<open>scan\<close>, an opening marker before the next closing one goes one level down,
  a closing marker one level up; \<open>None\<close> when a closing marker is missing.
\<close>

function scanEnd :: "string \<Rightarrow> nat \<Rightarrow> nat \<Rightarrow> nat option" where
  "scanEnd content depth scan =
     (if depth = 0 then Some scan
      else (case Index (drop scan content) endTag of
              None \<Rightarrow> None
            | Some nextEnd \<Rightarrow>
              (case Index (drop scan content) startTag of
                 Some nextStart \<Rightarrow>
                   if nextStart < nextEnd
                   then scanEnd content (depth + 1) (scan + nextStart + length startTag)
                   else scanEnd content (depth - 1) (scan + nextEnd + length endTag)
               | None \<Rightarrow> scanEnd content (depth - 1) (scan + nextEnd + length endTag))))"
  by pat_completeness auto
termination
  by (relation "measure (\<lambda>(content, depth, scan). length content - scan)")
    (auto dest!: Index_drop_bound)

declare scanEnd.simps [simp del]

lemma scanEnd_bounds:
  "scanEnd content depth scan = Some e \<Longrightarrow> 0 < depth \<Longrightarrow> scan + 13 \<le> e \<and> e \<le> length content"
proof (induction content depth scan rule: scanEnd.induct)
  case (1 content depth scan)
  from "1.prems" obtain ne where ne: "Index (drop scan content) endTag = Some ne"
    by (subst (asm) scanEnd.simps) (auto split: option.splits if_splits)
  have neb: "scan + ne + 13 \<le> length content"
    using Index_drop_bound [OF ne] by simp
  have close: ?case if "scanEnd content (depth - 1) (scan + ne + 13) = Some e"
    and IH: "0 < depth - 1 \<Longrightarrow> scan + ne + 13 + 13 \<le> e \<and> e \<le> length content"
  proof (cases "depth - 1 = 0")
    case True
    with that(1) have "e = scan + ne + 13" by (subst (asm) scanEnd.simps) simp
    with neb show ?thesis by simp
  next
    case False
    with IH show ?thesis by simp
  qed
  show ?case
  proof (cases "Index (drop scan content) startTag")
    case None
    with "1.prems" ne have "scanEnd content (depth - 1) (scan + ne + 13) = Some e"
      by (subst (asm) scanEnd.simps) simp
    with "1.IH"(1) [OF _ ne None] "1.prems" close show ?thesis by simp
  next
    case (Some ns)
    show ?thesis
    proof (cases "ns < ne")
      case True
      with "1.prems" ne Some have "scanEnd content (depth + 1) (scan + ns + 13) = Some e"
        by (subst (asm) scanEnd.simps) simp
      with "1.IH"(2) [OF _ ne Some True] "1.prems" show ?thesis by simp
    next
      case False
      with "1.prems" ne Some have "scanEnd content (depth - 1) (scan + ne + 13) = Some e"
        by (subst (asm) scanEnd.simps) simp
      with "1.IH"(3) [OF _ ne Some False] "1.prems" close show ?thesis by simp
    qed
  qed
qed

text \<open>
  One round of the outer loop: \<open>None\<close> if no opening marker is left, otherwise an error or the
  block found.
\<close>

definition nextLoop :: "string \<Rightarrow> nat \<Rightarrow> (loopBlock res) option" where
  "nextLoop content pos =
     (case Index (drop pos content) startTag of
        None \<Rightarrow> None
      | Some idx \<Rightarrow>
        (let start = pos + idx;
             afterStart = start + length startTag
         in if length content \<le> afterStart \<or> content ! afterStart \<noteq> CHR ''<''
            then Some (Inl (Errorf ''%s non seguito da <NOME> (posizione %d)'' [startTag, Itoa start]))
            else (case Index (drop afterStart content) ''>'' of
                    None \<Rightarrow> Some (Inl (Errorf ''tag <NOME> dopo %s non chiuso (posizione %d)''
                                     [startTag, Itoa start]))
                  | Some nameEnd \<Rightarrow>
                    (let tag = ToUpper (slice content (afterStart + 1) (afterStart + nameEnd));
                         bodyStart = afterStart + nameEnd + 1
                     in (case scanEnd content 1 bodyStart of
                           None \<Rightarrow> Some (Inl (Errorf ''%s mancante per il blocco <%s>'' [endTag, tag]))
                         | Some e \<Rightarrow>
                           Some (Inr \<lparr>lb_tag = tag,
                                      lb_body = slice content bodyStart (e - length endTag),
                                      lb_start = start, lb_end = e\<rparr>))))))"

lemma nextLoop_bounds:
  assumes "nextLoop content pos = Some (Inr b)"
  shows "pos \<le> lb_start b \<and> lb_start b + 13 + length (lb_body b) + 13 < lb_end b \<and>
         lb_end b \<le> length content"
proof -
  obtain idx where idx: "Index (drop pos content) startTag = Some idx"
    using assms by (auto simp: nextLoop_def split: option.splits)
  define after where "after = pos + idx + 13"
  obtain ne where ne: "Index (drop after content) ''>'' = Some ne"
    using assms idx by (auto simp: nextLoop_def Let_def after_def split: option.splits if_splits)
  obtain e where e: "scanEnd content 1 (after + ne + 1) = Some e"
    using assms idx ne by (auto simp: nextLoop_def Let_def after_def split: option.splits if_splits)
  have b: "lb_start b = pos + idx" "lb_end b = e"
    "lb_body b = slice content (after + ne + 1) (e - 13)"
    using assms idx ne e by (auto simp: nextLoop_def Let_def after_def split: if_splits)
  have "after + ne + 1 + 13 \<le> e" "e \<le> length content"
    using scanEnd_bounds [OF e] by auto
  then show ?thesis by (auto simp: b slice_def after_def)
qed

function findFrom :: "string \<Rightarrow> nat \<Rightarrow> (loopBlock list) res" where
  "findFrom content pos =
     (case nextLoop content pos of
        None \<Rightarrow> Inr []
      | Some (Inl e) \<Rightarrow> Inl e
      | Some (Inr b) \<Rightarrow>
        (case findFrom content (lb_end b) of
           Inl e \<Rightarrow> Inl e
         | Inr bs \<Rightarrow> Inr (b # bs)))"
  by pat_completeness auto
termination
  by (relation "measure (\<lambda>(content, pos). length content - pos)")
    (auto dest!: nextLoop_bounds)

declare findFrom.simps [simp del]

definition findTopLevelLoops :: "string \<Rightarrow> (loopBlock list) res" where
  "findTopLevelLoops content = findFrom content 0"

lemma findFrom_bounds:
  "findFrom content pos = Inr bs \<Longrightarrow> b \<in> set bs \<Longrightarrow>
     pos \<le> lb_start b \<and> lb_start b + 13 + length (lb_body b) + 13 < lb_end b \<and>
     lb_end b \<le> length content"
proof (induction content pos arbitrary: bs b rule: findFrom.induct)
  case (1 content pos)
  show ?case
  proof (cases "nextLoop content pos")
    case None
    with "1.prems" show ?thesis by (subst (asm) findFrom.simps) simp
  next
    case (Some r)
    with "1.prems" obtain b' bs' where r: "r = Inr b'" "findFrom content (lb_end b') = Inr bs'"
      "bs = b' # bs'"
      by (subst (asm) findFrom.simps) (auto split: sum.splits)
    note b' = nextLoop_bounds [OF Some [unfolded r(1)]]
    show ?thesis
    proof (cases "b = b'")
      case True
      with b' show ?thesis by simp
    next
      case False
      with "1.prems" r(3) have "b \<in> set bs'" by simp
      with "1.IH" [OF Some r(1,2)] b' show ?thesis by fastforce
    qed
  qed
qed

lemma nested_body_shorter:
  "findTopLevelLoops s = Inr bs \<Longrightarrow> b \<in> set bs \<Longrightarrow> length (lb_body b) < length s"
  using findFrom_bounds [of s 0 bs b] by (auto simp: findTopLevelLoops_def)

section \<open>Expansion\<close>

text \<open>
  The walk shared by \<open>renderBlockBody\<close> and \<open>renderInPlace\<close>: the text between the blocks goes
  through \<open>out\<close>, each block through \<open>rl\<close>; the first error ends the walk.
\<close>

fun renderBlocks :: "(loopBlock \<Rightarrow> string res) \<Rightarrow> (string \<Rightarrow> string) \<Rightarrow> string \<Rightarrow> nat \<Rightarrow>
    loopBlock list \<Rightarrow> string res" where
  "renderBlocks rl out body pos [] = Inr (out (drop pos body))"
| "renderBlocks rl out body pos (nb # nbs) =
     (case rl nb of
        Inl e \<Rightarrow> Inl e
      | Inr rendered \<Rightarrow>
        (case renderBlocks rl out body (lb_end nb) nbs of
           Inl e \<Rightarrow> Inl e
         | Inr tail \<Rightarrow> Inr (out (slice body pos (lb_start nb)) @ rendered @ tail)))"

text \<open>The loop over the elements of a list: elements that are null are skipped, but counted.\<close>

fun renderItems :: "(nat \<Rightarrow> obj \<Rightarrow> ('a list) res) \<Rightarrow> nat \<Rightarrow> json list \<Rightarrow> ('a list) res" where
  "renderItems f i [] = Inr []"
| "renderItems f i (rawItem # items) =
     (case resolveItem rawItem of
        None \<Rightarrow> renderItems f (i + 1) items
      | Some itemMap \<Rightarrow>
        (case f (i + 1) itemMap of
           Inl e \<Rightarrow> Inl e
         | Inr rendered \<Rightarrow>
           (case renderItems f (i + 1) items of
              Inl e \<Rightarrow> Inl e
            | Inr tail \<Rightarrow> Inr (rendered @ tail))))"

lemma renderBlocks_cong [fundef_cong]:
  assumes "out = out'" "body = body'" "pos = pos'" "nbs = nbs'"
    and "\<And>nb. nb \<in> set nbs' \<Longrightarrow> rl nb = rl' nb"
  shows "renderBlocks rl out body pos nbs = renderBlocks rl' out' body' pos' nbs'"
proof -
  have "(\<And>nb. nb \<in> set nbs' \<Longrightarrow> rl nb = rl' nb) \<Longrightarrow>
      renderBlocks rl out' body' p nbs' = renderBlocks rl' out' body' p nbs'" for p
    by (induction nbs' arbitrary: p) (auto split: sum.splits)
  with assms show ?thesis by simp
qed

lemma renderItems_cong [fundef_cong]:
  assumes "i = i'" "items = items'" and "\<And>j m. f j m = f' j m"
  shows "renderItems f i items = renderItems f' i' items'"
proof -
  have "f = f'" using assms(3) by (intro ext) simp
  with assms show ?thesis by simp
qed

definition list_not_found :: "string \<Rightarrow> goerr" where
  "list_not_found tag =
     Errorf ''nessuna lista trovata per <%s>'' [tag]"

definition subPathOf :: "string \<Rightarrow> string \<Rightarrow> string" where
  "subPathOf basePath tag = (if basePath = [] then tag else basePath @ ''_'' @ tag)"

function renderLoop :: "loopBlock \<Rightarrow> obj \<Rightarrow> string \<Rightarrow> string res" where
  "renderLoop blk parentMap basePath =
     (case resolveListPath parentMap (lb_tag blk) of
        None \<Rightarrow> Inl (list_not_found (lb_tag blk))
      | Some listData \<Rightarrow>
        (case findTopLevelLoops (lb_body blk) of
           Inl e \<Rightarrow> Inl e
         | Inr nested \<Rightarrow>
           renderItems
             (\<lambda>index itemMap.
                (case renderBlocks
                        (\<lambda>nb. renderLoop nb itemMap (subPathOf basePath (lb_tag blk)))
                        (\<lambda>s. s) (lb_body blk) 0 nested of
                   Inl e \<Rightarrow> Inl e
                 | Inr s \<Rightarrow> Inr (processVariables s index itemMap
                                    (subPathOf basePath (lb_tag blk)))))
             0 listData))"
  by pat_completeness auto
termination
  by (relation "measure (\<lambda>(blk, _, _). length (lb_body blk))") (auto dest: nested_body_shorter)

declare renderLoop.simps [simp del]

definition renderBlockBody :: "string \<Rightarrow> loopBlock list \<Rightarrow> obj \<Rightarrow> string \<Rightarrow> nat \<Rightarrow> string res" where
  "renderBlockBody body nested itemMap path index =
     (case renderBlocks (\<lambda>nb. renderLoop nb itemMap path) (\<lambda>s. s) body 0 nested of
        Inl e \<Rightarrow> Inl e
      | Inr s \<Rightarrow> Inr (processVariables s index itemMap path))"

lemma renderLoop_unfold:
  "renderLoop blk parentMap basePath =
     (case resolveListPath parentMap (lb_tag blk) of
        None \<Rightarrow> Inl (list_not_found (lb_tag blk))
      | Some listData \<Rightarrow>
        (case findTopLevelLoops (lb_body blk) of
           Inl e \<Rightarrow> Inl e
         | Inr nested \<Rightarrow>
           renderItems (\<lambda>index itemMap.
             renderBlockBody (lb_body blk) nested itemMap (subPathOf basePath (lb_tag blk)) index)
             0 listData))"
  unfolding renderBlockBody_def by (rule renderLoop.simps)

definition renderInPlace :: "string \<Rightarrow> loopBlock list \<Rightarrow> obj \<Rightarrow> string res" where
  "renderInPlace content blocks specMap =
     renderBlocks (\<lambda>blk. renderLoop blk specMap [])
       (\<lambda>s. processVariablesNoSuffix s specMap []) content 0 blocks"

end
