(* ===== verification/Template_Spec.thy ===== *)
theory Template_Spec
  imports Template
begin

text \<open>
  An abstract template language, printed to the concrete syntax of the templates, and what the
  text engine of \<^theory_text>\<open>Template\<close> does on printed templates: the placeholder scanner sees exactly
  the placeholders, \<open>findTopLevelLoops\<close> finds exactly the outermost loops, and the expansion is
  the one the template structure prescribes.
\<close>

section \<open>Pieces: characters and placeholders\<close>

datatype piece = Lit char | Var string

fun print_piece :: "piece \<Rightarrow> string" where
  "print_piece (Lit c) = [c]"
| "print_piece (Var n) = bracket n"

definition print_pieces :: "piece list \<Rightarrow> string" where
  "print_pieces ps = concat (map print_piece ps)"

definition wf_name :: "string \<Rightarrow> bool" where
  "wf_name n = (n \<noteq> [] \<and> CHR ''<'' \<notin> set n \<and> CHR ''>'' \<notin> set n)"

fun wf_piece :: "piece \<Rightarrow> bool" where
  "wf_piece (Lit c) = (c \<noteq> CHR ''<'')"
| "wf_piece (Var n) = wf_name n"

lemma print_pieces_simps [simp]:
  "print_pieces [] = []"
  "print_pieces (p # ps) = print_piece p @ print_pieces ps"
  "print_pieces (ps @ qs) = print_pieces ps @ print_pieces qs"
  by (simp_all add: print_pieces_def)

lemma print_Lits [simp]: "print_pieces (map Lit s) = s"
  by (induction s) simp_all

lemma takeWhile_name: "CHR ''>'' \<notin> set n \<Longrightarrow>
    takeWhile (\<lambda>x. x \<noteq> CHR ''>'') (n @ CHR ''>'' # s) = n \<and>
    dropWhile (\<lambda>x. x \<noteq> CHR ''>'') (n @ CHR ''>'' # s) = CHR ''>'' # s"
  by (induction n) auto

lemma ReplaceTags_bracket:
  assumes "n \<noteq> []" "CHR ''>'' \<notin> set n"
  shows "ReplaceTags f (bracket n @ s) = f n @ ReplaceTags f s"
proof -
  have "bracket n @ s = CHR ''<'' # (n @ CHR ''>'' # s)" by (simp add: bracket_def)
  moreover note takeWhile_name [OF assms(2), of s]
  ultimately show ?thesis using assms(1) by (simp only: ReplaceTags.simps) (simp add: Let_def)
qed

lemma ReplaceTags_Lit: "c \<noteq> CHR ''<'' \<Longrightarrow> ReplaceTags f (c # s) = c # ReplaceTags f s"
  by (simp add: Let_def)

fun subst_piece :: "(string \<Rightarrow> string) \<Rightarrow> piece \<Rightarrow> string" where
  "subst_piece f (Lit c) = [c]"
| "subst_piece f (Var n) = f n"

lemma ReplaceTags_pieces:
  "list_all wf_piece ps \<Longrightarrow>
     ReplaceTags f (print_pieces ps @ s) = concat (map (subst_piece f) ps) @ ReplaceTags f s"
proof (induction ps)
  case Nil
  then show ?case by simp
next
  case (Cons p ps)
  show ?case
  proof (cases p)
    case (Lit c)
    with Cons show ?thesis by (simp del: ReplaceTags.simps add: ReplaceTags_Lit)
  next
    case (Var n)
    with Cons show ?thesis
      by (simp del: ReplaceTags.simps add: ReplaceTags_bracket wf_name_def)
  qed
qed

lemma ReplaceTags_no_open: "CHR ''<'' \<notin> set s \<Longrightarrow> ReplaceTags f s = s"
  by (induction s) (auto simp: Let_def)

text \<open>
  Every text has exactly one reading: the scanner's own reading, printed back, is the text.
\<close>

function read_pieces :: "string \<Rightarrow> piece list" where
  "read_pieces [] = []"
| "read_pieces (c # cs) =
     (let name = takeWhile (\<lambda>x. x \<noteq> CHR ''>'') cs;
          rest = dropWhile (\<lambda>x. x \<noteq> CHR ''>'') cs
      in if c = CHR ''<'' \<and> name \<noteq> [] \<and> rest \<noteq> [] then Var name # read_pieces (tl rest)
         else Lit c # read_pieces cs)"
  by pat_completeness auto
termination
proof (relation "measure length", goal_cases)
  case (2 c cs x xa)
  have "length (dropWhile (\<lambda>x. x \<noteq> CHR ''>'') cs) \<le> length cs"
    by (rule length_dropWhile_le)
  with 2 show ?case by simp
qed auto

lemma cut_at_gt:
  "dropWhile (\<lambda>x. x \<noteq> CHR ''>'') cs \<noteq> [] \<Longrightarrow>
     takeWhile (\<lambda>x. x \<noteq> CHR ''>'') cs @ CHR ''>'' # tl (dropWhile (\<lambda>x. x \<noteq> CHR ''>'') cs) = cs"
  by (induction cs) auto

lemma print_read_pieces: "print_pieces (read_pieces s) = s"
  by (induction s rule: read_pieces.induct) (auto simp: Let_def bracket_def cut_at_gt)

lemma ReplaceTags_read: "ReplaceTags f s = concat (map (subst_piece f) (read_pieces s))"
  by (induction f s rule: ReplaceTags.induct) (auto simp: Let_def)

lemma read_print_pieces: "list_all wf_piece ps \<Longrightarrow> read_pieces (print_pieces ps) = ps"
proof (induction ps)
  case Nil
  then show ?case by simp
next
  case (Cons p ps)
  show ?case
  proof (cases p)
    case (Lit c)
    with Cons show ?thesis by (simp add: Let_def)
  next
    case (Var n)
    have b: "bracket n @ print_pieces ps = CHR ''<'' # (n @ CHR ''>'' # print_pieces ps)"
      by (simp add: bracket_def)
    have "CHR ''>'' \<notin> set n" "n \<noteq> []" using Cons.prems Var by (simp_all add: wf_name_def)
    then have "read_pieces (bracket n @ print_pieces ps) = Var n # read_pieces (print_pieces ps)"
      using takeWhile_name [of n "print_pieces ps"] unfolding b
      by (simp only: read_pieces.simps) (simp add: Let_def)
    with Cons Var show ?thesis by simp
  qed
qed

section \<open>Templates with loops\<close>

datatype node = Piece piece | Loop string "node list"

fun print_node :: "node \<Rightarrow> string" where
  "print_node (Piece p) = print_piece p"
| "print_node (Loop tag body) =
     startTag @ bracket tag @ concat (map print_node body) @ endTag"

abbreviation print_nodes :: "node list \<Rightarrow> string" where
  "print_nodes ns \<equiv> concat (map print_node ns)"

definition plain_name :: "string \<Rightarrow> bool" where
  "plain_name n = (wf_name n \<and> n \<noteq> ''FGT_FOR_STR'' \<and> n \<noteq> ''FGT_FOR_END'')"

fun wf_node :: "node \<Rightarrow> bool" where
  "wf_node (Piece (Lit c)) = (c \<noteq> CHR ''<'')"
| "wf_node (Piece (Var n)) = plain_name n"
| "wf_node (Loop tag body) = (plain_name tag \<and> list_all wf_node body)"

text \<open>A text without markers: no occurrence of a marker starts inside it, whatever follows.\<close>

definition markerless :: "string \<Rightarrow> bool" where
  "markerless t = (\<forall>j < length t. \<forall>s. \<not> prefix startTag (drop j t @ s) \<and> \<not> prefix endTag (drop j t @ s))"

lemma markerless_append: "markerless a \<Longrightarrow> markerless b \<Longrightarrow> markerless (a @ b)"
  unfolding markerless_def
proof (intro allI impI)
  fix j s
  assume a: "\<forall>j<length a. \<forall>s. \<not> prefix startTag (drop j a @ s) \<and> \<not> prefix endTag (drop j a @ s)"
    and b: "\<forall>j<length b. \<forall>s. \<not> prefix startTag (drop j b @ s) \<and> \<not> prefix endTag (drop j b @ s)"
    and j: "j < length (a @ b)"
  show "\<not> prefix startTag (drop j (a @ b) @ s) \<and> \<not> prefix endTag (drop j (a @ b) @ s)"
  proof (cases "j < length a")
    case True
    then show ?thesis using a [rule_format, of j "b @ s"] by simp
  next
    case False
    then show ?thesis using b [rule_format, of "j - length a" s] j by simp
  qed
qed

lemma markerless_Lit: "c \<noteq> CHR ''<'' \<Longrightarrow> markerless [c]"
  by (simp add: markerless_def startTag_def endTag_def)

lemma no_open_not_marker:
  "t \<noteq> [] \<Longrightarrow> CHR ''<'' \<notin> set t \<Longrightarrow> \<not> prefix startTag (t @ s) \<and> \<not> prefix endTag (t @ s)"
  by (cases t) (auto simp: startTag_def endTag_def)

lemma marker_name: "CHR ''>'' \<notin> set n \<Longrightarrow> CHR ''>'' \<notin> set m \<Longrightarrow>
    prefix (m @ ''>'') (n @ CHR ''>'' # s) \<Longrightarrow> n = m"
proof (induction n arbitrary: m)
  case Nil
  then show ?case by (cases m) auto
next
  case (Cons c n)
  then show ?case by (cases m) auto
qed

lemma markerless_bracket:
  assumes "plain_name n"
  shows "markerless (bracket n)"
  unfolding markerless_def
proof (intro allI impI)
  fix j s
  assume j: "j < length (bracket n)"
  show "\<not> prefix startTag (drop j (bracket n) @ s) \<and> \<not> prefix endTag (drop j (bracket n) @ s)"
  proof (cases j)
    case 0
    have no: "\<not> prefix (m @ ''>'') (n @ CHR ''>'' # s)"
      if "m = ''FGT_FOR_STR'' \<or> m = ''FGT_FOR_END''" for m
    proof
      assume p: "prefix (m @ ''>'') (n @ CHR ''>'' # s)"
      have "CHR ''>'' \<notin> set m" using that by auto
      then have "n = m" using p assms by (intro marker_name) (auto simp: plain_name_def wf_name_def)
      with assms that show False by (auto simp: plain_name_def)
    qed
    have "\<not> prefix startTag (CHR ''<'' # n @ CHR ''>'' # s)"
      "\<not> prefix endTag (CHR ''<'' # n @ CHR ''>'' # s)"
      using no [of "''FGT_FOR_STR''"] no [of "''FGT_FOR_END''"]
      by (simp_all add: startTag_def endTag_def)
    then show ?thesis using 0 by (simp add: bracket_def)
  next
    case (Suc i)
    have "drop j (bracket n) \<noteq> []" using j by simp
    moreover have "CHR ''<'' \<notin> set (drop j (bracket n))"
      using assms Suc by (auto simp: bracket_def plain_name_def wf_name_def dest: in_set_dropD)
    ultimately show ?thesis by (rule no_open_not_marker)
  qed
qed

lemma markerless_piece: "wf_node (Piece p) \<Longrightarrow> markerless (print_piece p)"
  by (cases p) (auto intro: markerless_Lit markerless_bracket)

lemma Index_skip:
  "(\<And>j. j < length t \<Longrightarrow> \<not> prefix sub (drop j t @ s)) \<Longrightarrow>
     Index (t @ s) sub = map_option (\<lambda>i. i + length t) (Index s sub)"
proof (induction t)
  case Nil
  then show ?case by (simp add: option.map_ident)
next
  case (Cons c t)
  have "\<not> prefix sub (c # t @ s)" using Cons.prems [of 0] by simp
  moreover have "Index (t @ s) sub = map_option (\<lambda>i. i + length t) (Index s sub)"
    by (rule Cons.IH) (use Cons.prems [of "Suc _"] in simp)
  ultimately show ?case by (simp add: option.map_comp o_def)
qed

lemma Index_markerless:
  "markerless t \<Longrightarrow> Index (t @ s) startTag = map_option (\<lambda>i. i + length t) (Index s startTag)"
  "markerless t \<Longrightarrow> Index (t @ s) endTag = map_option (\<lambda>i. i + length t) (Index s endTag)"
  by (intro Index_skip; simp add: markerless_def)+

section \<open>The scanner on printed templates\<close>

lemma scanEnd_step:
  "scanEnd content (Suc d) scan =
     (case Index (drop scan content) endTag of
        None \<Rightarrow> None
      | Some nextEnd \<Rightarrow>
        (case Index (drop scan content) startTag of
           Some nextStart \<Rightarrow>
             if nextStart < nextEnd
             then scanEnd content (Suc (Suc d)) (scan + nextStart + 13)
             else scanEnd content d (scan + nextEnd + 13)
         | None \<Rightarrow> scanEnd content d (scan + nextEnd + 13)))"
  by (subst scanEnd.simps) (auto split: option.splits)

lemma scanEnd_markerless:
  assumes "markerless t"
  shows "scanEnd (pre @ t @ suf) (Suc d) (length pre) =
    scanEnd (pre @ t @ suf) (Suc d) (length pre + length t)"
  unfolding scanEnd_step [of _ d "length pre"] scanEnd_step [of _ d "length pre + length t"]
  by (simp add: Index_markerless [OF assms] algebra_simps split: option.splits)

lemma Index_prefix [simp]: "Index (sub @ s) sub = Some 0"
proof (cases "sub @ s")
  case Nil
  then show ?thesis by simp
next
  case (Cons a list)
  moreover have "prefix sub (sub @ s)" by simp
  ultimately show ?thesis by simp
qed

lemma startTag_not_endTag: "\<not> prefix endTag (startTag @ s)" "\<not> prefix startTag (endTag @ s)"
  by (simp_all add: startTag_def endTag_def)

lemma scanEnd_open:
  assumes "Index s endTag \<noteq> None"
  shows "scanEnd (pre @ startTag @ s) (Suc d) (length pre) =
    scanEnd (pre @ startTag @ s) (Suc (Suc d)) (length pre + 13)"
proof -
  have "Index (startTag @ s) endTag \<noteq> None"
    using assms by (auto simp: Index_None_sublist sublist_append)
  then obtain e where e: "Index (startTag @ s) endTag = Some e" by auto
  then have "0 < e"
    using Index_Some_drop [OF e] startTag_not_endTag [of s] by (cases e) auto
  with e show ?thesis by (subst scanEnd_step) simp
qed

lemma scanEnd_close:
  "scanEnd (pre @ endTag @ s) (Suc d) (length pre) = scanEnd (pre @ endTag @ s) d (length pre + 13)"
  by (subst scanEnd_step) (auto split: option.splits)

lemma Index_endTag_later: "Index (t @ endTag @ s) endTag \<noteq> None"
  by (auto simp: Index_None_sublist sublist_def)

lemma scanEnd_nodes:
  "list_all wf_node ns \<Longrightarrow>
     scanEnd (pre @ print_nodes ns @ suf) (Suc d) (length pre) =
     scanEnd (pre @ print_nodes ns @ suf) (Suc d) (length pre + length (print_nodes ns))"
proof (induction "size_list size ns" arbitrary: ns pre suf d rule: less_induct)
  case less
  show ?case
  proof (cases ns)
    case Nil
    then show ?thesis by simp
  next
    case (Cons n ns')
    note IH = less.hyps
    have wf': "list_all wf_node ns'" and sz: "size_list size ns' < size_list size ns"
      using less.prems Cons by simp_all
    show ?thesis
    proof (cases n)
      case (Piece p)
      have m: "markerless (print_piece p)"
        using less.prems Cons Piece by (intro markerless_piece) simp
      show ?thesis
        using scanEnd_markerless [OF m, of pre "print_nodes ns' @ suf" d]
          IH [OF sz wf', of "pre @ print_piece p" suf d]
        by (simp add: Cons Piece algebra_simps)
    next
      case (Loop tag body)
      have m: "markerless (bracket tag)"
        using less.prems Cons Loop by (intro markerless_bracket) simp
      have wb: "list_all wf_node body" using less.prems Cons Loop by simp
      have szb: "size_list size body < size_list size ns" using Cons Loop by simp
      let ?r = "endTag @ print_nodes ns' @ suf"
      let ?b = "print_nodes body"
      have 1: "scanEnd (pre @ startTag @ bracket tag @ ?b @ ?r) (Suc d) (length pre) =
          scanEnd (pre @ startTag @ bracket tag @ ?b @ ?r) (Suc (Suc d)) (length pre + 13)"
        using scanEnd_open [of "(bracket tag @ ?b) @ ?r" pre d]
          Index_endTag_later [of "bracket tag @ ?b" "print_nodes ns' @ suf"] by simp
      have 2: "\<dots> = scanEnd (pre @ startTag @ bracket tag @ ?b @ ?r) (Suc (Suc d))
          (length pre + 13 + length (bracket tag))"
        using scanEnd_markerless [OF m, of "pre @ startTag" "?b @ ?r" "Suc d"] by simp
      have 3: "\<dots> = scanEnd (pre @ startTag @ bracket tag @ ?b @ ?r) (Suc (Suc d))
          (length pre + 13 + length (bracket tag) + length ?b)"
        using IH [OF szb wb, of "pre @ startTag @ bracket tag" ?r "Suc d"]
        by (simp add: algebra_simps)
      have 4: "\<dots> = scanEnd (pre @ startTag @ bracket tag @ ?b @ ?r) (Suc d)
          (length pre + 13 + length (bracket tag) + length ?b + 13)"
        using scanEnd_close [of "pre @ startTag @ bracket tag @ ?b" "print_nodes ns' @ suf" "Suc d"]
        by (simp add: algebra_simps)
      have 5: "\<dots> = scanEnd (pre @ startTag @ bracket tag @ ?b @ ?r) (Suc d)
          (length pre + 13 + length (bracket tag) + length ?b + 13 + length (print_nodes ns'))"
        using IH [OF sz wf', of "pre @ startTag @ bracket tag @ ?b @ endTag" suf d]
        by (simp add: algebra_simps)
      from 1 2 3 4 5 show ?thesis by (simp add: Cons Loop algebra_simps)
    qed
  qed
qed

text \<open>The blocks of a printed template, with their offsets.\<close>

fun node_blocks :: "node list \<Rightarrow> nat \<Rightarrow> loopBlock list" where
  "node_blocks [] pos = []"
| "node_blocks (Piece p # ns) pos = node_blocks ns (pos + length (print_piece p))"
| "node_blocks (Loop tag body # ns) pos =
     (let e = pos + length (print_node (Loop tag body))
      in \<lparr>lb_tag = ToUpper tag, lb_body = print_nodes body, lb_start = pos, lb_end = e\<rparr>
         # node_blocks ns e)"

lemma nextLoop_skip:
  assumes "markerless t"
  shows "nextLoop (pre @ t @ s) (length pre) = nextLoop (pre @ t @ s) (length pre + length t)"
proof -
  have "Index (drop (length pre) (pre @ t @ s)) startTag = map_option (\<lambda>i. i + length t) (Index s startTag)"
    "Index (drop (length pre + length t) (pre @ t @ s)) startTag = Index s startTag"
    by (simp_all add: Index_markerless [OF assms])
  moreover have "length pre + (i + length t) = length pre + length t + i" for i by simp
  ultimately show ?thesis
    unfolding nextLoop_def by (cases "Index s startTag") (simp_all only: option.map option.case)
qed

lemma Index_name_end: "CHR ''>'' \<notin> set n \<Longrightarrow> Index (n @ CHR ''>'' # s) ''>'' = Some (length n)"
proof (induction n)
  case Nil
  then show ?case by simp
next
  case (Cons c n)
  then show ?case by auto
qed

lemma nextLoop_here:
  assumes tag: "plain_name tag" and wf: "list_all wf_node body"
    and e: "e = length pre + length (print_node (Loop tag body))"
  shows "nextLoop (pre @ print_node (Loop tag body) @ s) (length pre) =
    Some (Inr \<lparr>lb_tag = ToUpper tag, lb_body = print_nodes body, lb_start = length pre, lb_end = e\<rparr>)"
proof -
  let ?b = "print_nodes body"
  let ?c = "pre @ startTag @ bracket tag @ ?b @ endTag @ s"
  have gt: "CHR ''>'' \<notin> set tag" using tag by (simp add: plain_name_def wf_name_def)
  have c: "pre @ print_node (Loop tag body) @ s = ?c" by simp
  have after: "?c ! (length pre + 13) = CHR ''<''"
    by (simp add: nth_append bracket_def)
  have d: "drop (length pre + 13) ?c = bracket tag @ ?b @ endTag @ s" by simp
  have "Index (bracket tag @ ?b @ endTag @ s) ''>'' = Some (Suc (length tag))"
    using Index_name_end [of "CHR ''<'' # tag" "?b @ endTag @ s"] gt
    by (simp add: bracket_def del: Index.simps)
  then have ne: "Index (drop (length pre + 13) ?c) ''>'' = Some (Suc (length tag))"
    by (simp only: d)
  have nm: "slice ?c (length pre + 13 + 1) (length pre + 13 + Suc (length tag)) = tag"
    by (simp add: slice_def bracket_def)
  have st: "Index (drop (length pre) ?c) startTag = Some 0" by simp
  have "scanEnd ?c 1 (length pre + 13 + length (bracket tag)) =
      scanEnd ?c 1 (length pre + 13 + length (bracket tag) + length ?b)"
    using scanEnd_nodes [OF wf, of "pre @ startTag @ bracket tag" "endTag @ s" 0]
    by (simp add: algebra_simps)
  also have "\<dots> = scanEnd ?c 0 (length pre + 13 + length (bracket tag) + length ?b + 13)"
    using scanEnd_close [of "pre @ startTag @ bracket tag @ ?b" s 0] by (simp add: algebra_simps)
  also have "\<dots> = Some e"
    by (subst scanEnd.simps) (simp add: e algebra_simps)
  finally have sc: "scanEnd ?c 1 (length pre + 13 + Suc (length tag) + 1) = Some e"
    by (simp add: bracket_def algebra_simps)
  have body: "slice ?c (length pre + 13 + Suc (length tag) + 1) (e - 13) = ?b"
    by (simp add: slice_def bracket_def e)
  have len: "\<not> length ?c \<le> length pre + 13" by (simp add: bracket_def)
  show ?thesis
    unfolding c nextLoop_def st option.case Let_def tag_lengths add_0_right
    using after len ne nm sc body by simp
qed

lemma findFrom_nodes:
  "list_all wf_node ns \<Longrightarrow>
     findFrom (pre @ print_nodes ns) (length pre) = Inr (node_blocks ns (length pre))"
proof (induction ns arbitrary: pre)
  case Nil
  have "nextLoop pre (length pre) = None" by (simp add: nextLoop_def)
  then show ?case by (subst findFrom.simps) simp
next
  case (Cons n ns)
  show ?case
  proof (cases n)
    case (Piece p)
    have m: "markerless (print_piece p)" using Cons.prems Piece by (intro markerless_piece) simp
    have "findFrom (pre @ print_piece p @ print_nodes ns) (length pre) =
        findFrom (pre @ print_piece p @ print_nodes ns) (length pre + length (print_piece p))"
      by (subst (1 2) findFrom.simps) (simp only: nextLoop_skip [OF m])
    also have "\<dots> = Inr (node_blocks ns (length pre + length (print_piece p)))"
      using Cons.IH [of "pre @ print_piece p"] Cons.prems by simp
    finally show ?thesis using Piece by simp
  next
    case (Loop tag body)
    let ?l = "length pre + length (print_node (Loop tag body))"
    have "plain_name tag" "list_all wf_node body" "list_all wf_node ns"
      using Cons.prems Loop by simp_all
    moreover from this have "findFrom (pre @ print_node (Loop tag body) @ print_nodes ns) ?l =
        Inr (node_blocks ns ?l)"
      using Cons.IH [of "pre @ print_node (Loop tag body)"] by (simp del: print_node.simps)
    ultimately show ?thesis
      using nextLoop_here [OF _ _ refl, of tag body pre "print_nodes ns"] Loop
      by (subst findFrom.simps) (simp add: Let_def del: print_node.simps)
  qed
qed

lemma findTopLevelLoops_print:
  "list_all wf_node ns \<Longrightarrow> findTopLevelLoops (print_nodes ns) = Inr (node_blocks ns 0)"
  using findFrom_nodes [of ns "[]"] by (simp add: findTopLevelLoops_def)

end
