(* ===== verification/Template_Refine.thy ===== *)
theory Template_Refine
  imports Template_Spec
begin

text \<open>
  What \<open>findTopLevelLoops\<close> returns on an arbitrary text, and the meaning of a printed template
  as a function on its structure, which the text engine computes whenever no value of the
  custom resource contains an opening bracket.
\<close>

section \<open>The blocks found in an arbitrary text\<close>

text \<open>
  From \<open>pos\<close> on, the blocks are consecutive, each one is exactly
  \<open><FGT_FOR_STR><name>body<FGT_FOR_END>\<close> in the text, and no opening marker starts outside them.
\<close>

fun tiles :: "string \<Rightarrow> nat \<Rightarrow> loopBlock list \<Rightarrow> bool" where
  "tiles content pos [] = (\<forall>j. pos \<le> j \<longrightarrow> \<not> prefix startTag (drop j content))"
| "tiles content pos (b # bs) =
     (pos \<le> lb_start b \<and>
      (\<forall>j. pos \<le> j \<and> j < lb_start b \<longrightarrow> \<not> prefix startTag (drop j content)) \<and>
      (\<exists>name. CHR ''>'' \<notin> set name \<and> lb_tag b = ToUpper name \<and>
         drop (lb_start b) content =
           startTag @ bracket name @ lb_body b @ endTag @ drop (lb_end b) content) \<and>
      tiles content (lb_end b) bs)"

lemma scanEnd_at_close:
  "scanEnd content depth scan = Some e \<Longrightarrow> 0 < depth \<Longrightarrow> prefix endTag (drop (e - 13) content)"
proof (induction content depth scan rule: scanEnd.induct)
  case (1 content depth scan)
  then obtain d where d: "depth = Suc d" by (cases depth) auto
  obtain ne where ne: "Index (drop scan content) endTag = Some ne"
    using "1.prems" d by (auto simp: scanEnd_step split: option.splits)
  have close: "prefix endTag (drop (e - 13) content)"
    if s: "scanEnd content d (scan + ne + 13) = Some e"
      and IH: "0 < d \<Longrightarrow> prefix endTag (drop (e - 13) content)"
  proof (cases d)
    case 0
    with s have "e = scan + ne + 13" by (subst (asm) scanEnd.simps) simp
    then show ?thesis using Index_Some_drop [OF ne] by (simp add: add.commute)
  next
    case (Suc d')
    then show ?thesis using IH by simp
  qed
  show ?case
  proof (cases "\<exists>ns. Index (drop scan content) startTag = Some ns \<and> ns < ne")
    case True
    then obtain ns where ns: "Index (drop scan content) startTag = Some ns" "ns < ne" by blast
    with "1.prems" ne d have "scanEnd content (depth + 1) (scan + ns + 13) = Some e"
      by (simp add: scanEnd_step)
    with "1.IH"(2) [OF _ ne ns] d show ?thesis by simp
  next
    case False
    then have s: "scanEnd content d (scan + ne + 13) = Some e"
      using "1.prems" ne d by (auto simp: scanEnd_step split: option.splits if_splits)
    show ?thesis
    proof (rule close [OF s])
      assume "0 < d"
      show "prefix endTag (drop (e - 13) content)"
      proof (cases "Index (drop scan content) startTag")
        case None
        with "1.IH"(1) [OF _ ne None] d s \<open>0 < d\<close> show ?thesis by simp
      next
        case (Some ns)
        with False have "\<not> ns < ne" by simp
        with "1.IH"(3) [OF _ ne Some] d s \<open>0 < d\<close> show ?thesis by simp
      qed
    qed
  qed
qed

lemma drop_prefix_split: "prefix t (drop i s) \<Longrightarrow> drop i s = t @ drop (i + length t) s"
  by (metis add.commute append_eq_conv_conj drop_drop prefix_def)

lemma slice_drop: "a \<le> b \<Longrightarrow> drop a s = slice s a b @ drop b s"
  by (metis append_take_drop_id drop_drop le_add_diff_inverse2 slice_def)

lemma nextLoop_None_iff: "nextLoop content pos = None \<longleftrightarrow> Index (drop pos content) startTag = None"
  by (auto simp: nextLoop_def Let_def split: option.splits)

lemma nextLoop_shape:
  assumes "nextLoop content pos = Some (Inr b)"
  shows "pos \<le> lb_start b"
    and "\<forall>j. pos \<le> j \<and> j < lb_start b \<longrightarrow> \<not> prefix startTag (drop j content)"
    and "\<exists>name. CHR ''>'' \<notin> set name \<and> lb_tag b = ToUpper name \<and>
         drop (lb_start b) content =
           startTag @ bracket name @ lb_body b @ endTag @ drop (lb_end b) content"
proof -
  obtain idx where idx: "Index (drop pos content) startTag = Some idx"
    using assms by (auto simp: nextLoop_def split: option.splits)
  define st where "st = pos + idx"
  have lt: "\<not> length content \<le> st + 13" "content ! (st + 13) = CHR ''<''"
    using assms idx by (auto simp: nextLoop_def Let_def st_def split: option.splits if_splits)
  obtain ne where ne: "Index (drop (st + 13) content) ''>'' = Some ne"
    using assms idx by (auto simp: nextLoop_def Let_def st_def split: option.splits if_splits)
  obtain e where e: "scanEnd content 1 (st + 13 + ne + 1) = Some e"
    using assms idx ne by (auto simp: nextLoop_def Let_def st_def split: option.splits if_splits)
  have b: "lb_start b = st" "lb_end b = e"
    "lb_tag b = ToUpper (slice content (st + 14) (st + 13 + ne))"
    "lb_body b = slice content (st + 13 + ne + 1) (e - 13)"
    using assms idx ne e by (auto simp: nextLoop_def Let_def st_def add.commute add.left_commute split: if_splits)
  show "pos \<le> lb_start b" by (simp add: b st_def)
  show "\<forall>j. pos \<le> j \<and> j < lb_start b \<longrightarrow> \<not> prefix startTag (drop j content)"
  proof (intro allI impI)
    fix j assume j: "pos \<le> j \<and> j < lb_start b"
    then have "j - pos < idx" by (auto simp: b st_def)
    then show "\<not> prefix startTag (drop j content)"
      using Index_least [OF idx, of "j - pos"] j by simp
  qed
  have eb: "st + 13 + ne + 1 + 13 \<le> e" "e \<le> length content"
    using scanEnd_bounds [OF e] by auto
  have d0: "drop st content = startTag @ drop (st + 13) content"
    using Index_Some_drop [OF idx] drop_prefix_split [of startTag st content]
    by (simp add: st_def add.commute)
  have d1: "drop (st + 13) content = CHR ''<'' # drop (st + 14) content"
    using lt Cons_nth_drop_Suc [of "st + 13" content] by (simp add: add.commute)
  have ne0: "0 < ne"
    using Index_Some_drop [OF ne] d1 by (cases ne) auto
  define name where "name = slice content (st + 14) (st + 13 + ne)"
  have d2: "drop (st + 14) content = name @ drop (st + 13 + ne) content"
    unfolding name_def using ne0 by (intro slice_drop) simp
  have d3: "drop (st + 13 + ne) content = CHR ''>'' # drop (st + 13 + ne + 1) content"
    using Index_Some_drop [OF ne] drop_prefix_split [of "''>''" "st + 13 + ne" content]
    by (simp add: add.commute add.left_commute)
  have d4: "drop (st + 13 + ne + 1) content = lb_body b @ drop (e - 13) content"
    unfolding b using eb by (intro slice_drop) simp
  have d5: "drop (e - 13) content = endTag @ drop e content"
    using drop_prefix_split [OF scanEnd_at_close [OF e]] eb by simp
  have "CHR ''>'' \<notin> set name"
  proof
    assume "CHR ''>'' \<in> set name"
    then obtain i where i: "i < length name" "name ! i = CHR ''>''" by (auto simp: in_set_conv_nth)
    then have "i < ne - 1" by (auto simp: name_def slice_def)
    moreover have "drop (Suc i) (drop (st + 13) content) = drop i name @ drop (st + 13 + ne) content"
      using d2 i unfolding d1 by simp
    moreover have "drop i name = CHR ''>'' # drop (Suc i) name"
      using i by (metis Cons_nth_drop_Suc)
    ultimately have "Suc i < ne" "prefix ''>'' (drop (Suc i) (drop (st + 13) content))" by simp_all
    then show False using Index_least [OF ne, of "Suc i"] by blast
  qed
  moreover have "lb_tag b = ToUpper name" by (simp add: b name_def)
  moreover have "drop (lb_start b) content =
      startTag @ bracket name @ lb_body b @ endTag @ drop (lb_end b) content"
    unfolding b(1,2) d0 d1 d2 d3 d4 d5 by (simp add: bracket_def)
  ultimately show "\<exists>name. CHR ''>'' \<notin> set name \<and> lb_tag b = ToUpper name \<and>
      drop (lb_start b) content = startTag @ bracket name @ lb_body b @ endTag @ drop (lb_end b) content"
    by blast
qed

lemma findFrom_tiles: "findFrom content pos = Inr bs \<Longrightarrow> tiles content pos bs"
proof (induction content pos arbitrary: bs rule: findFrom.induct)
  case (1 content pos)
  show ?case
  proof (cases "nextLoop content pos")
    case None
    then have "bs = []" using "1.prems" by (subst (asm) findFrom.simps) simp
    moreover have "\<not> prefix startTag (drop j content)" if "pos \<le> j" for j
    proof (cases "j \<le> length content")
      case True
      with None that show ?thesis
        using Index_None [of "drop pos content" startTag, THEN iffD1]
        by (auto simp: nextLoop_None_iff dest: spec [of _ "j - pos"])
    next
      case False
      then show ?thesis by (simp add: startTag_def)
    qed
    ultimately show ?thesis by simp
  next
    case (Some r)
    with "1.prems" obtain b bs' where r: "r = Inr b" "findFrom content (lb_end b) = Inr bs'"
      "bs = b # bs'"
      by (subst (asm) findFrom.simps) (auto split: sum.splits)
    with "1.IH" [OF Some r(1,2)] nextLoop_shape [OF Some [unfolded r(1)]] show ?thesis by auto
  qed
qed

section \<open>The meaning of a printed template\<close>

text \<open>
  What a placeholder becomes at one level of loops (\<open>var_pieces\<close>, which gives an unresolved one
  the index suffix) and outside every loop (\<open>top_pieces\<close>, which leaves it).
\<close>

definition var_pieces :: "nat \<Rightarrow> obj \<Rightarrow> string \<Rightarrow> piece \<Rightarrow> piece list" where
  "var_pieces index m path p =
     (case p of
        Lit c \<Rightarrow> [Lit c]
      | Var n \<Rightarrow>
          if loop_marker n then [Var n]
          else (case resolveTag m path n of
                  Some s \<Rightarrow> map Lit s
                | None \<Rightarrow> [Var (n @ ''_'' @ Itoa index)]))"

definition top_pieces :: "obj \<Rightarrow> piece \<Rightarrow> piece list" where
  "top_pieces m p =
     (case p of
        Lit c \<Rightarrow> [Lit c]
      | Var n \<Rightarrow>
          if loop_marker n then [Var n]
          else (case resolveTag m [] n of Some s \<Rightarrow> map Lit s | None \<Rightarrow> [Var n]))"

fun seq_res :: "('a list) res list \<Rightarrow> ('a list) res" where
  "seq_res [] = Inr []"
| "seq_res (r # rs) =
     (case r of
        Inl e \<Rightarrow> Inl e
      | Inr x \<Rightarrow> (case seq_res rs of Inl e \<Rightarrow> Inl e | Inr y \<Rightarrow> Inr (x @ y)))"

text \<open>
  The elements of a list with their positions, counted from one; an element that is null has a
  position and no content.
\<close>

definition numbered :: "json list \<Rightarrow> (nat \<times> obj) list" where
  "numbered items = map (\<lambda>(i, v). (i, the (resolveItem v))) (filter (\<lambda>(i, v). v \<noteq> JNull) (enumerate 1 items))"

text \<open>A loop means, one after the other, what its body means for each element of the list.\<close>

fun denote_node :: "node \<Rightarrow> obj \<Rightarrow> string \<Rightarrow> (piece list) res" where
  "denote_node (Piece p) m path = Inr [p]"
| "denote_node (Loop tag body) m path =
     (case resolveListPath m (ToUpper tag) of
        None \<Rightarrow> Inl (list_not_found (ToUpper tag))
      | Some items \<Rightarrow>
          seq_res (map (\<lambda>(index, im).
               map_sum (\<lambda>e. e) (\<lambda>ps. concat (map (var_pieces index im (subPathOf path (ToUpper tag))) ps))
                 (seq_res (map (\<lambda>n. denote_node n im (subPathOf path (ToUpper tag))) body)))
            (numbered items)))"

text \<open>The engine counts while it goes through the list.\<close>

lemma renderItems_numbered:
  "renderItems f i items = seq_res (map (\<lambda>(index, im). f index im)
     (map (\<lambda>(i, v). (i, the (resolveItem v))) (filter (\<lambda>(i, v). v \<noteq> JNull) (enumerate (i + 1) items))))"
proof (induction items arbitrary: i)
  case Nil
  then show ?case by simp
next
  case (Cons v items)
  have "resolveItem v = None \<longleftrightarrow> v = JNull" by (cases v) simp_all
  with Cons [of "i + 1"] show ?case by (cases "resolveItem v"; cases "f (i + 1) (the (resolveItem v))") auto
qed

lemma denote_Loop:
  "denote_node (Loop tag body) m path =
     (case resolveListPath m (ToUpper tag) of
        None \<Rightarrow> Inl (list_not_found (ToUpper tag))
      | Some items \<Rightarrow>
          renderItems
            (\<lambda>index im.
               map_sum (\<lambda>e. e) (\<lambda>ps. concat (map (var_pieces index im (subPathOf path (ToUpper tag))) ps))
                 (seq_res (map (\<lambda>n. denote_node n im (subPathOf path (ToUpper tag))) body)))
            0 items)"
  by (simp add: renderItems_numbered numbered_def split: option.split)

lemma denote_induct [case_names Piece Loop]:
  assumes "\<And>p m path. P (Piece p) m path"
    and "\<And>tag body m path. (\<And>n im path'. n \<in> set body \<Longrightarrow> P n im path') \<Longrightarrow> P (Loop tag body) m path"
  shows "P n m path"
proof (induction n arbitrary: m path)
  case (Piece p)
  show ?case by (rule assms(1))
next
  case (Loop tag body)
  then show ?case by (intro assms(2))
qed

definition denote_template :: "node list \<Rightarrow> obj \<Rightarrow> (piece list) res" where
  "denote_template ns m =
     seq_res (map (\<lambda>n. case n of Piece p \<Rightarrow> Inr (top_pieces m p)
                               | Loop tag body \<Rightarrow> denote_node (Loop tag body) m []) ns)"

text \<open>Custom resources none of whose scalars prints with an opening bracket.\<close>

fun clean_json :: "json \<Rightarrow> bool" where
  "clean_json (JArr vs) = list_all clean_json vs"
| "clean_json (JObj kvs) = list_all (\<lambda>kv. clean_json (snd kv)) kvs"
| "clean_json v = (CHR ''<'' \<notin> set (Sprintf_v v))"

abbreviation clean_obj :: "obj \<Rightarrow> bool" where
  "clean_obj m \<equiv> clean_json (JObj m)"

lemma clean_walk: "walk_path v ps = Some w \<Longrightarrow> clean_json v \<Longrightarrow> clean_json w"
proof (induction v ps rule: walk_path.induct)
  case (2 m p ps)
  then obtain u where u: "map_of m p = Some u" "walk_path u ps = Some w"
    by (auto split: option.splits)
  then have "clean_json u"
    using "2.prems" by (auto simp: list_all_iff dest!: map_of_SomeD)
  with u "2.IH" show ?case by blast
qed auto

lemma clean_list: "resolveListPath m tag = Some items \<Longrightarrow> clean_obj m \<Longrightarrow> list_all clean_json items"
proof -
  assume r: "resolveListPath m tag = Some items" and c: "clean_obj m"
  then have "map_of m tag = Some (JArr items) \<or> walk_path (JObj m) (Split tag (CHR ''_'')) = Some (JArr items)"
    by (auto simp: resolveListPath_def Let_def split: option.splits json.splits if_splits)
  then have "clean_json (JArr items)"
  proof
    assume "map_of m tag = Some (JArr items)"
    with c show ?thesis by (auto simp: list_all_iff dest!: map_of_SomeD)
  next
    assume "walk_path (JObj m) (Split tag (CHR ''_'')) = Some (JArr items)"
    then show ?thesis using c by (rule clean_walk)
  qed
  then show ?thesis by simp
qed

lemma clean_item: "resolveItem v = Some im \<Longrightarrow> clean_json v \<Longrightarrow> clean_obj im"
  by (cases v) auto

lemma clean_resolveTag: "resolveTag m path n = Some s \<Longrightarrow> clean_obj m \<Longrightarrow> CHR ''<'' \<notin> set s"
proof -
  have "findVariable m path t = Some s \<Longrightarrow> clean_obj m \<Longrightarrow> CHR ''<'' \<notin> set s" for t
  proof (induction m)
    case Nil
    then show ?case by simp
  next
    case (Cons kv kvs)
    have "CHR ''<'' \<notin> set (Sprintf_v (snd kv))" if "is_scalar (snd kv)"
      using that Cons.prems(2) by (cases "snd kv") auto
    with Cons show ?case by (auto split: if_splits)
  qed
  then show "resolveTag m path n = Some s \<Longrightarrow> clean_obj m \<Longrightarrow> CHR ''<'' \<notin> set s"
    by (simp add: resolveTag_def)
qed

lemma wf_Lits: "CHR ''<'' \<notin> set s \<Longrightarrow> list_all wf_piece (map Lit s)"
  by (auto simp: list_all_iff)

lemma wf_suffixed: "wf_name n \<Longrightarrow> wf_name (n @ CHR ''_'' # Itoa i)"
  by (auto simp: wf_name_def dest: Itoa_digits simp: is_digit_def)

lemma wf_var_pieces: "wf_piece p \<Longrightarrow> clean_obj m \<Longrightarrow> list_all wf_piece (var_pieces i m path p)"
  by (cases p) (auto simp: var_pieces_def intro: wf_suffixed wf_Lits dest: clean_resolveTag
      simp del: clean_json.simps split: option.splits)

lemma wf_top_pieces: "wf_piece p \<Longrightarrow> clean_obj m \<Longrightarrow> list_all wf_piece (top_pieces m p)"
  by (cases p) (auto simp: top_pieces_def intro: wf_Lits dest: clean_resolveTag
      simp del: clean_json.simps split: option.splits)

lemma processVariables_pieces:
  "list_all wf_piece ps \<Longrightarrow>
     processVariables (print_pieces ps) i m path = print_pieces (concat (map (var_pieces i m path) ps))"
proof -
  assume "list_all wf_piece ps"
  then have "processVariables (print_pieces ps) i m path = concat (map (subst_piece (\<lambda>varName.
        if loop_marker varName then bracket varName
        else (case resolveTag m path varName of
                Some s \<Rightarrow> s
              | None \<Rightarrow> bracket (varName @ ''_'' @ Itoa i)))) ps)"
    unfolding processVariables_def using ReplaceTags_pieces [of ps _ "[]"] by simp
  also have "\<dots> = print_pieces (concat (map (var_pieces i m path) ps))"
    by (induction ps) (auto simp: var_pieces_def split: piece.splits option.splits)
  finally show ?thesis .
qed

lemma processVariablesNoSuffix_pieces:
  "list_all wf_piece ps \<Longrightarrow>
     processVariablesNoSuffix (print_pieces ps) m [] = print_pieces (concat (map (top_pieces m) ps))"
proof -
  assume "list_all wf_piece ps"
  then have "processVariablesNoSuffix (print_pieces ps) m [] = concat (map (subst_piece (\<lambda>varName.
        if loop_marker varName then bracket varName
        else (case resolveTag m [] varName of Some s \<Rightarrow> s | None \<Rightarrow> bracket varName))) ps)"
    unfolding processVariablesNoSuffix_def using ReplaceTags_pieces [of ps _ "[]"] by simp
  also have "\<dots> = print_pieces (concat (map (top_pieces m) ps))"
    by (induction ps) (auto simp: top_pieces_def split: piece.splits option.splits)
  finally show ?thesis .
qed

section \<open>The engine computes the meaning\<close>

lemma wf_concat: "list_all wf_piece ps \<Longrightarrow> (\<And>p. wf_piece p \<Longrightarrow> list_all wf_piece (g p)) \<Longrightarrow>
    list_all wf_piece (concat (map g ps))"
  by (induction ps) auto

lemma seq_res_wf:
  "seq_res rs = Inr ps \<Longrightarrow> (\<And>r qs. r \<in> set rs \<Longrightarrow> r = Inr qs \<Longrightarrow> list_all wf_piece qs) \<Longrightarrow>
     list_all wf_piece ps"
  by (induction rs arbitrary: ps) (auto split: sum.splits)

lemma renderItems_wf:
  "renderItems f i items = Inr ps \<Longrightarrow> list_all clean_json items \<Longrightarrow>
     (\<And>j im qs. clean_obj im \<Longrightarrow> f j im = Inr qs \<Longrightarrow> list_all wf_piece qs) \<Longrightarrow> list_all wf_piece ps"
proof (induction items arbitrary: i ps)
  case Nil
  then show ?case by simp
next
  case (Cons v items)
  show ?case
  proof (cases "resolveItem v")
    case None
    with Cons show ?thesis by auto
  next
    case (Some im)
    with Cons.prems obtain qs rs where q: "f (i + 1) im = Inr qs"
      "renderItems f (i + 1) items = Inr rs" "ps = qs @ rs"
      by (auto split: sum.splits)
    have "clean_obj im" using clean_item [OF Some] Cons.prems(2) by simp
    then have "list_all wf_piece qs" using Cons.prems(3) q(1) by blast
    moreover have "list_all wf_piece rs"
      using Cons.IH [OF q(2)] Cons.prems(2,3) by simp
    ultimately show ?thesis by (simp add: q)
  qed
qed

lemma wf_node_Piece: "wf_node (Piece p) \<Longrightarrow> wf_piece p"
  by (cases p) (auto simp: plain_name_def)

lemma denote_node_wf:
  "wf_node n \<Longrightarrow> clean_obj m \<Longrightarrow> denote_node n m path = Inr ps \<Longrightarrow> list_all wf_piece ps"
proof (induction n m path arbitrary: ps rule: denote_induct)
  case (Piece p m path)
  then show ?case using wf_node_Piece by auto
next
  case (Loop tag body m path)
  let ?sub = "subPathOf path (ToUpper tag)"
  obtain items where items: "resolveListPath m (ToUpper tag) = Some items"
    using Loop.prems(3) by (auto simp del: denote_node.simps(2) simp: denote_Loop split: option.splits)
  have eq: "renderItems (\<lambda>index im. map_sum (\<lambda>e. e) (\<lambda>ps. concat (map (var_pieces index im ?sub) ps))
        (seq_res (map (\<lambda>n. denote_node n im ?sub) body))) 0 items = Inr ps"
    using Loop.prems(3) items by (simp add: denote_Loop del: denote_node.simps(2))
  have ci: "list_all clean_json items" using items Loop.prems(2) by (rule clean_list)
  show ?case
    using eq ci
  proof (rule renderItems_wf)
    fix j im qs
    assume im: "clean_obj im"
      and q: "map_sum (\<lambda>e. e) (\<lambda>ps. concat (map (var_pieces j im ?sub) ps))
        (seq_res (map (\<lambda>n. denote_node n im ?sub) body)) = Inr qs"
    then obtain rs where rs: "seq_res (map (\<lambda>n. denote_node n im ?sub) body) = Inr rs"
      "qs = concat (map (var_pieces j im ?sub) rs)"
      by (cases "seq_res (map (\<lambda>n. denote_node n im ?sub) body)") auto
    have "list_all wf_piece rs"
      using rs(1)
    proof (rule seq_res_wf)
      fix r qs assume "r \<in> set (map (\<lambda>n. denote_node n im ?sub) body)" "r = Inr qs"
      then obtain n where n: "n \<in> set body" "denote_node n im ?sub = Inr qs" by auto
      then have "wf_node n" using Loop.prems(1) by (auto simp: list_all_iff)
      then show "list_all wf_piece qs" using Loop.IH items n im by blast
    qed
    then show "list_all wf_piece qs"
      unfolding rs(2) by (rule wf_concat) (rule wf_var_pieces [OF _ im])
  qed
qed

text \<open>
  The walk over the blocks of a printed template, with \<open>qs\<close> the pieces read since the last block.
\<close>

lemma renderBlocks_nodes:
  assumes out: "\<And>ps. list_all wf_piece ps \<Longrightarrow> out (print_pieces ps) = print_pieces (concat (map sub ps))"
    and gP: "\<And>p. g (Piece p) = Inr (sub p)"
  shows "list_all wf_node ns \<Longrightarrow> list_all wf_piece qs \<Longrightarrow>
     (\<And>tag body s e. Loop tag body \<in> set ns \<Longrightarrow>
        rl \<lparr>lb_tag = ToUpper tag, lb_body = print_nodes body, lb_start = s, lb_end = e\<rparr> =
        map_sum (\<lambda>e. e) print_pieces (g (Loop tag body))) \<Longrightarrow>
     renderBlocks rl out (pre @ print_pieces qs @ print_nodes ns) (length pre)
       (node_blocks ns (length pre + length (print_pieces qs))) =
     map_sum (\<lambda>e. e) (\<lambda>r. print_pieces (concat (map sub qs)) @ print_pieces r) (seq_res (map g ns))"
proof (induction ns arbitrary: pre qs)
  case Nil
  then show ?case by (simp add: out)
next
  case (Cons n ns)
  show ?case
  proof (cases n)
    case (Piece p)
    have "wf_piece p" using Cons.prems(1) Piece wf_node_Piece by simp
    then have "list_all wf_piece (qs @ [p])" using Cons.prems(2) by simp
    moreover have "list_all wf_node ns" using Cons.prems(1) by simp
    ultimately have "renderBlocks rl out (pre @ print_pieces (qs @ [p]) @ print_nodes ns) (length pre)
       (node_blocks ns (length pre + length (print_pieces (qs @ [p])))) =
      map_sum (\<lambda>e. e) (\<lambda>r. print_pieces (concat (map sub (qs @ [p]))) @ print_pieces r) (seq_res (map g ns))"
      using Cons.prems(3) by (intro Cons.IH) simp_all
    then show ?thesis
      by (simp add: Piece gP add.assoc) (cases "seq_res (map g ns)"; simp)
  next
    case (Loop tag body)
    let ?b = "print_node (Loop tag body)"
    let ?pre = "pre @ print_pieces qs @ ?b"
    have rl: "rl \<lparr>lb_tag = ToUpper tag, lb_body = print_nodes body, lb_start = s, lb_end = e\<rparr> =
        map_sum (\<lambda>e. e) print_pieces (g (Loop tag body))" for s e
      using Cons.prems(3) Loop by simp
    have IH: "renderBlocks rl out (?pre @ print_pieces [] @ print_nodes ns) (length ?pre)
        (node_blocks ns (length ?pre + length (print_pieces []))) =
      map_sum (\<lambda>e. e) (\<lambda>r. print_pieces (concat (map sub [])) @ print_pieces r) (seq_res (map g ns))"
      using Cons.prems by (intro Cons.IH) simp_all
    have sl: "slice (pre @ print_pieces qs @ ?b @ print_nodes ns) (length pre)
        (length pre + length (print_pieces qs)) = print_pieces qs"
      by (simp add: slice_def)
    show ?thesis
      using IH sl out [OF Cons.prems(2)]
      by (simp add: Loop Let_def rl add.assoc del: print_node.simps)
        (cases "g (Loop tag body)"; cases "seq_res (map g ns)"; simp)
  qed
qed

lemma renderItems_map:
  "list_all clean_json items \<Longrightarrow>
     (\<And>j im. clean_obj im \<Longrightarrow> f j im = map_sum (\<lambda>e. e) print_pieces (g j im)) \<Longrightarrow>
     renderItems f i items = map_sum (\<lambda>e. e) print_pieces (renderItems g i items)"
proof (induction items arbitrary: i)
  case Nil
  then show ?case by simp
next
  case (Cons v items)
  show ?case
  proof (cases "resolveItem v")
    case None
    with Cons show ?thesis by simp
  next
    case (Some im)
    have "clean_obj im" using clean_item [OF Some] Cons.prems(1) by simp
    with Cons.prems(2) have "f (i + 1) im = map_sum (\<lambda>e. e) print_pieces (g (i + 1) im)" by blast
    moreover have "renderItems f (i + 1) items = map_sum (\<lambda>e. e) print_pieces (renderItems g (i + 1) items)"
      using Cons by simp
    ultimately show ?thesis
      using Some by (cases "g (i + 1) im"; cases "renderItems g (i + 1) items") simp_all
  qed
qed

lemma renderLoop_denote:
  "wf_node (Loop tag body) \<Longrightarrow> clean_obj m \<Longrightarrow>
     renderLoop \<lparr>lb_tag = ToUpper tag, lb_body = print_nodes body, lb_start = s, lb_end = e\<rparr> m path =
     map_sum (\<lambda>e. e) print_pieces (denote_node (Loop tag body) m path)"
proof (induction "Loop tag body" m path arbitrary: tag body s e rule: denote_induct)
  case (Loop tag body m path)
  let ?sub = "subPathOf path (ToUpper tag)"
  have wfb: "list_all wf_node body" using Loop.prems by simp
  show ?case
  proof (cases "resolveListPath m (ToUpper tag)")
    case None
    then show ?thesis by (simp add: renderLoop_unfold denote_Loop del: denote_node.simps(2))
  next
    case (Some items)
    have ci: "list_all clean_json items" using Some Loop.prems(2) by (rule clean_list)
    have walk: "renderBlocks (\<lambda>nb. renderLoop nb im ?sub) (\<lambda>s. s) (print_nodes body) 0 (node_blocks body 0) =
        map_sum (\<lambda>e. e) print_pieces (seq_res (map (\<lambda>n. denote_node n im ?sub) body))"
      if im: "clean_obj im" for im
    proof -
      have "renderBlocks (\<lambda>nb. renderLoop nb im ?sub) (\<lambda>s. s) ([] @ print_pieces [] @ print_nodes body)
          (length ([] :: string)) (node_blocks body (length ([] :: string) + length (print_pieces []))) =
        map_sum (\<lambda>e. e) (\<lambda>r. print_pieces (concat (map (\<lambda>p. [p]) [])) @ print_pieces r)
          (seq_res (map (\<lambda>n. denote_node n im ?sub) body))"
      proof (rule renderBlocks_nodes [where sub = "\<lambda>p. [p]"])
        fix tag' body' s e
        assume l: "Loop tag' body' \<in> set body"
        then have "wf_node (Loop tag' body')" using wfb by (auto simp: list_all_iff)
        then show "renderLoop \<lparr>lb_tag = ToUpper tag', lb_body = print_nodes body', lb_start = s, lb_end = e\<rparr> im ?sub =
            map_sum (\<lambda>e. e) print_pieces (denote_node (Loop tag' body') im ?sub)"
          using Loop.hyps Some l im by blast
      qed (use wfb in simp_all)
      then show ?thesis by simp
    qed
    have body: "renderBlockBody (print_nodes body) (node_blocks body 0) im ?sub j =
        map_sum (\<lambda>e. e) print_pieces
          (map_sum (\<lambda>e. e) (\<lambda>ps. concat (map (var_pieces j im ?sub) ps))
            (seq_res (map (\<lambda>n. denote_node n im ?sub) body)))"
      if im: "clean_obj im" for im j
    proof (cases "seq_res (map (\<lambda>n. denote_node n im ?sub) body)")
      case (Inl e)
      then show ?thesis by (simp add: renderBlockBody_def walk [OF im])
    next
      case (Inr ps)
      have "list_all wf_piece ps"
        using Inr
      proof (rule seq_res_wf)
        fix r qs assume "r \<in> set (map (\<lambda>n. denote_node n im ?sub) body)" "r = Inr qs"
        then obtain n where "n \<in> set body" "denote_node n im ?sub = Inr qs" by auto
        then show "list_all wf_piece qs"
          using wfb im denote_node_wf by (auto simp: list_all_iff simp del: clean_json.simps)
      qed
      with Inr show ?thesis
        by (simp add: renderBlockBody_def walk [OF im] processVariables_pieces)
    qed
    have "renderItems (\<lambda>index itemMap. renderBlockBody (print_nodes body) (node_blocks body 0) itemMap ?sub index) 0 items =
        map_sum (\<lambda>e. e) print_pieces (renderItems (\<lambda>index im.
          map_sum (\<lambda>e. e) (\<lambda>ps. concat (map (var_pieces index im ?sub) ps))
            (seq_res (map (\<lambda>n. denote_node n im ?sub) body))) 0 items)"
      using ci body by (rule renderItems_map)
    then show ?thesis
      by (simp add: renderLoop_unfold Some findTopLevelLoops_print [OF wfb] denote_Loop del: denote_node.simps(2))
  qed
qed

lemma renderInPlace_denote:
  assumes wf: "list_all wf_node ns" and m: "clean_obj m"
  shows "renderInPlace (print_nodes ns) (node_blocks ns 0) m =
    map_sum (\<lambda>e. e) print_pieces (denote_template ns m)"
proof -
  let ?g = "\<lambda>n. case n of Piece p \<Rightarrow> Inr (top_pieces m p)
                        | Loop tag body \<Rightarrow> denote_node (Loop tag body) m []"
  have "renderBlocks (\<lambda>blk. renderLoop blk m []) (\<lambda>s. processVariablesNoSuffix s m [])
      ([] @ print_pieces [] @ print_nodes ns) (length ([] :: string))
      (node_blocks ns (length ([] :: string) + length (print_pieces []))) =
    map_sum (\<lambda>e. e) (\<lambda>r. print_pieces (concat (map (top_pieces m) [])) @ print_pieces r)
      (seq_res (map ?g ns))"
  proof (rule renderBlocks_nodes [where g = ?g and sub = "top_pieces m"])
    fix ps assume "list_all wf_piece ps"
    then show "processVariablesNoSuffix (print_pieces ps) m [] = print_pieces (concat (map (top_pieces m) ps))"
      by (rule processVariablesNoSuffix_pieces)
  next
    fix tag body s e
    assume "Loop tag body \<in> set ns"
    then have "wf_node (Loop tag body)" using wf by (auto simp: list_all_iff)
    from renderLoop_denote [OF this m]
    show "renderLoop \<lparr>lb_tag = ToUpper tag, lb_body = print_nodes body, lb_start = s, lb_end = e\<rparr> m [] =
        map_sum (\<lambda>e. e) print_pieces (?g (Loop tag body))" by simp
  qed (use wf in simp_all)
  then show ?thesis by (simp add: renderInPlace_def denote_template_def)
qed

end
