(* ===== verification/Store.thy ===== *)
theory Store
  imports Naming "HOL-Library.List_Lexorder" "HOL-Library.Char_ord"
begin

text \<open>
  \<open>internal/controller/file_utils.go\<close> and the functions of the Go packages \<open>os\<close> and
  \<open>path/filepath\<close> it rests on.  The file system is a map from paths to files and the set of the
  existing directories; \<open>refused\<close> says for which paths the operating system refuses an open,
  create, rename or remove (permissions, full disk).  Paths are compared as strings: the program
  builds them by joining clean components, so one file has one path here.  New files get the
  requested permissions (no umask).  \<open>glob_meta\<close> answers \<open>filepath.Glob\<close> for patterns with
  wildcards, from the existing paths (\<open>None\<close> is \<open>ErrBadPattern\<close>).
\<close>

record os_file =
  f_content :: string
  f_perm :: nat

record fs =
  files :: "(string, os_file) gomap"
  dirs :: "string list"
  refused :: "string \<Rightarrow> bool"
  glob_meta :: "string \<Rightarrow> string list \<Rightarrow> (string list) option"

section \<open>Paths\<close>

fun clean_parts :: "bool \<Rightarrow> string list \<Rightarrow> string list \<Rightarrow> string list" where
  "clean_parts rooted acc [] = rev acc"
| "clean_parts rooted acc (p # ps) =
     (if p = [] \<or> p = ''.'' then clean_parts rooted acc ps
      else if p = ''..'' then
        (if acc \<noteq> [] \<and> hd acc \<noteq> ''..'' then clean_parts rooted (tl acc) ps
         else if rooted then clean_parts rooted acc ps
         else clean_parts rooted (''..'' # acc) ps)
      else clean_parts rooted (p # acc) ps)"

definition filepath_Clean :: "string \<Rightarrow> string" where
  "filepath_Clean p =
     (let rooted = HasPrefix p ''/'';
          body = Join (clean_parts rooted [] (Split p (CHR ''/''))) ''/''
      in if rooted then CHR ''/'' # body else if body = [] then ''.'' else body)"

definition filepath_Join :: "string list \<Rightarrow> string" where
  "filepath_Join elem =
     (case dropWhile (\<lambda>e. e = []) elem of [] \<Rightarrow> [] | es \<Rightarrow> filepath_Clean (Join es ''/''))"

definition filepath_Dir :: "string \<Rightarrow> string" where
  "filepath_Dir p = filepath_Clean (rev (dropWhile (\<lambda>c. c \<noteq> CHR ''/'') (rev p)))"

definition is_dir :: "fs \<Rightarrow> string \<Rightarrow> bool" where
  "is_dir s p = (p = ''/'' \<or> p = ''.'' \<or> p \<in> set (dirs s))"

definition file_at :: "fs \<Rightarrow> string \<Rightarrow> os_file option" where
  "file_at s p = map_of (files s) p"

definition content_at :: "fs \<Rightarrow> string \<Rightarrow> string option" where
  "content_at s p = map_option f_content (file_at s p)"

section \<open>The operations of the operating system\<close>

definition ReadFile :: "string \<Rightarrow> (fs, string) op" where
  "ReadFile p s =
     (if refused s p then (Inl (PathError False p), s)
      else case file_at s p of
             Some f \<Rightarrow> (Inr (f_content f), s)
           | None \<Rightarrow> (Inl (PathError (\<not> is_dir s p) p), s))"

definition OpenFile :: "string \<Rightarrow> (fs, unit) op" where
  "OpenFile p s =
     (if refused s p then (Inl (PathError False p), s)
      else if file_at s p = None \<and> \<not> is_dir s p then (Inl (PathError True p), s)
      else (Inr (), s))"

text \<open>An existing file is truncated and keeps its permissions.\<close>

definition WriteFile :: "string \<Rightarrow> string \<Rightarrow> nat \<Rightarrow> (fs, unit) op" where
  "WriteFile p c perm s =
     (if refused s p \<or> is_dir s p then (Inl (PathError False p), s)
      else case file_at s p of
             Some f \<Rightarrow> (Inr (), s\<lparr>files := map_put (files s) p (f\<lparr>f_content := c\<rparr>)\<rparr>)
           | None \<Rightarrow>
             if is_dir s (filepath_Dir p)
             then (Inr (), s\<lparr>files := map_put (files s) p \<lparr>f_content = c, f_perm = perm\<rparr>\<rparr>)
             else (Inl (PathError True p), s))"

definition Stat_perm :: "string \<Rightarrow> (fs, nat) op" where
  "Stat_perm p s =
     (case file_at s p of
        Some f \<Rightarrow> (Inr (f_perm f), s)
      | None \<Rightarrow> if is_dir s p then (Inr 493, s) else (Inl (PathError True p), s))"

definition Remove :: "string \<Rightarrow> (fs, unit) op" where
  "Remove p s =
     (if refused s p then (Inl (PathError False p), s)
      else case file_at s p of
             Some f \<Rightarrow> (Inr (), s\<lparr>files := AList.delete p (files s)\<rparr>)
           | None \<Rightarrow> (Inl (PathError (\<not> is_dir s p) p), s))"

definition Rename :: "string \<Rightarrow> string \<Rightarrow> (fs, unit) op" where
  "Rename p q s =
     (if refused s p \<or> refused s q \<or> is_dir s q then (Inl (PathError False p), s)
      else case file_at s p of
             Some f \<Rightarrow> (Inr (), s\<lparr>files := map_put (AList.delete p (files s)) q f\<rparr>)
           | None \<Rightarrow> (Inl (PathError True p), s))"

definition ancestors :: "string \<Rightarrow> string list" where
  "ancestors p = (let ps = Split (filepath_Clean p) (CHR ''/'')
     in filter (\<lambda>q. q \<noteq> []) (map (\<lambda>i. Join (take i ps) ''/'') [1..<length ps + 1]))"

definition Mkdir1 :: "string \<Rightarrow> (fs, unit) op" where
  "Mkdir1 p s =
     (if is_dir s p then (Inr (), s)
      else if file_at s p \<noteq> None \<or> refused s p then (Inl (PathError False p), s)
      else (Inr (), s\<lparr>dirs := p # dirs s\<rparr>))"

primrec mkdirs :: "string list \<Rightarrow> (fs, unit) op" where
  "mkdirs [] = ret ()"
| "mkdirs (p # ps) = andThen (Mkdir1 p) (\<lambda>_. mkdirs ps)"

definition MkdirAll :: "string \<Rightarrow> (fs, unit) op" where
  "MkdirAll p = mkdirs (ancestors p)"

definition has_meta :: "string \<Rightarrow> bool" where
  "has_meta p = list_ex (\<lambda>c. c = CHR ''*'' \<or> c = CHR ''?'' \<or> c = CHR ''['' \<or> c = CHR 0x5C) p"

definition Glob :: "string \<Rightarrow> (fs, string list) op" where
  "Glob pat s =
     (if has_meta pat then
        (case glob_meta s pat (map fst (files s) @ dirs s) of
           None \<Rightarrow> (Inl (Sentinel ''syntax error in pattern''), s)
         | Some ps \<Rightarrow> (Inr ps, s))
      else (Inr (if file_at s pat \<noteq> None \<or> is_dir s pat then [pat] else []), s))"

text \<open>
  \<open>filepath.WalkDir\<close>, restricted to what \<open>listAllFilesInDir\<close> and the rule loader take from it:
  the regular files below a root, in lexical order of their path components.
\<close>

definition below :: "string \<Rightarrow> string \<Rightarrow> bool" where
  "below root p = (p = root \<or> HasPrefix p (if HasSuffix root ''/'' then root else root @ ''/''))"

definition walk_files :: "string \<Rightarrow> (fs, string list) op" where
  "walk_files root s =
     (if refused s root then (Inl (PathError False root), s)
      else if \<not> is_dir s root \<and> file_at s root = None then (Inl (PathError True root), s)
      else case filter (\<lambda>d. below root d \<and> refused s d) (dirs s) of
             d # _ \<Rightarrow> (Inl (PathError False d), s)
           | [] \<Rightarrow> (Inr (sort_key (\<lambda>p. Split p (CHR ''/''))
                      (filter (below root) (map fst (files s)))), s))"

section \<open>file_utils.go\<close>

record modification =
  oldValue :: string
  newValue :: string

definition creaDirectory :: "string \<Rightarrow> (fs, unit) op" where
  "creaDirectory path =
     wrapErr (Wrapf (''impossibile creare la directory '' @ path)) (MkdirAll path)"

text \<open>
  The destination is truncated before the bytes are read: copying a file onto itself empties it,
  and a directory as the source leaves an empty file behind.
\<close>

definition copyFile :: "string \<Rightarrow> string \<Rightarrow> (fs, unit) op" where
  "copyFile src dst =
     andThen (wrapErr (Wrapf (''impossibile aprire il file sorgente '' @ src)) (OpenFile src)) (\<lambda>_.
     andThen (wrapErr (Wrapf (''impossibile creare la cartella di destinazione '' @ filepath_Dir dst))
                (MkdirAll (filepath_Dir dst))) (\<lambda>_.
     andThen (wrapErr (Wrapf (''impossibile creare il file di destinazione '' @ dst))
                (WriteFile dst [] 438)) (\<lambda>_.
     wrapErr (Wrapf ''errore durante la copia dei dati'')
       (andThen (ReadFile src) (\<lambda>c. WriteFile dst c 438)))))"

primrec copy_each :: "string \<Rightarrow> string \<Rightarrow> string list \<Rightarrow> (fs, unit) op" where
  "copy_each destinationDir filePrefix [] = ret ()"
| "copy_each destinationDir filePrefix (fileSorgente # rest) =
     andThen (copyFile fileSorgente
                (filepath_Join [destinationDir, filePrefix @ ''_'' @ filepath_Base fileSorgente]))
       (\<lambda>_. copy_each destinationDir filePrefix rest)"

definition copyFiles :: "string \<Rightarrow> string \<Rightarrow> string \<Rightarrow> (fs, unit) op" where
  "copyFiles pattern destinationDir filePrefix =
     andThen (Glob pattern) (\<lambda>fnames.
     if fnames = [] then ret ()
     else andThen (MkdirAll destinationDir) (\<lambda>_. copy_each destinationDir filePrefix fnames))"

definition listAllFilesInDir :: "string \<Rightarrow> (fs, string list) op" where
  "listAllFilesInDir dirName = walk_files (filepath_Clean dirName)"

definition readFileContent :: "string \<Rightarrow> (fs, string) op" where
  "readFileContent filename = ReadFile filename"

definition replace_mods :: "string \<Rightarrow> modification list \<Rightarrow> string" where
  "replace_mods content mods =
     foldl (\<lambda>c m. ReplaceAll c (oldValue m) (newValue m)) content mods"

definition modifyFileValue :: "string \<Rightarrow> modification list \<Rightarrow> (fs, unit) op" where
  "modifyFileValue filePath mods =
     andThen (wrapErr (Wrapf ''impossibile leggere il file'') (ReadFile filePath)) (\<lambda>content.
     let modifiedContent = replace_mods content mods in
     andThen (wrapErr (Wrapf ''impossibile leggere i metadati del file'') (Stat_perm filePath)) (\<lambda>perm.
     wrapErr (Wrapf ''impossibile scrivere le modifiche nel file'')
       (WriteFile filePath modifiedContent perm)))"

definition applyMods :: "string \<Rightarrow> modification list \<Rightarrow> (fs, unit) op" where
  "applyMods path mods =
     wrapErr (Wrapf (''modifica di '' @ path @ '' fallita'')) (modifyFileValue path mods)"

section \<open>The contract of a file store\<close>

locale file_store =
  fixes content :: "'s \<Rightarrow> string \<Rightarrow> string option"
    and save :: "string \<Rightarrow> string \<Rightarrow> ('s, unit) op"
    and unlink :: "string \<Rightarrow> ('s, unit) op"
  assumes write_ok: "save p c s = (Inr u, s') \<Longrightarrow> content s' q = (if q = p then Some c else content s q)"
    and write_err: "save p c s = (Inl e, s') \<Longrightarrow> s' = s"
    and remove_ok: "unlink p s = (Inr u, s') \<Longrightarrow> content s' q = (if q = p then None else content s q)"
    and remove_err: "unlink p s = (Inl e, s') \<Longrightarrow> s' = s"
begin

primrec write_each :: "(string \<times> string) list \<Rightarrow> ('s, unit) op" where
  "write_each [] = ret ()"
| "write_each (pc # pcs) = andThen (save (fst pc) (snd pc)) (\<lambda>_. write_each pcs)"

lemma write_each_content:
  "write_each pcs s = (r, s') \<Longrightarrow>
     content s' q = content s q \<or> (\<exists>c. (q, c) \<in> set pcs \<and> content s' q = Some c)"
proof (induction pcs arbitrary: s)
  case Nil
  then show ?case by simp
next
  case (Cons pc pcs)
  obtain r1 s1 where w: "save (fst pc) (snd pc) s = (r1, s1)" by (cases "save (fst pc) (snd pc) s")
  show ?case
  proof (cases r1)
    case (Inl e)
    with w Cons.prems write_err [of "fst pc" "snd pc" s e s1] show ?thesis
      by (simp add: andThen_Inl)
  next
    case (Inr u)
    with w Cons.prems have "write_each pcs s1 = (r, s')" by (simp add: andThen_Inr)
    from Cons.IH [OF this] write_ok [OF w [unfolded Inr], of q] show ?thesis
      by (cases pc) (metis fst_conv list.set_intros snd_conv)
  qed
qed

lemma write_each_ok:
  "write_each pcs s = (Inr u, s') \<Longrightarrow>
     content s' q = (case map_of (rev pcs) q of None \<Rightarrow> content s q | Some c \<Rightarrow> Some c)"
proof (induction pcs arbitrary: s)
  case Nil
  then show ?case by simp
next
  case (Cons pc pcs)
  from Cons.prems obtain s1 v where w: "save (fst pc) (snd pc) s = (Inr v, s1)"
    and ws: "write_each pcs s1 = (Inr u, s')" by (auto simp: andThen_ok)
  show ?case
    using Cons.IH [OF ws] write_ok [OF w, of q]
    by (cases pc) (auto simp: map_add_def split: option.splits)
qed

lemma write_each_frame: "write_each pcs s = (r, s') \<Longrightarrow> q \<notin> fst ` set pcs \<Longrightarrow> content s' q = content s q"
  using write_each_content [of pcs s r s' q] by force

lemma write_remove:
  "andThen (save p c) (\<lambda>_. unlink q) s = (Inr u, s') \<Longrightarrow> p \<noteq> q \<Longrightarrow>
     content s' x = (if x = p then Some c else if x = q then None else content s x)"
  by (auto simp: andThen_ok dest!: write_ok [where q = x] remove_ok [where q = x])

end

lemma file_at_simps [simp]:
  "file_at (s\<lparr>files := map_put (files s) p f\<rparr>) q = (if q = p then Some f else file_at s q)"
  "file_at (s\<lparr>files := AList.delete p (files s)\<rparr>) q = (if q = p then None else file_at s q)"
  "file_at (s\<lparr>dirs := ds\<rparr>) q = file_at s q"
  by (simp_all add: file_at_def update_conv' delete_conv')

lemma WriteFile_ok:
  "WriteFile p c perm s = (Inr u, s') \<Longrightarrow>
     content_at s' q = (if q = p then Some c else content_at s q)"
  by (auto simp: WriteFile_def content_at_def split: if_splits option.splits)

lemma WriteFile_err: "WriteFile p c perm s = (Inl e, s') \<Longrightarrow> s' = s"
  by (auto simp: WriteFile_def split: if_splits option.splits)

interpretation os_store: file_store content_at "\<lambda>p c. WriteFile p c perm" Remove for perm
proof unfold_locales
  fix p c s s' q e and u :: unit
  show "WriteFile p c perm s = (Inr u, s') \<Longrightarrow> content_at s' q = (if q = p then Some c else content_at s q)"
    by (rule WriteFile_ok)
  show "WriteFile p c perm s = (Inl e, s') \<Longrightarrow> s' = s" by (rule WriteFile_err)
  show "Remove p s = (Inr u, s') \<Longrightarrow> content_at s' q = (if q = p then None else content_at s q)"
    by (auto simp: Remove_def content_at_def split: if_splits option.splits)
  show "Remove p s = (Inl e, s') \<Longrightarrow> s' = s"
    by (auto simp: Remove_def split: if_splits option.splits)
qed

section \<open>What the operations keep\<close>

lemma file_state_ops:
  "ReadFile p s = (r, s') \<Longrightarrow> s' = s" "OpenFile p s = (r2, s') \<Longrightarrow> s' = s"
  "Stat_perm p s = (r3, s') \<Longrightarrow> s' = s" "Glob pat s = (r4, s') \<Longrightarrow> s' = s"
  "walk_files root s = (r4, s') \<Longrightarrow> s' = s"
  by (auto simp: ReadFile_def OpenFile_def Stat_perm_def Glob_def walk_files_def
      split: if_splits option.splits list.splits)

lemma ReadFile_ok: "ReadFile p s = (Inr c, s') \<longleftrightarrow> s' = s \<and> \<not> refused s p \<and> content_at s p = Some c"
  by (auto simp: ReadFile_def content_at_def split: if_splits option.splits)

lemma mkdirs_files: "mkdirs ps s = (r, s') \<Longrightarrow> files s' = files s \<and> refused s' = refused s"
proof (induction ps arbitrary: s)
  case Nil
  then show ?case by simp
next
  case (Cons p ps)
  obtain r1 s1 where m: "Mkdir1 p s = (r1, s1)" by (cases "Mkdir1 p s")
  then have k: "files s1 = files s" "refused s1 = refused s"
    by (auto simp: Mkdir1_def split: if_splits)
  show ?case
  proof (cases r1)
    case (Inl e)
    with m Cons.prems k show ?thesis by (simp add: andThen_Inl)
  next
    case (Inr u)
    with m Cons.prems have "mkdirs ps s1 = (r, s')" by (simp add: andThen_Inr)
    from Cons.IH [OF this] k show ?thesis by simp
  qed
qed

lemma MkdirAll_files:
  "MkdirAll p s = (r, s') \<Longrightarrow> content_at s' q = content_at s q \<and> file_at s' q = file_at s q"
  using mkdirs_files [of "ancestors p" s r s'] by (simp add: MkdirAll_def content_at_def file_at_def)

text \<open>
  \<open>modifyFileValue\<close> changes one file: its text becomes the text with all replacements made, in
  order, and its permissions stay.
\<close>

lemma modifyFileValue_ok:
  assumes "modifyFileValue p mods s = (Inr u, s')"
  shows "\<exists>f. file_at s p = Some f \<and>
    file_at s' q = (if q = p then Some (f\<lparr>f_content := replace_mods (f_content f) mods\<rparr>) else file_at s q)"
  using assms
  by (auto simp: modifyFileValue_def andThen_ok wrapErr_ok ReadFile_def Stat_perm_def WriteFile_def Let_def
      split: if_splits option.splits)

lemma modifyFileValue_err: "modifyFileValue p mods s = (Inl e, s') \<Longrightarrow> s' = s"
  by (auto simp: modifyFileValue_def andThen_err wrapErr_err wrapErr_ok ReadFile_def Stat_perm_def Let_def
      WriteFile_def split: if_splits option.splits)

lemma modifyFileValue_fails:
  "content_at s p = None \<Longrightarrow> \<exists>e. modifyFileValue p mods s = (Inl e, s)"
  by (auto simp: modifyFileValue_def andThen_def wrapErr_def ReadFile_def content_at_def
      split: if_splits option.splits)

lemma modifyFileValue_content:
  "modifyFileValue p mods s = (Inr u, s') \<Longrightarrow>
     \<exists>c. content_at s p = Some c \<and>
       content_at s' q = (if q = p then Some (replace_mods c mods) else content_at s q)"
  using modifyFileValue_ok [of p mods s u s' q] by (auto simp: content_at_def)

lemma applyMods_ok: "applyMods p mods s = (Inr u, s') \<longleftrightarrow> modifyFileValue p mods s = (Inr u, s')"
  by (simp add: applyMods_def wrapErr_ok)

lemma applyMods_err: "applyMods p mods s = (Inl e, s') \<Longrightarrow> s' = s"
  by (auto simp: applyMods_def wrapErr_err dest: modifyFileValue_err)

text \<open>Copying: the destination gets the text of the source, every other file stays.\<close>

lemma copyFile_content:
  assumes "copyFile src dst s = (Inr u, s')" and "src \<noteq> dst"
  shows "\<exists>c. content_at s src = Some c \<and>
    content_at s' q = (if q = dst then Some c else content_at s q)"
proof -
  from assms(1) obtain s1 s2 c where
    m: "MkdirAll (filepath_Dir dst) s = (Inr (), s1)"
    and w1: "WriteFile dst [] 438 s1 = (Inr (), s2)"
    and r: "content_at s2 src = Some c"
    and w2: "WriteFile dst c 438 s2 = (Inr (), s')"
    by (auto simp: copyFile_def andThen_ok wrapErr_ok ReadFile_ok dest!: file_state_ops)
  have k: "content_at s1 x = content_at s x" for x using MkdirAll_files [OF m] by simp
  have k2: "content_at s2 x = (if x = dst then Some [] else content_at s x)" for x
    using WriteFile_ok [OF w1] k by simp
  show ?thesis using r k2 [of src] WriteFile_ok [OF w2, of q] k2 [of q] assms(2)
    by (auto split: if_splits)
qed

lemma copyFile_empties: "copyFile p p s = (Inr u, s') \<Longrightarrow> content_at s' p = Some []"
  by (auto simp: copyFile_def andThen_ok wrapErr_ok ReadFile_ok dest!: file_state_ops WriteFile_ok [where q = p])

lemma copyFile_frame: "copyFile src dst s = (r, s') \<Longrightarrow> q \<noteq> dst \<Longrightarrow> content_at s' q = content_at s q"
  by (cases r)
    (auto simp: copyFile_def andThen_ok andThen_err wrapErr_ok wrapErr_err
      dest!: file_state_ops MkdirAll_files [where q = q] WriteFile_ok [where q = q] WriteFile_err)

end
