(* ===== verification/Api.thy ===== *)
theory Api
  imports Json
begin

text \<open>
  The custom resources of \<open>api/v1\<close>: the fields the controllers read or write, under the Go names
  with a prefix per resource.  Free JSON (\<open>runtime.RawExtension\<close>) is a \<^typ>\<open>json\<close> value; a
  \<open>RawExtension\<close> without bytes is null.  The timestamp of a deletion is reduced to whether it is set.
\<close>

record ObjectMeta =
  om_Name :: string
  om_Namespace :: string
  om_UID :: string
  om_Deleted :: bool
  om_Finalizers :: "string list"

record Condition =
  c_Type :: string
  c_Status :: string
  c_Reason :: string
  c_Message :: string

section \<open>fortigateconfig_types.go\<close>

record FortigateConfigSpec =
  fcs_FortigateName :: string
  fcs_TerraformTemplateS3Key :: string
  fcs_OperatorRule :: string
  fcs_ExtraParams :: "json option"
  fcs_ExtraItems :: "json list"

record FortigateConfigStatus =
  fcst_Conditions :: "Condition list"
  fcst_FortigateRuleUUID :: string

record FortigateConfig =
  fc_Meta :: ObjectMeta
  fc_Spec :: FortigateConfigSpec
  fc_Status :: FortigateConfigStatus

section \<open>fortigatefirewall_types.go\<close>

record FortigateInterface =
  fi_Name :: string
  fi_Index :: int
  fi_NetworkName :: string

record FortigateFirewallSpec =
  ffs_SSHPrivateKey :: "string option"
  ffs_FortigateName :: string
  ffs_FortigateVersion :: string
  ffs_PVCStorageClass :: string
  ffs_AWSCredentialSecretName :: string
  ffs_S3BucketName :: string
  ffs_LicenseType :: string
  ffs_LicenseUserSecretName :: string
  ffs_Ports :: "FortigateInterface list"
  ffs_VMUUID :: string

record FortigateFirewallStatus =
  ffst_Conditions :: "Condition list"
  ffst_Token :: string

record FortigateFirewall =
  ff_Meta :: ObjectMeta
  ff_Spec :: FortigateFirewallSpec
  ff_Status :: FortigateFirewallStatus

section \<open>firewall_types.go\<close>

text \<open>The type repeats the fields of \<open>FortigateInterface\<close>.\<close>

type_synonym FirewallInterface = FortigateInterface

record FirewallSpec =
  fws_PVCStorageClass :: string
  fws_Version :: string
  fws_Type :: string
  fws_Ports :: "FirewallInterface list"
  fws_VMUUID :: string
  fws_HasCloudInit :: bool

record FirewallStatus =
  fwst_Conditions :: "Condition list"

record Firewall =
  fw_Meta :: ObjectMeta
  fw_Spec :: FirewallSpec
  fw_Status :: FirewallStatus

section \<open>fortigateupdate_types.go, fortigateupdatepath_types.go\<close>

record FortigateUpdateSpec =
  fus_FortigateName :: string
  fus_NewVersion :: string

record FortigateUpdateStatus =
  fust_Conditions :: "Condition list"
  fust_BackupName :: string

record FortigateUpdate =
  fu_Meta :: ObjectMeta
  fu_Spec :: FortigateUpdateSpec
  fu_Status :: FortigateUpdateStatus

record UpdateStep =
  us_Version :: string
  us_Build :: string
  us_ReleaseType :: string

record UpdatePath =
  up_PathStatusValid :: bool
  up_Steps :: "UpdateStep list"

record FortigateUpdatePathSpec =
  fups_Model :: string
  fups_StartVersion :: string
  fups_NewVersion :: string

record FortigateUpdatePathStatus =
  fupst_Conditions :: "Condition list"
  fupst_UpdatePath :: UpdatePath

record FortigateUpdatePath =
  fup_Meta :: ObjectMeta
  fup_Spec :: FortigateUpdatePathSpec
  fup_Status :: FortigateUpdatePathStatus

section \<open>fortigatebackup_types.go\<close>

record BackupSourceRef =
  bsr_Kind :: string
  bsr_Name :: string

record BackupDestination =
  bd_BucketName :: string
  bd_Prefix :: string

record BackupSpec =
  bs_Source :: BackupSourceRef
  bs_Destination :: BackupDestination
  bs_RetentionDays :: int

record FortigateBackupSpec =
  fbs_Frequency :: string
  fbs_At :: string
  fbs_DayOfWeek :: string
  fbs_DayOfMonth :: int
  fbs_Suspend :: bool
  fbs_Template :: BackupSpec
  fbs_MaxBackups :: int

text \<open>The time of the last backup is a pointer; times are seconds.\<close>

record FortigateBackupStatus =
  fbst_Conditions :: "Condition list"
  fbst_LastBackupTime :: "int option"
  fbst_ObservedGeneration :: int

record FortigateBackup =
  fb_Meta :: ObjectMeta
  fb_Spec :: FortigateBackupSpec
  fb_Status :: FortigateBackupStatus

section \<open>The spec as a generic map\<close>

text \<open>
  \<open>json.Marshal\<close> followed by \<open>json.Unmarshal\<close> into \<open>map[string]interface{}\<close>: \<open>omitempty\<close> drops
  empty strings, absent pointers and empty lists; the JSON names are those of the struct tags.
\<close>

definition str_field :: "string \<Rightarrow> string \<Rightarrow> (string \<times> json) list" where
  "str_field k v = (if v = [] then [] else [(k, JStr v)])"

definition spec_fields :: "FortigateConfigSpec \<Rightarrow> obj" where
  "spec_fields sp =
     str_field ''fortigateName'' (fcs_FortigateName sp) @
     str_field ''terraformTemplateS3Key'' (fcs_TerraformTemplateS3Key sp) @
     str_field ''operatorRule'' (fcs_OperatorRule sp) @
     (case fcs_ExtraParams sp of None \<Rightarrow> [] | Some v \<Rightarrow> [(''extraParams'', v)]) @
     (if fcs_ExtraItems sp = [] then [] else [(''extraItems'', JArr (fcs_ExtraItems sp))])"

definition specToMap :: "FortigateConfig \<Rightarrow> obj res" where
  "specToMap cfg = Inr (spec_fields (fc_Spec cfg))"

definition buildSpecMap :: "FortigateConfig \<Rightarrow> obj res" where
  "buildSpecMap instance' =
     (case normalizzaMappaInMaiuscolo (JObj (spec_fields (fc_Spec instance'))) of
        JObj final \<Rightarrow> Inr final
      | _ \<Rightarrow> Inl (Errorf ''errore nel cast della mappa normalizzata'' []))"

definition wf_spec :: "FortigateConfigSpec \<Rightarrow> bool" where
  "wf_spec sp = ((case fcs_ExtraParams sp of None \<Rightarrow> True | Some v \<Rightarrow> wf_json v) \<and>
     list_all wf_json (fcs_ExtraItems sp))"

lemma wf_spec_fields: "wf_spec sp \<Longrightarrow> wf_json (JObj (spec_fields sp))"
  by (auto simp: wf_spec_def spec_fields_def str_field_def split: option.splits)

lemma buildSpecMap_ok: "\<exists>m. buildSpecMap cfg = Inr m"
  by (simp add: buildSpecMap_def)

text \<open>The engine reads upper-case keys; a mapping path reads the JSON names.\<close>

lemma specToMap_lookup:
  "specToMap cfg = Inr m \<Longrightarrow>
     map_of m ''extraParams'' = fcs_ExtraParams (fc_Spec cfg) \<and>
     map_of m ''extraItems'' =
       (if fcs_ExtraItems (fc_Spec cfg) = [] then None else Some (JArr (fcs_ExtraItems (fc_Spec cfg))))"
  by (auto simp: specToMap_def spec_fields_def str_field_def split: option.splits)

lemma upper_names:
  "ToUpper ''fortigateName'' = ''FORTIGATENAME''"
  "ToUpper ''terraformTemplateS3Key'' = ''TERRAFORMTEMPLATES3KEY''"
  "ToUpper ''operatorRule'' = ''OPERATORRULE''"
  "ToUpper ''extraParams'' = ''EXTRAPARAMS''"
  "ToUpper ''extraItems'' = ''EXTRAITEMS''"
  by code_simp+

lemma buildSpecMap_lookup:
  assumes "buildSpecMap cfg = Inr m"
  shows "map_of m ''EXTRAPARAMS'' = map_option normalizzaMappaInMaiuscolo (fcs_ExtraParams (fc_Spec cfg))"
    and "map_of m ''EXTRAITEMS'' =
       (if fcs_ExtraItems (fc_Spec cfg) = [] then None
        else Some (JArr (map normalizzaMappaInMaiuscolo (fcs_ExtraItems (fc_Spec cfg)))))"
proof -
  let ?up = "\<lambda>kv. (ToUpper (fst kv), normalizzaMappaInMaiuscolo (snd kv))"
  have m: "m = put_all (map ?up (spec_fields (fc_Spec cfg)))"
    using assms by (simp add: buildSpecMap_def)
  show "map_of m ''EXTRAPARAMS'' = map_option normalizzaMappaInMaiuscolo (fcs_ExtraParams (fc_Spec cfg))"
    unfolding m map_of_put_all spec_fields_def str_field_def
    by (cases "fcs_ExtraParams (fc_Spec cfg)") (simp_all add: upper_names)
  show "map_of m ''EXTRAITEMS'' =
       (if fcs_ExtraItems (fc_Spec cfg) = [] then None
        else Some (JArr (map normalizzaMappaInMaiuscolo (fcs_ExtraItems (fc_Spec cfg)))))"
    unfolding m map_of_put_all spec_fields_def str_field_def
    by (cases "fcs_ExtraParams (fc_Spec cfg)") (simp_all add: upper_names)
qed

end
