(* ===== verification/Engine.thy ===== *)
theory Engine
  imports Template Store Api
begin

text \<open>
  The file level of \<open>internal/controller/smart_nested_process.go\<close>: \<open>smartNestedProcess\<close> renders one
  template file against the spec of a resource.  A template whose first line opens a loop is split
  into one file per list element (\<open>splitIntoFiles\<close>); any other is rendered in place and written
  under its final name (\<open>writeAndEnsureDotTf\<close>).
\<close>

definition renderSplitItem :: "loopBlock \<Rightarrow> loopBlock list \<Rightarrow> string \<Rightarrow> loopBlock list \<Rightarrow> obj \<Rightarrow>
    nat \<Rightarrow> obj \<Rightarrow> string res" where
  "renderSplitItem first nested afterFirst siblingBlocks specMap index itemMap =
     (case renderBlockBody (lb_body first) nested itemMap (lb_tag first) index of
        Inl e \<Rightarrow> Inl e
      | Inr mainContent \<Rightarrow>
        (case renderInPlace afterFirst siblingBlocks specMap of
           Inl e \<Rightarrow> Inl e
         | Inr siblingContent \<Rightarrow> Inr (mainContent @ siblingContent)))"

text \<open>The loop over the elements; \<open>i\<close> is the index of the next element.\<close>

primrec splitLoop :: "(nat \<Rightarrow> obj \<Rightarrow> string res) \<Rightarrow> string \<Rightarrow> string \<Rightarrow> nat \<Rightarrow> json list \<Rightarrow> (fs, unit) op" where
  "splitLoop render base ext i [] = ret ()"
| "splitLoop render base ext i (rawItem # items) =
     (case resolveItem rawItem of
        None \<Rightarrow> splitLoop render base ext (i + 1) items
      | Some itemMap \<Rightarrow>
        andThen (liftRes (render (i + 1) itemMap)) (\<lambda>content.
        let newFilename = base @ ''_'' @ Itoa (i + 1) @ ext in
        andThen (wrapErr (Wrapf (''errore scrittura file '' @ newFilename))
                   (WriteFile newFilename content 420)) (\<lambda>_.
        splitLoop render base ext (i + 1) items)))"

definition splitIntoFiles :: "string \<Rightarrow> string \<Rightarrow> loopBlock list \<Rightarrow> obj \<Rightarrow> (fs, unit) op" where
  "splitIntoFiles content filename blocks specMap =
     (let first = hd blocks in
      case resolveListPath specMap (lb_tag first) of
        None \<Rightarrow> fail (list_not_found (lb_tag first))
      | Some listData \<Rightarrow>
        (let afterFirst = drop (lb_end first) content in
         andThen (liftRes (findTopLevelLoops afterFirst)) (\<lambda>siblingBlocks.
         andThen (liftRes (findTopLevelLoops (lb_body first))) (\<lambda>nested.
         case splitTerraformExt filename of (base, ext) \<Rightarrow>
           andThen (splitLoop (renderSplitItem first nested afterFirst siblingBlocks specMap)
                      base ext 0 listData) (\<lambda>_.
           Remove filename)))))"

definition writeAndEnsureDotTf :: "string \<Rightarrow> string \<Rightarrow> (fs, unit) op" where
  "writeAndEnsureDotTf templateFilename rendered =
     (case splitTerraformExt templateFilename of (base, ext) \<Rightarrow>
        let final = base @ ext in
        andThen (wrapErr (Wrapf (''scrittura di '' @ final @ '' fallita'')) (WriteFile final rendered 420)) (\<lambda>_.
        if final \<noteq> templateFilename
        then (\<lambda>s. case Remove templateFilename s of
                    (Inl e, s') \<Rightarrow>
                      if IsNotExist e then (Inr (), s')
                      else (Inl (Wrapf (''rimozione del file sorgente '' @ templateFilename) e), s')
                  | (Inr u, s') \<Rightarrow> (Inr u, s'))
        else ret ()))"

definition smartNestedProcess :: "string \<Rightarrow> FortigateConfig \<Rightarrow> (fs, unit) op" where
  "smartNestedProcess templateFilename instance' =
     andThen (liftRes (buildSpecMap instance')) (\<lambda>specMapFinal.
     andThen (wrapErr (Wrapf ''errore lettura template'') (ReadFile templateFilename)) (\<lambda>contentBytes.
     let content = TrimSpace contentBytes in
     andThen (liftRes (findTopLevelLoops content)) (\<lambda>blocks.
     if blocks = [] then
       writeAndEnsureDotTf templateFilename (processVariablesNoSuffix content specMapFinal [])
     else if lb_start (hd blocks) = 0 then
       splitIntoFiles content templateFilename blocks specMapFinal
     else
       andThen (liftRes (renderInPlace content blocks specMapFinal)) (\<lambda>rendered.
       writeAndEnsureDotTf templateFilename rendered))))"

section \<open>Splitting\<close>

lemma IndexedResourceFile_not_source: "IndexedResourceFile f i \<noteq> f"
proof
  assume eq: "IndexedResourceFile f i = f"
  obtain b x where bx: "splitTerraformExt f = (b, x)" by (cases "splitTerraformExt f")
  then obtain t where t: "x = CHR ''.'' # t" using splitTerraformExt_shape [OF bx] by auto
  have fin: "finalName f = b @ x" using bx by (simp add: finalName_def)
  have "f = b @ ''_'' @ Itoa (i + 1) @ x" using eq bx by (simp add: IndexedResourceFile_def)
  moreover have "\<exists>r. f = b @ CHR ''.'' # r \<or> f = b"
  proof (cases "filepath_Ext (template_stem f) = []")
    case True
    then have "b = template_stem f" using bx by (simp add: splitTerraformExt_stem)
    moreover have "f = template_stem f \<or> f = template_stem f @ ''.tmpl''"
      by (auto simp: template_stem_def HasSuffix_iff)
    ultimately show ?thesis by auto
  next
    case False
    then have "template_stem f = b @ x" using fin by (simp add: finalName_stem)
    moreover have "f = template_stem f \<or> f = template_stem f @ ''.tmpl''"
      by (auto simp: template_stem_def HasSuffix_iff)
    ultimately show ?thesis using t by auto
  qed
  ultimately show False by auto
qed

lemma splitLoop_frame:
  assumes "splitLoop render b x i items s = (r, s')"
    and "\<And>j. j < length items \<Longrightarrow> resolveItem (items ! j) \<noteq> None \<Longrightarrow>
           q \<noteq> b @ ''_'' @ Itoa (i + j + 1) @ x"
  shows "content_at s' q = content_at s q"
  using assms
proof (induction items arbitrary: i s)
  case Nil
  then show ?case by simp
next
  case (Cons v items)
  have rest: "content_at s' q = content_at s1 q"
    if "splitLoop render b x (i + 1) items s1 = (r, s')" for s1
  proof (rule Cons.IH [OF that])
    fix j assume "j < length items" "resolveItem (items ! j) \<noteq> None"
    with Cons.prems(2) [of "Suc j"] show "q \<noteq> b @ ''_'' @ Itoa (i + 1 + j + 1) @ x" by simp
  qed
  have here: "resolveItem v \<noteq> None \<Longrightarrow> q \<noteq> b @ ''_'' @ Itoa (i + 1) @ x"
    using Cons.prems(2) [of 0] by simp
  show ?case
  proof (cases "resolveItem v")
    case None
    with Cons.prems(1) rest show ?thesis by simp
  next
    case (Some im)
    show ?thesis
    proof (cases "render (i + 1) im")
      case (Inl e)
      with Some Cons.prems(1) show ?thesis by simp
    next
      case (Inr c)
      let ?n = "b @ ''_'' @ Itoa (i + 1) @ x"
      obtain r1 s1 where w: "WriteFile ?n c 420 s = (r1, s1)" by (cases "WriteFile ?n c 420 s")
      show ?thesis
      proof (cases r1)
        case (Inl e)
        with w have "s1 = s" by (simp add: WriteFile_err)
        with Inl Inr Some w Cons.prems(1) show ?thesis
          by (simp add: Let_def andThen_def wrapErr_def)
      next
        case (Inr u)
        have "splitLoop render b x (i + 1) items s1 = (r, s')"
          using Inr \<open>render (i + 1) im = Inr c\<close> Some w Cons.prems(1)
          by (simp add: Let_def andThen_def wrapErr_def)
        from rest [OF this] WriteFile_ok [OF w [unfolded Inr], of q] here Some show ?thesis by simp
      qed
    qed
  qed
qed

lemma splitLoop_ok:
  assumes "splitLoop render b x i items s = (Inr u, s')" and "j < length items"
    and "resolveItem (items ! j) = Some im"
  shows "\<exists>c. render (i + j + 1) im = Inr c \<and> content_at s' (b @ ''_'' @ Itoa (i + j + 1) @ x) = Some c"
  using assms
proof (induction items arbitrary: i s j)
  case Nil
  then show ?case by simp
next
  case (Cons v items)
  show ?case
  proof (cases j)
    case (Suc j')
    obtain s1 where "splitLoop render b x (i + 1) items s1 = (Inr u, s')"
      using Cons.prems(1)
      by (auto simp: Let_def andThen_ok wrapErr_ok split: option.splits)
    from Cons.IH [OF this, of j'] Suc Cons.prems(2,3) show ?thesis by simp
  next
    case 0
    with Cons.prems(1,3) obtain c s1 where r: "render (i + 1) im = Inr c"
      and w: "WriteFile (b @ ''_'' @ Itoa (i + 1) @ x) c 420 s = (Inr (), s1)"
      and rest: "splitLoop render b x (i + 1) items s1 = (Inr u, s')"
      by (auto simp: Let_def andThen_ok wrapErr_ok)
    have "content_at s' (b @ ''_'' @ Itoa (i + 1) @ x) = content_at s1 (b @ ''_'' @ Itoa (i + 1) @ x)"
    proof (rule splitLoop_frame [OF rest])
      fix k
      show "b @ ''_'' @ Itoa (i + 1) @ x \<noteq> b @ ''_'' @ Itoa (i + 1 + k + 1) @ x"
        by (auto dest: Itoa_inj)
    qed
    with r WriteFile_ok [OF w] 0 show ?thesis by simp
  qed
qed

lemma splitLoop_err:
  "splitLoop render b x i items s = (Inl e, s') \<Longrightarrow>
     (\<exists>j im. j < length items \<and> resolveItem (items ! j) = Some im \<and>
        (render (i + j + 1) im = Inl e \<or>
         (\<exists>e'. e = Wrapf (''errore scrittura file '' @ b @ ''_'' @ Itoa (i + j + 1) @ x) e')))"
proof (induction items arbitrary: i s)
  case Nil
  then show ?case by simp
next
  case (Cons v items)
  have later: ?case if "splitLoop render b x (i + 1) items s1 = (Inl e, s')" for s1
  proof -
    from Cons.IH [OF that] obtain j im where j: "j < length items"
      "resolveItem (items ! j) = Some im"
      "render (i + 1 + j + 1) im = Inl e \<or>
         (\<exists>e'. e = Wrapf (''errore scrittura file '' @ b @ ''_'' @ Itoa (i + 1 + j + 1) @ x) e')"
      by auto
    then show ?thesis by (intro exI [of _ "Suc j"] exI [of _ im]) simp
  qed
  show ?case
  proof (cases "resolveItem v")
    case None
    with Cons.prems later show ?thesis by simp
  next
    case (Some im)
    with Cons.prems consider "render (i + 1) im = Inl e"
      | e' where "e = Wrapf (''errore scrittura file '' @ b @ ''_'' @ Itoa (i + 1) @ x) e'"
      | s1 where "splitLoop render b x (i + 1) items s1 = (Inl e, s')"
      by (auto simp: Let_def andThen_err wrapErr_err wrapErr_ok)
    then show ?thesis
    proof cases
      case 1
      with Some show ?thesis by (intro exI [of _ 0] exI [of _ im]) simp
    next
      case 2
      with Some show ?thesis by (intro exI [of _ 0] exI [of _ im]) simp
    next
      case 3
      then show ?thesis by (rule later)
    qed
  qed
qed

lemma IndexedResourceFile_split:
  "splitTerraformExt f = (b, x) \<Longrightarrow> IndexedResourceFile f j = b @ ''_'' @ Itoa (j + 1) @ x"
  by (simp add: IndexedResourceFile_def)

text \<open>What a call of \<open>splitIntoFiles\<close> that returns without error has done.\<close>

lemma splitIntoFiles_cases:
  assumes "splitIntoFiles content f blocks m s = (Inr u, s')"
  obtains listData siblings nested b x s1 where
    "resolveListPath m (lb_tag (hd blocks)) = Some listData"
    "findTopLevelLoops (drop (lb_end (hd blocks)) content) = Inr siblings"
    "findTopLevelLoops (lb_body (hd blocks)) = Inr nested"
    "splitTerraformExt f = (b, x)"
    "splitLoop (renderSplitItem (hd blocks) nested (drop (lb_end (hd blocks)) content) siblings m)
       b x 0 listData s = (Inr (), s1)"
    "Remove f s1 = (Inr u, s')"
  using assms
  by (cases "splitTerraformExt f")
    (auto simp: splitIntoFiles_def Let_def andThen_ok split: option.splits)

lemma splitIntoFiles_ok:
  assumes run: "splitIntoFiles content f blocks m s = (Inr u, s')"
    and items: "resolveListPath m (lb_tag (hd blocks)) = Some listData"
    and j: "j < length listData" and im: "resolveItem (listData ! j) = Some im"
    and sib: "findTopLevelLoops (drop (lb_end (hd blocks)) content) = Inr siblings"
    and nest: "findTopLevelLoops (lb_body (hd blocks)) = Inr nested"
  shows "\<exists>c. renderSplitItem (hd blocks) nested (drop (lb_end (hd blocks)) content) siblings m (j + 1) im = Inr c \<and>
    content_at s' (IndexedResourceFile f j) = Some c"
proof -
  from run obtain listData' siblings' nested' b x s1 where
    h: "resolveListPath m (lb_tag (hd blocks)) = Some listData'"
    "findTopLevelLoops (drop (lb_end (hd blocks)) content) = Inr siblings'"
    "findTopLevelLoops (lb_body (hd blocks)) = Inr nested'"
    "splitTerraformExt f = (b, x)"
    "splitLoop (renderSplitItem (hd blocks) nested' (drop (lb_end (hd blocks)) content) siblings' m)
       b x 0 listData' s = (Inr (), s1)"
    and rm: "Remove f s1 = (Inr u, s')" by (rule splitIntoFiles_cases)
  have eqs: "listData' = listData" "siblings' = siblings" "nested' = nested" using h items sib nest by auto
  from splitLoop_ok [OF h(5) [unfolded eqs] j im] obtain c where
    c: "renderSplitItem (hd blocks) nested (drop (lb_end (hd blocks)) content) siblings m (j + 1) im = Inr c"
    "content_at s1 (b @ ''_'' @ Itoa (j + 1) @ x) = Some c" by auto
  have "content_at s' (IndexedResourceFile f j) = content_at s1 (IndexedResourceFile f j)"
    using os_store.remove_ok [OF rm] IndexedResourceFile_not_source by simp
  with c h(4) show ?thesis by (simp add: IndexedResourceFile_split)
qed

lemma splitIntoFiles_frame:
  assumes run: "splitIntoFiles content f blocks m s = (r, s')"
    and q: "q \<noteq> f" "\<And>listData j. resolveListPath m (lb_tag (hd blocks)) = Some listData \<Longrightarrow>
      j < length listData \<Longrightarrow> resolveItem (listData ! j) \<noteq> None \<Longrightarrow> q \<noteq> IndexedResourceFile f j"
  shows "content_at s' q = content_at s q"
proof (cases "resolveListPath m (lb_tag (hd blocks))")
  case None
  with run show ?thesis by (simp add: splitIntoFiles_def Let_def)
next
  case (Some listData)
  obtain b x where bx: "splitTerraformExt f = (b, x)" by (cases "splitTerraformExt f")
  have fr: "content_at s1 q = content_at s q"
    if "splitLoop render b x 0 listData s = (r1, s1)" for render r1 s1
    using q(2) [OF Some] by (intro splitLoop_frame [OF that]) (simp add: IndexedResourceFile_split [OF bx])
  show ?thesis
  proof (cases r)
    case (Inr u)
    with run Some bx show ?thesis
      by (auto simp: splitIntoFiles_def Let_def andThen_ok os_store.remove_ok [where q = q] q(1) dest!: fr)
  next
    case (Inl e)
    with run Some bx show ?thesis
      by (auto simp: splitIntoFiles_def Let_def andThen_err dest!: fr os_store.remove_err)
  qed
qed

lemma splitIntoFiles_removes:
  "splitIntoFiles content f blocks m s = (Inr u, s') \<Longrightarrow> content_at s' f = None"
  by (auto elim!: splitIntoFiles_cases simp: os_store.remove_ok)

section \<open>Writing a template in place\<close>

lemma writeAndEnsureDotTf_ok:
  assumes "writeAndEnsureDotTf f c s = (Inr u, s')"
  shows "content_at s' q = (if q = finalName f then Some c else if q = f then None else content_at s q)"
proof -
  obtain b x where bx: "splitTerraformExt f = (b, x)" by (cases "splitTerraformExt f")
  from assms bx obtain s1 where w: "WriteFile (finalName f) c 420 s = (Inr (), s1)"
    and r0: "(if finalName f \<noteq> f
         then (\<lambda>s. case Remove f s of
                    (Inl e, s') \<Rightarrow>
                      if IsNotExist e then (Inr (), s')
                      else (Inl (Wrapf (''rimozione del file sorgente '' @ f) e), s')
                  | (Inr u, s') \<Rightarrow> (Inr u, s'))
         else ret ()) s1 = (Inr u, s')"
    by (auto simp: writeAndEnsureDotTf_def finalName_def Let_def andThen_ok wrapErr_ok)
  obtain r1 s2 where rm: "Remove f s1 = (r1, s2)" by (cases "Remove f s1")
  from r0 rm have r: "if finalName f \<noteq> f
            then (\<exists>u. Remove f s1 = (Inr u, s')) \<or> (\<exists>e. Remove f s1 = (Inl e, s') \<and> IsNotExist e)
            else s' = s1"
    by (auto split: sum.splits if_splits)
  have k: "content_at s1 x = (if x = finalName f then Some c else content_at s x)" for x
    by (rule WriteFile_ok [OF w])
  show ?thesis
  proof (cases "finalName f = f")
    case True
    with r k show ?thesis by simp
  next
    case False
    with r consider u where "Remove f s1 = (Inr u, s')" | e where "Remove f s1 = (Inl e, s')" "IsNotExist e"
      by auto
    then show ?thesis
    proof cases
      case 1
      with k False show ?thesis by (auto simp: os_store.remove_ok [OF 1, of q])
    next
      case 2
      then have "s' = s1" "content_at s1 f = None"
        by (auto simp: Remove_def IsNotExist_def content_at_def split: if_splits option.splits)
      with k False show ?thesis by auto
    qed
  qed
qed

text \<open>Errors before the first write leave the file system alone.\<close>

lemma smartNestedProcess_parse_error:
  assumes "content_at s f = Some c" and "findTopLevelLoops (TrimSpace c) = Inl e" and "\<not> refused s f"
  shows "smartNestedProcess f cfg s = (Inl e, s)"
  using assms buildSpecMap_ok [of cfg] ReadFile_ok [of f s c s]
  by (auto simp: smartNestedProcess_def andThen_def wrapErr_def Let_def)

lemma smartNestedProcess_inline:
  assumes run: "smartNestedProcess f cfg s = (Inr u, s')"
    and c: "content_at s f = Some c" and m: "buildSpecMap cfg = Inr m"
    and bs: "findTopLevelLoops (TrimSpace c) = Inr blocks"
    and notsplit: "blocks = [] \<or> lb_start (hd blocks) \<noteq> 0"
  shows "\<exists>out. renderInPlace (TrimSpace c) blocks m = Inr out \<and>
    content_at s' q = (if q = finalName f then Some out else if q = f then None else content_at s q)"
proof -
  have w: "\<exists>out. renderInPlace (TrimSpace c) blocks m = Inr out \<and> writeAndEnsureDotTf f out s = (Inr u, s')"
  proof (cases "blocks = []")
    case True
    with run c m bs show ?thesis
      by (auto simp: smartNestedProcess_def andThen_ok wrapErr_ok ReadFile_ok Let_def renderInPlace_def)
  next
    case False
    with run c m bs notsplit show ?thesis
      by (auto simp: smartNestedProcess_def andThen_ok wrapErr_ok ReadFile_ok Let_def)
  qed
  then show ?thesis using writeAndEnsureDotTf_ok by blast
qed

lemma smartNestedProcess_split:
  assumes run: "smartNestedProcess f cfg s = (r, s')"
    and c: "content_at s f = Some c" "\<not> refused s f" and m: "buildSpecMap cfg = Inr m"
    and bs: "findTopLevelLoops (TrimSpace c) = Inr blocks"
    and split: "blocks \<noteq> []" "lb_start (hd blocks) = 0"
  shows "splitIntoFiles (TrimSpace c) f blocks m s = (r, s')"
  using assms ReadFile_ok [of f s c s]
  by (auto simp: smartNestedProcess_def andThen_def wrapErr_def Let_def)

end
