(* ===== verification/GoNet.thy ===== *)
theory GoNet
  imports Prelude
begin

text \<open>
  The value checks of \<open>strconv\<close> and \<open>net\<close> that \<open>checkType\<close> in
  \<open>internal/controller/rule_config_driven.go\<close> rests on: \<open>strconv.ParseBool\<close>, \<open>net.ParseIP\<close> and
  \<open>net.ParseCIDR\<close>, reduced to what the program looks at, whether they accept the text.
\<close>

definition ParseBool :: "string \<Rightarrow> bool option" where
  "ParseBool s =
     (if s \<in> {''1'', ''t'', ''T'', ''TRUE'', ''true'', ''True''} then Some True
      else if s \<in> {''0'', ''f'', ''F'', ''FALSE'', ''false'', ''False''} then Some False
      else None)"

section \<open>IPv4\<close>

definition is_octet :: "string \<Rightarrow> bool" where
  "is_octet p = (p \<noteq> [] \<and> list_all is_digit p \<and> (length p = 1 \<or> hd p \<noteq> CHR ''0'') \<and> dec_val p \<le> 255)"

definition is_ipv4 :: "string \<Rightarrow> bool" where
  "is_ipv4 s = (length (Split s (CHR ''.'')) = 4 \<and> list_all is_octet (Split s (CHR ''.'')))"

section \<open>IPv6\<close>

definition is_hex :: "char \<Rightarrow> bool" where
  "is_hex c = (is_digit c \<or> (97 \<le> (of_char c :: nat) \<and> (of_char c :: nat) \<le> 102) \<or>
     (65 \<le> (of_char c :: nat) \<and> (of_char c :: nat) \<le> 70))"

text \<open>After the last field: fewer than eight groups need a double colon, eight exclude it.\<close>

definition v6_done :: "nat \<Rightarrow> bool \<Rightarrow> bool" where
  "v6_done i ell = (if i < 8 then ell else \<not> ell)"

text \<open>The loop over the fields: \<open>i\<close> groups are read, \<open>ell\<close> says whether a double colon was.\<close>

function v6_loop :: "nat \<Rightarrow> bool \<Rightarrow> string \<Rightarrow> bool" where
  "v6_loop i ell s =
     (if 8 \<le> i then s = [] \<and> \<not> ell
      else let h = takeWhile is_hex s; r = dropWhile is_hex s
           in if h = [] \<or> 4 < length h then False
              else if r = [] then v6_done (i + 1) ell
              else if hd r = CHR ''.'' then (ell \<or> i = 6) \<and> i \<le> 6 \<and> is_ipv4 s \<and> v6_done (i + 2) ell
              else if hd r \<noteq> CHR '':'' \<or> tl r = [] then False
              else if hd (tl r) = CHR '':'' then
                (if ell then False
                 else if tl (tl r) = [] then v6_done (i + 1) True
                 else v6_loop (i + 1) True (tl (tl r)))
              else v6_loop (i + 1) ell (tl r))"
  by pat_completeness auto
termination by (relation "measure (\<lambda>(i, _, _). 8 - i)") auto

declare v6_loop.simps [simp del]

definition is_ipv6 :: "string \<Rightarrow> bool" where
  "is_ipv6 s =
     (if HasPrefix s ''::'' then (drop 2 s = [] \<or> v6_loop 0 True (drop 2 s))
      else v6_loop 0 False s)"

section \<open>Addresses and prefixes\<close>

text \<open>
  The number of address bits.  The first of the characters dot, colon and percent decides the
  family; an address with a zone is not accepted by either caller.
\<close>

definition addr_bits :: "string \<Rightarrow> nat option" where
  "addr_bits s =
     (case dropWhile (\<lambda>c. c \<noteq> CHR ''.'' \<and> c \<noteq> CHR '':'' \<and> c \<noteq> CHR ''%'') s of
        [] \<Rightarrow> None
      | c # _ \<Rightarrow>
        if c = CHR ''.'' then (if is_ipv4 s then Some 32 else None)
        else if c = CHR '':'' then (if CHR ''%'' \<notin> set s \<and> is_ipv6 s then Some 128 else None)
        else None)"

definition ParseIP :: "string \<Rightarrow> bool" where
  "ParseIP s = (addr_bits s \<noteq> None)"

definition ParseCIDR :: "string \<Rightarrow> bool" where
  "ParseCIDR s =
     (case Index s ''/'' of
        None \<Rightarrow> False
      | Some i \<Rightarrow>
        (let mask = drop (i + 1) s
         in case addr_bits (take i s) of
              None \<Rightarrow> False
            | Some bits \<Rightarrow> mask \<noteq> [] \<and> list_all is_digit mask \<and> dec_val mask \<le> bits))"

section \<open>Dotted quads\<close>

lemma Itoa_0: "Itoa 0 = ''0''"
  by code_simp

lemma Itoa_first: "0 < n \<Longrightarrow> hd (Itoa n) \<noteq> CHR ''0''"
proof (induction n rule: Itoa.induct)
  case (1 n)
  show ?case
  proof (cases "n < 10")
    case True
    with "1.prems" have "digit_char n \<noteq> CHR ''0''"
      using digit_char_val [of n] by (auto simp: digit_val_def)
    with True show ?thesis by (subst Itoa.simps) simp
  next
    case False
    with "1.IH" have "hd (Itoa (n div 10)) \<noteq> CHR ''0''" by simp
    with False show ?thesis by (subst Itoa.simps) simp
  qed
qed

lemma is_octet_Itoa: "n \<le> 255 \<Longrightarrow> is_octet (Itoa n)"
proof -
  assume n: "n \<le> 255"
  have "list_all is_digit (Itoa n)" by (auto simp: list_all_iff dest: Itoa_digits)
  moreover have "length (Itoa n) = 1 \<or> hd (Itoa n) \<noteq> CHR ''0''"
    using Itoa_first [of n] by (cases "n = 0") (simp_all add: Itoa.simps)
  ultimately show ?thesis using n by (simp add: is_octet_def)
qed

lemma is_octet_Itoa_iff: "is_octet (Itoa n) \<longleftrightarrow> n \<le> 255"
  using is_octet_Itoa by (auto simp: is_octet_def)

lemma digit_char_of_val: "is_digit c \<Longrightarrow> digit_char (digit_val c) = c"
  by (simp add: is_digit_def digit_char_def digit_val_def)

lemma Itoa_dec_val:
  "p \<noteq> [] \<Longrightarrow> list_all is_digit p \<Longrightarrow> length p = 1 \<or> hd p \<noteq> CHR ''0'' \<Longrightarrow> Itoa (dec_val p) = p"
proof (induction p rule: rev_induct)
  case Nil
  then show ?case by simp
next
  case (snoc c q)
  have c: "is_digit c" "digit_val c < 10" using snoc.prems by (auto simp: is_digit_def digit_val_def)
  show ?case
  proof (cases "q = []")
    case True
    with c show ?thesis by (simp add: dec_val_def Itoa.simps digit_char_of_val)
  next
    case False
    with snoc have q: "Itoa (dec_val q) = q" "hd q \<noteq> CHR ''0''" by auto
    have "dec_val q \<noteq> 0"
    proof
      assume "dec_val q = 0"
      with q(1) have "q = ''0''" by (simp add: Itoa_0)
      with q(2) show False by simp
    qed
    with c q snoc.prems show ?thesis
      by (subst Itoa.simps) (simp add: digit_char_of_val)
  qed
qed

definition quad :: "nat list \<Rightarrow> string" where
  "quad os = Join (map Itoa os) ''.''"

lemma Split_quad: "os \<noteq> [] \<Longrightarrow> Split (quad os) (CHR ''.'') = map Itoa os"
  unfolding quad_def by (rule Split_Join) (auto simp: not_digit_Itoa is_digit_def)

lemma is_ipv4_quad:
  "length os = 4 \<Longrightarrow> is_ipv4 (quad os) \<longleftrightarrow> list_all (\<lambda>n. n \<le> 255) os"
  by (cases "os = []") (auto simp: is_ipv4_def Split_quad list_all_iff is_octet_Itoa_iff)

lemma is_ipv4_iff:
  "is_ipv4 s \<longleftrightarrow> (\<exists>os. length os = 4 \<and> list_all (\<lambda>n. n \<le> 255) os \<and> s = quad os)"
proof
  assume v4: "is_ipv4 s"
  let ?os = "map dec_val (Split s (CHR ''.''))"
  have oct: "is_octet p" if "p \<in> set (Split s (CHR ''.''))" for p
    using v4 that by (auto simp: is_ipv4_def list_all_iff)
  have canon: "Itoa (dec_val p) = p" if "p \<in> set (Split s (CHR ''.''))" for p
    using oct [OF that] by (intro Itoa_dec_val) (auto simp: is_octet_def)
  then have "map Itoa ?os = Split s (CHR ''.'')"
    by (auto intro!: map_idI)
  then have "quad ?os = s"
    using Join_Split [of s "CHR ''.''"] by (simp only: quad_def)
  moreover have "list_all (\<lambda>n. n \<le> 255) ?os" using oct by (auto simp: list_all_iff is_octet_def)
  ultimately show "\<exists>os. length os = 4 \<and> list_all (\<lambda>n. n \<le> 255) os \<and> s = quad os"
    using v4 by (intro exI [of _ ?os]) (auto simp: is_ipv4_def)
next
  assume "\<exists>os. length os = 4 \<and> list_all (\<lambda>n. n \<le> 255) os \<and> s = quad os"
  then show "is_ipv4 s" using is_ipv4_quad by blast
qed

lemma digits_quad: "c \<in> set (quad os) \<Longrightarrow> is_digit c \<or> c = CHR ''.''"
proof -
  have "c \<in> set (Join ws ''.'') \<Longrightarrow> c = CHR ''.'' \<or> (\<exists>w \<in> set ws. c \<in> set w)" for ws
    by (induction ws) (auto split: if_splits)
  from this [of "map Itoa os"] show "c \<in> set (quad os) \<Longrightarrow> is_digit c \<or> c = CHR ''.''"
    by (auto simp: quad_def dest: Itoa_digits)
qed

lemma addr_bits_quad:
  assumes "length os = 4"
  shows "addr_bits (quad os) = (if list_all (\<lambda>n. n \<le> 255) os then Some 32 else None)"
proof -
  obtain a b c d where os: "os = [a, b, c, d]"
    using assms by (auto simp: numeral_eq_Suc length_Suc_conv)
  let ?P = "\<lambda>c. c \<noteq> CHR ''.'' \<and> c \<noteq> CHR '':'' \<and> c \<noteq> CHR ''%''"
  have "?P x" if "x \<in> set (Itoa a)" for x using Itoa_digits [OF that] by (auto simp: is_digit_def)
  moreover have "quad os = Itoa a @ CHR ''.'' # Join [Itoa b, Itoa c, Itoa d] ''.''"
    by (simp add: quad_def os)
  ultimately have "dropWhile ?P (quad os) = CHR ''.'' # Join [Itoa b, Itoa c, Itoa d] ''.''"
    by (simp add: dropWhile_append)
  with is_ipv4_quad [OF assms] show ?thesis by (simp add: addr_bits_def)
qed

lemma ParseCIDR_quad:
  assumes "length os = 4"
  shows "ParseCIDR (quad os @ ''/'' @ Itoa n) \<longleftrightarrow> list_all (\<lambda>k. k \<le> 255) os \<and> n \<le> 32"
proof -
  have q: "CHR ''/'' \<notin> set (quad os)" using digits_quad [of "CHR ''/''" os] by (auto simp: is_digit_def)
  have "Index (t @ ''/'' @ r) ''/'' = Some (length t)" if "CHR ''/'' \<notin> set t" for t r
    using that by (induction t) auto
  from this [OF q, of "Itoa n"] have i: "Index (quad os @ ''/'' @ Itoa n) ''/'' = Some (length (quad os))" .
  show ?thesis
    unfolding ParseCIDR_def i using addr_bits_quad [OF assms] Itoa_digits
    by (auto simp: list_all_iff)
qed

section \<open>Decimal integers\<close>

lemma Atoi_Itoa: "n < 2 ^ 63 \<Longrightarrow> Atoi (Itoa n) = Some (int n)"
proof -
  assume n: "n < 2 ^ 63"
  have d: "list_all is_digit (Itoa n)" by (auto simp: list_all_iff dest: Itoa_digits)
  have "\<not> HasPrefix (Itoa n) [c]" if "\<not> is_digit c" for c
    using that Itoa_digits [of c n] by (auto simp: HasPrefix_def prefix_def)
  then have "\<not> HasPrefix (Itoa n) ''-''" "\<not> HasPrefix (Itoa n) ''+''" by (auto simp: is_digit_def)
  with d n show ?thesis by (simp add: Atoi_def Let_def)
qed

lemma Atoi_non_digit:
  assumes "c \<in> set (tl s)" and "\<not> is_digit c"
  shows "Atoi s = None"
proof -
  have "\<not> list_all is_digit s" "\<not> list_all is_digit (drop 1 s)"
    using assms by (cases s; auto simp: list_all_iff)+
  then show ?thesis by (simp add: Atoi_def Let_def)
qed

end
