(* ===== verification/Rules.thy ===== *)
theory Rules
  imports Engine GoNet Template_Refine
begin

text \<open>
  \<open>internal/controller/rule_config_driven.go\<close>: the rules that a ConfigMap describes.  A rule maps
  placeholder names to paths in the resource, validates the values it finds and replaces the
  placeholders in the generated file, or, for a list rule, in one file per list element.

  Rule maps are Go maps, so their order is not defined.  Error texts keep the format string and the
  arguments apart.  The regular expression engine behind \<open>pattern\<close> is the parameter \<open>re\<close>:
  \<open>re pattern text\<close> is \<open>regexp.MatchString\<close>, \<open>None\<close> for a pattern that does not compile.
\<close>

record FieldValidation =
  fv_Required :: bool
  fv_Type :: string
  fv_Enum :: "string list"
  fv_Pattern :: string

record RuleMappingConfig =
  rc_ListField :: string
  rc_Mappings :: "(string, string) gomap"
  rc_ItemMappings :: "(string, string) gomap"
  rc_Validate :: "(string, FieldValidation) gomap"
  rc_ValidateLists :: "(string, (string, FieldValidation) gomap) gomap"

type_synonym regexp = "string \<Rightarrow> string \<Rightarrow> bool option"

definition err_text :: "goerr \<Rightarrow> string" where
  "err_text e = (case e of Errorf m as \<Rightarrow> Join (m # as) '' '' | Wrapf m e' \<Rightarrow> m | _ \<Rightarrow> ''error'')"

section \<open>Checking one value\<close>

definition containsString :: "string list \<Rightarrow> string \<Rightarrow> bool" where
  "containsString list s = list_ex (\<lambda>v. v = s) list"

definition checkFormat :: "string \<Rightarrow> FieldValidation \<Rightarrow> unit res" where
  "checkFormat val rule =
     (let T = fv_Type rule in
      if T = [] \<or> T = ''string'' then Inr ()
      else if T = ''int'' then
        (if Atoi val = None then Inl (Errorf ''atteso un intero, trovato %q'' [val]) else Inr ())
      else if T = ''bool'' then
        (if ParseBool val = None then Inl (Errorf ''atteso un booleano, trovato %q'' [val]) else Inr ())
      else if T = ''cidr'' then
        (if \<not> ParseCIDR val then Inl (Errorf ''atteso un CIDR valido, trovato %q'' [val]) else Inr ())
      else if T = ''ip'' then
        (if \<not> ParseIP val then Inl (Errorf ''atteso un indirizzo IP valido, trovato %q'' [val]) else Inr ())
      else if T = ''enum'' then
        (if \<not> containsString (fv_Enum rule) val
         then Inl (Errorf ''valore %q non tra quelli ammessi %v'' (val # fv_Enum rule)) else Inr ())
      else Inr ())"

definition checkType :: "regexp \<Rightarrow> string \<Rightarrow> FieldValidation \<Rightarrow> unit res" where
  "checkType re val rule =
     (case checkFormat val rule of
        Inl e \<Rightarrow> Inl e
      | Inr _ \<Rightarrow>
        if fv_Pattern rule = [] then Inr ()
        else (case re (fv_Pattern rule) val of
                None \<Rightarrow> Inl (Wrapf (''pattern di validazione non valido: '' @ fv_Pattern rule)
                                (Sentinel ''regexp''))
              | Some True \<Rightarrow> Inr ()
              | Some False \<Rightarrow> Inl (Errorf ''valore %q non corrisponde al pattern %q'' [val, fv_Pattern rule])))"

section \<open>Checking the fields of a resource\<close>

definition fieldProblem :: "regexp \<Rightarrow> string \<Rightarrow> obj \<Rightarrow> string \<Rightarrow> string \<Rightarrow> FieldValidation \<Rightarrow> string option" where
  "fieldProblem re cfgName dataMap path label rule =
     (let (val, found) = (case lookupPath cfgName dataMap path of Some v \<Rightarrow> (v, True) | None \<Rightarrow> ([], False)) in
      if \<not> found \<or> val = [] then
        (if fv_Required rule then Some (label @ '': campo obbligatorio mancante '' @ path) else None)
      else (case checkType re val rule of
              Inl e \<Rightarrow> Some (label @ '': '' @ err_text e)
            | Inr _ \<Rightarrow> None))"

definition validateFields :: "regexp \<Rightarrow> (string, FieldValidation) gomap \<Rightarrow> (string, string) gomap \<Rightarrow>
    string \<Rightarrow> obj \<Rightarrow> string \<Rightarrow> unit res" where
  "validateFields re rules mappings cfgName dataMap sfx =
     (if rules = [] then Inr ()
      else let problems = List.map_filter (\<lambda>(tag, rule).
                 case map_of mappings tag of
                   None \<Rightarrow> None
                 | Some path \<Rightarrow> fieldProblem re cfgName dataMap path (tag @ sfx) rule) rules
           in if problems = [] then Inr ()
              else Inl (Errorf ''validazione fallita: %s'' [Join problems ''; '']))"

text \<open>The problems of one list: elements that are not objects are left out, but counted.\<close>

fun itemProblems :: "regexp \<Rightarrow> string \<Rightarrow> string \<Rightarrow> (string, FieldValidation) gomap \<Rightarrow> nat \<Rightarrow>
    json list \<Rightarrow> string list" where
  "itemProblems re cfgName listPath fieldRules i [] = []"
| "itemProblems re cfgName listPath fieldRules i (JObj itemMap # items) =
     List.map_filter (\<lambda>(fieldName, rule).
        fieldProblem re cfgName itemMap fieldName
          (listPath @ ''['' @ Itoa (i + 1) @ ''], campo '' @ fieldName) rule) fieldRules @
     itemProblems re cfgName listPath fieldRules (i + 1) items"
| "itemProblems re cfgName listPath fieldRules i (_ # items) =
     itemProblems re cfgName listPath fieldRules (i + 1) items"

definition listProblems :: "regexp \<Rightarrow> string \<Rightarrow> obj \<Rightarrow> string \<times> (string, FieldValidation) gomap \<Rightarrow>
    string list" where
  "listProblems re cfgName specMap lv =
     (case lookupRawPath specMap (fst lv) of
        None \<Rightarrow> []
      | Some (JArr items) \<Rightarrow> itemProblems re cfgName (fst lv) (snd lv) 0 items
      | Some _ \<Rightarrow> [fst lv @ '': non e' una lista''])"

definition validateEngineLists :: "regexp \<Rightarrow> (string, (string, FieldValidation) gomap) gomap \<Rightarrow>
    string \<Rightarrow> obj \<Rightarrow> unit res" where
  "validateEngineLists re listValidations cfgName specMap =
     (if listValidations = [] then Inr ()
      else let problems = concat (map (listProblems re cfgName specMap) listValidations)
           in if problems = [] then Inr ()
              else Inl (Errorf ''validazione liste fallita: %s'' [Join problems ''; '']))"

section \<open>Substitutions and their application\<close>

definition buildMods :: "(string, string) gomap \<Rightarrow> string \<Rightarrow> obj \<Rightarrow> string \<Rightarrow> modification list" where
  "buildMods mappings cfgName dataMap sfx =
     map (\<lambda>(tag, path).
            \<lparr>oldValue = ''<'' @ tag @ sfx @ ''>'',
             newValue = (case lookupPath cfgName dataMap path of Some val \<Rightarrow> val | None \<Rightarrow> [])\<rparr>) mappings"

definition item_suffix :: "nat \<Rightarrow> string" where
  "item_suffix i = ''_'' @ Itoa (i + 1)"

fun validateItems :: "regexp \<Rightarrow> RuleMappingConfig \<Rightarrow> string \<Rightarrow> nat \<Rightarrow> json list \<Rightarrow> unit res" where
  "validateItems re rc cfgName i [] = Inr ()"
| "validateItems re rc cfgName i (JObj itemMap # items) =
     (case validateFields re (rc_Validate rc) (rc_ItemMappings rc) cfgName itemMap (item_suffix i) of
        Inl e \<Rightarrow> Inl (Wrapf (''CR '' @ cfgName @ '', elemento '' @ Itoa (i + 1) @ '' di '' @ rc_ListField rc) e)
      | Inr _ \<Rightarrow> validateItems re rc cfgName (i + 1) items)"
| "validateItems re rc cfgName i (_ # items) = validateItems re rc cfgName (i + 1) items"

fun applyItems :: "RuleMappingConfig \<Rightarrow> string \<Rightarrow> string \<Rightarrow> nat \<Rightarrow> json list \<Rightarrow> (fs, unit) op" where
  "applyItems rc cfgName baseFile i [] = ret ()"
| "applyItems rc cfgName baseFile i (JObj itemMap # items) =
     andThen (applyMods (IndexedResourceFile baseFile i)
                (buildMods (rc_ItemMappings rc) cfgName itemMap (item_suffix i)))
       (\<lambda>_. applyItems rc cfgName baseFile (i + 1) items)"
| "applyItems rc cfgName baseFile i (_ # items) = applyItems rc cfgName baseFile (i + 1) items"

definition applyConfigDrivenRule :: "regexp \<Rightarrow> RuleMappingConfig \<Rightarrow> FortigateConfig \<Rightarrow> string \<Rightarrow>
    (fs, unit) op" where
  "applyConfigDrivenRule re rc cfg baseFile =
     (let name = om_Name (fc_Meta cfg) in
      andThen (liftRes (specToMap cfg)) (\<lambda>specMap.
      andThen (wrapErr (Wrapf (''CR '' @ name))
                 (liftRes (validateEngineLists re (rc_ValidateLists rc) name specMap))) (\<lambda>_.
      if rc_ListField rc = [] then
        andThen (wrapErr (Wrapf (''CR '' @ name))
                   (liftRes (validateFields re (rc_Validate rc) (rc_Mappings rc) name specMap []))) (\<lambda>_.
        applyMods baseFile (buildMods (rc_Mappings rc) name specMap []))
      else
        (case lookupRawPath specMap (rc_ListField rc) of
           None \<Rightarrow> fail (Errorf ''campo lista %q non trovato nella CR'' [rc_ListField rc])
         | Some (JArr items) \<Rightarrow>
             andThen (liftRes (validateItems re rc name 0 items)) (\<lambda>_.
             applyItems rc name baseFile 0 items)
         | Some _ \<Rightarrow> fail (Errorf ''campo %q non una lista'' [rc_ListField rc])))))"

section \<open>What validation accepts\<close>

definition format_ok :: "FieldValidation \<Rightarrow> string \<Rightarrow> bool" where
  "format_ok rule v =
     ((fv_Type rule = ''int'' \<longrightarrow> Atoi v \<noteq> None) \<and>
      (fv_Type rule = ''bool'' \<longrightarrow> ParseBool v \<noteq> None) \<and>
      (fv_Type rule = ''cidr'' \<longrightarrow> ParseCIDR v) \<and>
      (fv_Type rule = ''ip'' \<longrightarrow> ParseIP v) \<and>
      (fv_Type rule = ''enum'' \<longrightarrow> v \<in> set (fv_Enum rule)))"

definition value_ok :: "regexp \<Rightarrow> FieldValidation \<Rightarrow> string \<Rightarrow> bool" where
  "value_ok re rule v =
     (format_ok rule v \<and> (fv_Pattern rule \<noteq> [] \<longrightarrow> re (fv_Pattern rule) v = Some True))"

definition field_ok :: "regexp \<Rightarrow> string \<Rightarrow> obj \<Rightarrow> string \<Rightarrow> FieldValidation \<Rightarrow> bool" where
  "field_ok re cfgName dataMap path rule =
     (case lookupPath cfgName dataMap path of
        Some v \<Rightarrow> if v = [] then \<not> fv_Required rule else value_ok re rule v
      | None \<Rightarrow> \<not> fv_Required rule)"

lemma checkFormat_ok: "checkFormat v rule = Inr () \<longleftrightarrow> format_ok rule v"
proof -
  let ?T = "fv_Type rule"
  consider "?T = []" | "?T = ''string''" | "?T = ''int''" | "?T = ''bool''" | "?T = ''cidr''"
    | "?T = ''ip''" | "?T = ''enum''"
    | "?T \<noteq> []" "?T \<noteq> ''string''" "?T \<noteq> ''int''" "?T \<noteq> ''bool''" "?T \<noteq> ''cidr''" "?T \<noteq> ''ip''" "?T \<noteq> ''enum''"
    by blast
  then show ?thesis
    by cases (simp_all add: checkFormat_def format_ok_def Let_def containsString_def list_ex_iff)
qed

lemma checkType_ok: "checkType re v rule = Inr () \<longleftrightarrow> value_ok re rule v"
  using checkFormat_ok [of v rule]
  by (cases "checkFormat v rule"; cases "re (fv_Pattern rule) v")
    (auto simp: checkType_def value_ok_def split: bool.splits)

lemma fieldProblem_None: "fieldProblem re cfgName m path label rule = None \<longleftrightarrow> field_ok re cfgName m path rule"
proof (cases "lookupPath cfgName m path")
  case None
  then show ?thesis by (simp add: fieldProblem_def field_ok_def)
next
  case (Some v)
  then show ?thesis
    using checkType_ok [of re v rule] by (auto simp: fieldProblem_def field_ok_def split: sum.splits)
qed

lemma map_filter_Nil: "List.map_filter f xs = [] \<longleftrightarrow> (\<forall>x \<in> set xs. f x = None)"
  by (induction xs) (auto simp: List.map_filter_simps split: option.splits)

lemma validateFields_ok:
  "validateFields re rules mappings cfgName m sfx = Inr () \<longleftrightarrow>
     (\<forall>(tag, rule) \<in> set rules. \<forall>path. map_of mappings tag = Some path \<longrightarrow>
        field_ok re cfgName m path rule)"
proof -
  have "validateFields re rules mappings cfgName m sfx = Inr () \<longleftrightarrow>
     List.map_filter (\<lambda>(tag, rule). case map_of mappings tag of None \<Rightarrow> None
       | Some path \<Rightarrow> fieldProblem re cfgName m path (tag @ sfx) rule) rules = []"
    by (auto simp: validateFields_def Let_def List.map_filter_simps)
  then show ?thesis
    by (auto simp: map_filter_Nil fieldProblem_None split: option.splits)
qed

text \<open>The label under which problems are reported plays no part in the verdict.\<close>

lemma validateFields_sfx:
  "validateFields re rules mappings cfgName m sfx = Inr () \<longleftrightarrow>
   validateFields re rules mappings cfgName m sfx' = Inr ()"
  by (simp add: validateFields_ok)

lemma validateItems_ok:
  "validateItems re rc cfgName i items = Inr () \<longleftrightarrow>
     (\<forall>im. JObj im \<in> set items \<longrightarrow>
        validateFields re (rc_Validate rc) (rc_ItemMappings rc) cfgName im [] = Inr ())"
proof (induction re rc cfgName i items rule: validateItems.induct)
  case (2 re rc cfgName i itemMap items)
  show ?case
  proof (cases "validateFields re (rc_Validate rc) (rc_ItemMappings rc) cfgName itemMap (item_suffix i)")
    case (Inl e)
    with validateFields_sfx [of re "rc_Validate rc" "rc_ItemMappings rc" cfgName itemMap "item_suffix i" "[]"]
    show ?thesis by auto
  next
    case (Inr u)
    with 2 validateFields_sfx [of re "rc_Validate rc" "rc_ItemMappings rc" cfgName itemMap "item_suffix i" "[]"]
    show ?thesis by auto
  qed
qed auto

definition item_ok :: "regexp \<Rightarrow> string \<Rightarrow> (string, FieldValidation) gomap \<Rightarrow> json \<Rightarrow> bool" where
  "item_ok re cfgName rules v =
     (case v of
        JObj im \<Rightarrow> list_all (\<lambda>fr. field_ok re cfgName im (fst fr) (snd fr)) rules
      | _ \<Rightarrow> True)"

lemma itemProblems_Nil:
  "itemProblems re cfgName lp rules i items = [] \<longleftrightarrow> list_all (item_ok re cfgName rules) items"
  by (induction re cfgName lp rules i items rule: itemProblems.induct)
    (simp_all add: item_ok_def map_filter_Nil fieldProblem_None list_all_iff case_prod_beta')

lemma validateEngineLists_ok:
  "validateEngineLists re lvs cfgName m = Inr () \<longleftrightarrow>
     (\<forall>(lp, rules) \<in> set lvs. \<forall>v. lookupRawPath m lp = Some v \<longrightarrow>
        (\<exists>items. v = JArr items \<and> list_all (item_ok re cfgName rules) items))"
proof -
  have "validateEngineLists re lvs cfgName m = Inr () \<longleftrightarrow>
      (\<forall>lv \<in> set lvs. listProblems re cfgName m lv = [])"
    by (auto simp: validateEngineLists_def Let_def)
  moreover have "listProblems re cfgName m lv = [] \<longleftrightarrow>
     (\<forall>v. lookupRawPath m (fst lv) = Some v \<longrightarrow>
        (\<exists>items. v = JArr items \<and> list_all (item_ok re cfgName (snd lv)) items))" for lv
    by (simp add: listProblems_def itemProblems_Nil split: option.splits json.splits)
  ultimately show ?thesis by (simp add: case_prod_beta')
qed

section \<open>Substitution in structured text\<close>

lemma ReplaceAll_no_open:
  "CHR ''<'' \<notin> set t \<Longrightarrow> ReplaceAll (t @ s) (bracket n) v = t @ ReplaceAll s (bracket n) v"
  by (induction t) (auto simp: bracket_def)

lemma ReplaceAll_hit: "ReplaceAll (bracket n @ s) (bracket n) v = v @ ReplaceAll s (bracket n) v"
proof -
  have eq: "bracket n @ s = CHR ''<'' # (n @ ''>'' @ s)" and len: "length (bracket n) - 1 = length (n @ ''>'')"
    by (simp_all add: bracket_def)
  have "prefix (bracket n) (CHR ''<'' # (n @ ''>'' @ s))" by (simp add: bracket_def)
  moreover have "drop (length (bracket n) - 1) (n @ ''>'' @ s) = s" unfolding len by simp
  ultimately show ?thesis unfolding eq by (subst ReplaceAll.simps) (simp add: bracket_def)
qed

lemma bracket_prefix:
  assumes "wf_name n" "wf_name m" "prefix (bracket n) (bracket m @ s)"
  shows "m = n"
proof -
  have "takeWhile (\<lambda>x. x \<noteq> CHR ''>'') (m @ CHR ''>'' # s) = m"
    using assms(2) takeWhile_name [of m s] by (simp add: wf_name_def)
  moreover obtain r where "m @ CHR ''>'' # s = n @ CHR ''>'' # r"
    using assms(3) by (auto simp: bracket_def prefix_def)
  moreover have "takeWhile (\<lambda>x. x \<noteq> CHR ''>'') (n @ CHR ''>'' # r) = n" for r
    using assms(1) takeWhile_name [of n r] by (simp add: wf_name_def)
  ultimately show ?thesis by simp
qed

lemma ReplaceAll_miss:
  assumes "wf_name n" "wf_name m" "m \<noteq> n"
  shows "ReplaceAll (bracket m @ s) (bracket n) v = bracket m @ ReplaceAll s (bracket n) v"
proof -
  have "\<not> prefix (bracket n) (CHR ''<'' # (m @ ''>'' @ s))"
    using bracket_prefix [OF assms(1,2), of s] assms(3) by (auto simp: bracket_def)
  then have "ReplaceAll (CHR ''<'' # (m @ ''>'' @ s)) (bracket n) v =
      CHR ''<'' # ReplaceAll ((m @ ''>'') @ s) (bracket n) v"
    by (subst ReplaceAll.simps) (simp add: bracket_def)
  also have "ReplaceAll ((m @ ''>'') @ s) (bracket n) v = (m @ ''>'') @ ReplaceAll s (bracket n) v"
    using assms(2) by (intro ReplaceAll_no_open) (simp add: wf_name_def)
  finally show ?thesis by (simp add: bracket_def)
qed

text \<open>Replacing the placeholder \<open><n>\<close> in a printed text is replacing the piece \<open>Var n\<close>.\<close>

definition fill1 :: "string \<Rightarrow> string \<Rightarrow> piece \<Rightarrow> piece list" where
  "fill1 n v p = (if p = Var n then map Lit v else [p])"

lemma ReplaceAll_pieces:
  "list_all wf_piece ps \<Longrightarrow> wf_name n \<Longrightarrow>
     ReplaceAll (print_pieces ps) (bracket n) v = print_pieces (concat (map (fill1 n v) ps))"
proof (induction ps)
  case Nil
  then show ?case by (simp add: bracket_def)
next
  case (Cons p ps)
  show ?case
  proof (cases p)
    case (Lit c)
    with Cons.prems have "CHR ''<'' \<notin> set [c]" by auto
    with Lit Cons ReplaceAll_no_open [of "[c]" "print_pieces ps" n v] show ?thesis
      by (simp add: fill1_def del: ReplaceAll.simps)
  next
    case (Var m)
    with Cons ReplaceAll_hit [of n "print_pieces ps" v] ReplaceAll_miss [of n m "print_pieces ps" v]
    show ?thesis by (simp add: fill1_def del: ReplaceAll.simps)
  qed
qed

definition tag_mods :: "(string \<times> string) list \<Rightarrow> modification list" where
  "tag_mods tvs = map (\<lambda>(t, v). \<lparr>oldValue = bracket t, newValue = v\<rparr>) tvs"

definition fill :: "(string \<times> string) list \<Rightarrow> piece \<Rightarrow> piece list" where
  "fill tvs p =
     (case p of
        Lit c \<Rightarrow> [Lit c]
      | Var n \<Rightarrow> (case map_of tvs n of Some v \<Rightarrow> map Lit v | None \<Rightarrow> [Var n]))"

lemma fill_Lits [simp]: "concat (map (fill tvs) (map Lit s)) = map Lit s"
  by (induction s) (simp_all add: fill_def)

lemma fill_Cons: "concat (map (fill tvs) (fill1 t v p)) = fill ((t, v) # tvs) p"
proof (cases p)
  case (Lit c)
  then show ?thesis by (simp add: fill1_def fill_def)
next
  case (Var n)
  show ?thesis
  proof (cases "n = t")
    case True
    with Var have "fill1 t v p = map Lit v" "fill ((t, v) # tvs) p = map Lit v"
      by (simp_all add: fill1_def fill_def)
    then show ?thesis by (simp only: fill_Lits)
  next
    case False
    with Var show ?thesis by (simp add: fill1_def fill_def)
  qed
qed

lemma wf_fill1: "CHR ''<'' \<notin> set v \<Longrightarrow> wf_piece p \<Longrightarrow> list_all wf_piece (fill1 n v p)"
  by (auto simp: fill1_def intro: wf_Lits)

lemma replace_mods_pieces:
  "list_all wf_piece ps \<Longrightarrow> list_all (\<lambda>(t, v). wf_name t \<and> CHR ''<'' \<notin> set v) tvs \<Longrightarrow>
     replace_mods (print_pieces ps) (tag_mods tvs) = print_pieces (concat (map (fill tvs) ps))"
proof (induction tvs arbitrary: ps)
  case Nil
  have "fill [] = (\<lambda>p. [p])" by (auto simp: fill_def fun_eq_iff split: piece.splits)
  then show ?case by (simp add: replace_mods_def tag_mods_def)
next
  case (Cons tv tvs)
  obtain t v where tv: "tv = (t, v)" by (cases tv)
  let ?qs = "concat (map (fill1 t v) ps)"
  have "list_all wf_piece ?qs"
    using Cons.prems tv by (intro wf_concat wf_fill1) simp_all
  moreover have "replace_mods (print_pieces ps) (tag_mods (tv # tvs)) =
      replace_mods (print_pieces ?qs) (tag_mods tvs)"
    using Cons.prems tv by (simp add: replace_mods_def tag_mods_def ReplaceAll_pieces)
  ultimately have "replace_mods (print_pieces ps) (tag_mods (tv # tvs)) =
      print_pieces (concat (map (fill tvs) ?qs))"
    using Cons by simp
  also have "concat (map (fill tvs) ?qs) = concat (map (\<lambda>p. concat (map (fill tvs) (fill1 t v p))) ps)"
    by (induction ps) simp_all
  finally show ?case by (simp only: fill_Cons tv)
qed

definition mapping_values :: "(string, string) gomap \<Rightarrow> string \<Rightarrow> obj \<Rightarrow> string \<Rightarrow>
    (string \<times> string) list" where
  "mapping_values mappings cfgName m sfx =
     map (\<lambda>(tag, path). (tag @ sfx,
            case lookupPath cfgName m path of Some v \<Rightarrow> v | None \<Rightarrow> [])) mappings"

lemma buildMods_tags: "buildMods mappings cfgName m sfx = tag_mods (mapping_values mappings cfgName m sfx)"
  by (auto simp: buildMods_def tag_mods_def mapping_values_def bracket_def)

lemma map_of_mapping_values:
  "map_of (mapping_values mappings cfgName m sfx) (t @ sfx) =
     map_option (\<lambda>path. case lookupPath cfgName m path of Some v \<Rightarrow> v | None \<Rightarrow> []) (map_of mappings t)"
  by (induction mappings) (auto simp: mapping_values_def)

section \<open>Applying a rule\<close>

lemma applyItems_frame:
  "applyItems rc cfgName f i items s = (r, s') \<Longrightarrow>
     (\<And>j im. j < length items \<Longrightarrow> items ! j = JObj im \<Longrightarrow> q \<noteq> IndexedResourceFile f (i + j)) \<Longrightarrow>
     content_at s' q = content_at s q"
proof (induction items arbitrary: i s)
  case Nil
  then show ?case by simp
next
  case (Cons v items)
  have later: "content_at s' q = content_at s1 q" if "applyItems rc cfgName f (i + 1) items s1 = (r, s')" for s1
  proof (rule Cons.IH [OF that])
    fix j im assume "j < length items" "items ! j = JObj im"
    with Cons.prems(2) [of "Suc j" im] show "q \<noteq> IndexedResourceFile f (i + 1 + j)" by simp
  qed
  show ?case
  proof (cases "\<exists>im. v = JObj im")
    case False
    with Cons.prems(1) have "applyItems rc cfgName f (i + 1) items s = (r, s')" by (cases v) auto
    then show ?thesis by (rule later)
  next
    case True
    then obtain im where v: "v = JObj im" by auto
    with Cons.prems(2) [of 0 im] have q: "q \<noteq> IndexedResourceFile f i" by simp
    let ?mods = "buildMods (rc_ItemMappings rc) cfgName im (item_suffix i)"
    obtain r1 s1 where a: "applyMods (IndexedResourceFile f i) ?mods s = (r1, s1)"
      by (cases "applyMods (IndexedResourceFile f i) ?mods s")
    show ?thesis
    proof (cases r1)
      case (Inl e)
      with a have "s1 = s" by (simp add: applyMods_err)
      with Inl a v Cons.prems(1) show ?thesis by (simp add: andThen_Inl)
    next
      case (Inr u)
      with a v Cons.prems(1) have "applyItems rc cfgName f (i + 1) items s1 = (r, s')"
        by (simp add: andThen_Inr)
      from later [OF this] modifyFileValue_content [of "IndexedResourceFile f i" ?mods s u s1 q] a Inr q
      show ?thesis by (simp add: applyMods_ok)
    qed
  qed
qed

lemma applyItems_ok:
  "applyItems rc cfgName f i items s = (Inr u, s') \<Longrightarrow> j < length items \<Longrightarrow> items ! j = JObj im \<Longrightarrow>
     \<exists>c. content_at s (IndexedResourceFile f (i + j)) = Some c \<and>
       content_at s' (IndexedResourceFile f (i + j)) =
         Some (replace_mods c (buildMods (rc_ItemMappings rc) cfgName im (item_suffix (i + j))))"
proof (induction items arbitrary: i s j)
  case Nil
  then show ?case by simp
next
  case (Cons v items)
  show ?case
  proof (cases j)
    case 0
    with Cons.prems have v: "v = JObj im" by simp
    let ?f = "IndexedResourceFile f i" and ?mods = "buildMods (rc_ItemMappings rc) cfgName im (item_suffix i)"
    from Cons.prems(1) v obtain s1 u1 where a: "modifyFileValue ?f ?mods s = (Inr u1, s1)"
      and rest: "applyItems rc cfgName f (i + 1) items s1 = (Inr u, s')"
      by (auto simp: andThen_ok applyMods_ok)
    have "content_at s' ?f = content_at s1 ?f"
      by (rule applyItems_frame [OF rest]) (auto dest: IndexedResourceFile_inj)
    with modifyFileValue_content [OF a, of ?f] 0 show ?thesis by auto
  next
    case (Suc j')
    from Cons.prems(1) obtain s1 where rest: "applyItems rc cfgName f (i + 1) items s1 = (Inr u, s')"
      and same: "content_at s1 (IndexedResourceFile f (i + j)) = content_at s (IndexedResourceFile f (i + j))"
    proof (cases "\<exists>im'. v = JObj im'")
      case False
      with Cons.prems(1) have "applyItems rc cfgName f (i + 1) items s = (Inr u, s')" by (cases v) auto
      then show ?thesis using that by blast
    next
      case True
      then obtain im' where v: "v = JObj im'" by auto
      let ?mods = "buildMods (rc_ItemMappings rc) cfgName im' (item_suffix i)"
      from Cons.prems(1) v obtain s1 u1 where a: "modifyFileValue (IndexedResourceFile f i) ?mods s = (Inr u1, s1)"
        and rest: "applyItems rc cfgName f (i + 1) items s1 = (Inr u, s')"
        by (auto simp: andThen_ok applyMods_ok)
      have "IndexedResourceFile f (i + j) \<noteq> IndexedResourceFile f i"
        using Suc by (auto dest: IndexedResourceFile_inj)
      with modifyFileValue_content [OF a, of "IndexedResourceFile f (i + j)"] rest show ?thesis
        using that by auto
    qed
    from Cons.IH [OF rest, of j'] Suc Cons.prems(2,3) same show ?thesis by simp
  qed
qed

lemma applyConfigDrivenRule_single_ok:
  assumes "applyConfigDrivenRule re rc cfg f s = (Inr u, s')" and "rc_ListField rc = []"
  shows "applyMods f (buildMods (rc_Mappings rc) (om_Name (fc_Meta cfg)) (spec_fields (fc_Spec cfg)) []) s =
    (Inr u, s')"
  using assms by (auto simp: applyConfigDrivenRule_def Let_def specToMap_def andThen_ok wrapErr_ok)

lemma applyConfigDrivenRule_list_ok:
  assumes "applyConfigDrivenRule re rc cfg f s = (Inr u, s')" and "rc_ListField rc \<noteq> []"
  obtains items where "lookupRawPath (spec_fields (fc_Spec cfg)) (rc_ListField rc) = Some (JArr items)"
    "validateItems re rc (om_Name (fc_Meta cfg)) 0 items = Inr ()"
    "applyItems rc (om_Name (fc_Meta cfg)) f 0 items s = (Inr u, s')"
  using assms
  by (auto simp: applyConfigDrivenRule_def Let_def specToMap_def andThen_ok wrapErr_ok
      split: option.splits json.splits)

end
