(* ===== verification/Pipeline.thy ===== *)
theory Pipeline
  imports Template_Refine Rules
begin

text \<open>
  The engine and the rules together, for a list rule: the template is split into one file per
  element of the list (\<open>smartNestedProcess\<close>), then the rule fills the placeholders the engine
  left, in the file of each element (\<open>applyConfigDrivenRule\<close>).  The two only work together if they
  agree on the names of the files and on the index suffix of the placeholders.
\<close>

section \<open>The split template\<close>

definition denote_item :: "node list \<Rightarrow> string \<Rightarrow> nat \<Rightarrow> obj \<Rightarrow> (piece list) res" where
  "denote_item body path index im =
     map_sum (\<lambda>e. e) (\<lambda>ps. concat (map (var_pieces index im path) ps))
       (seq_res (map (\<lambda>n. denote_node n im path) body))"

definition denote_split :: "string \<Rightarrow> node list \<Rightarrow> node list \<Rightarrow> obj \<Rightarrow> nat \<Rightarrow> obj \<Rightarrow> (piece list) res" where
  "denote_split tag body rest m index im =
     (case denote_item body (ToUpper tag) index im of
        Inl e \<Rightarrow> Inl e
      | Inr ps \<Rightarrow> (case denote_template rest m of Inl e \<Rightarrow> Inl e | Inr qs \<Rightarrow> Inr (ps @ qs)))"

lemma seq_denote_wf:
  "list_all wf_node body \<Longrightarrow> clean_obj im \<Longrightarrow>
     seq_res (map (\<lambda>n. denote_node n im path) body) = Inr ps \<Longrightarrow> list_all wf_piece ps"
proof (erule seq_res_wf)
  fix r qs assume wf: "list_all wf_node body" and im: "clean_obj im"
    and "r \<in> set (map (\<lambda>n. denote_node n im path) body)" "r = Inr qs"
  then obtain n where "n \<in> set body" "denote_node n im path = Inr qs" by auto
  then show "list_all wf_piece qs"
    using wf im denote_node_wf by (auto simp: list_all_iff simp del: clean_json.simps)
qed

lemma denote_item_wf:
  assumes "list_all wf_node body" "clean_obj im" "denote_item body path index im = Inr ps"
  shows "list_all wf_piece ps"
proof -
  from assms(3) obtain ps0 where ps0: "seq_res (map (\<lambda>n. denote_node n im path) body) = Inr ps0"
    and ps: "ps = concat (map (var_pieces index im path) ps0)"
    by (cases "seq_res (map (\<lambda>n. denote_node n im path) body)") (auto simp: denote_item_def)
  show ?thesis unfolding ps
    by (rule wf_concat [OF seq_denote_wf [OF assms(1,2) ps0]]) (rule wf_var_pieces [OF _ assms(2)])
qed

lemma denote_template_wf:
  assumes "list_all wf_node ns" "clean_obj m" "denote_template ns m = Inr ps"
  shows "list_all wf_piece ps"
  using assms(3) unfolding denote_template_def
proof (rule seq_res_wf)
  fix r qs
  assume "r \<in> set (map (\<lambda>n. case n of Piece p \<Rightarrow> Inr (top_pieces m p)
                               | Loop tag body \<Rightarrow> denote_node (Loop tag body) m []) ns)" "r = Inr qs"
  then obtain n where n: "n \<in> set ns" and q: "(case n of Piece p \<Rightarrow> Inr (top_pieces m p)
                               | Loop tag body \<Rightarrow> denote_node (Loop tag body) m []) = Inr qs" by auto
  then have wf: "wf_node n" using assms(1) by (auto simp: list_all_iff)
  show "list_all wf_piece qs"
  proof (cases n)
    case (Piece p)
    with q wf wf_node_Piece assms(2) wf_top_pieces show ?thesis by auto
  next
    case (Loop tag body)
    with q have "denote_node n m [] = Inr qs" by (simp del: denote_node.simps)
    with wf assms(2) show ?thesis by (rule denote_node_wf)
  qed
qed

lemma renderBlockBody_denote:
  assumes wf: "list_all wf_node body" and im: "clean_obj im"
  shows "renderBlockBody (print_nodes body) (node_blocks body 0) im path j =
    map_sum (\<lambda>e. e) print_pieces (denote_item body path j im)"
proof -
  have "renderBlocks (\<lambda>nb. renderLoop nb im path) (\<lambda>s. s) ([] @ print_pieces [] @ print_nodes body)
      (length ([] :: string)) (node_blocks body (length ([] :: string) + length (print_pieces []))) =
    map_sum (\<lambda>e. e) (\<lambda>r. print_pieces (concat (map (\<lambda>p. [p]) [])) @ print_pieces r)
      (seq_res (map (\<lambda>n. denote_node n im path) body))"
  proof (rule renderBlocks_nodes [where sub = "\<lambda>p. [p]"])
    fix tag' body' s e
    assume "Loop tag' body' \<in> set body"
    then have "wf_node (Loop tag' body')" using wf by (auto simp: list_all_iff)
    then show "renderLoop \<lparr>lb_tag = ToUpper tag', lb_body = print_nodes body', lb_start = s, lb_end = e\<rparr> im path =
        map_sum (\<lambda>e. e) print_pieces (denote_node (Loop tag' body') im path)"
      using im by (rule renderLoop_denote)
  qed (use wf in simp_all)
  then have walk: "renderBlocks (\<lambda>nb. renderLoop nb im path) (\<lambda>s. s) (print_nodes body) 0 (node_blocks body 0) =
      map_sum (\<lambda>e. e) print_pieces (seq_res (map (\<lambda>n. denote_node n im path) body))" by simp
  show ?thesis
  proof (cases "seq_res (map (\<lambda>n. denote_node n im path) body)")
    case (Inl e)
    then show ?thesis by (simp add: renderBlockBody_def walk denote_item_def)
  next
    case (Inr ps)
    with seq_denote_wf [OF wf im Inr] show ?thesis
      by (simp add: renderBlockBody_def walk denote_item_def processVariables_pieces)
  qed
qed

lemma renderSplitItem_denote:
  assumes "wf_node (Loop tag body)" "list_all wf_node rest" "clean_obj m" "clean_obj im"
    and "lb_tag b = ToUpper tag" "lb_body b = print_nodes body"
  shows "renderSplitItem b (node_blocks body 0) (print_nodes rest) (node_blocks rest 0) m j im =
    map_sum (\<lambda>e. e) print_pieces (denote_split tag body rest m j im)"
  using assms renderBlockBody_denote [of body im "ToUpper tag" j] renderInPlace_denote [of rest m]
  by (cases "denote_item body (ToUpper tag) j im"; cases "denote_template rest m")
    (simp_all add: renderSplitItem_def denote_split_def)

lemma denote_split_wf:
  assumes "wf_node (Loop tag body)" "list_all wf_node rest" "clean_obj m" "clean_obj im"
    and "denote_split tag body rest m j im = Inr ps"
  shows "list_all wf_piece ps"
  using assms denote_item_wf [of body im "ToUpper tag" j] denote_template_wf [of rest m]
  by (auto simp: denote_split_def split: sum.splits simp del: clean_json.simps)

section \<open>Clean resources\<close>

lemma clean_normalizza: "clean_json v \<Longrightarrow> clean_json (normalizzaMappaInMaiuscolo v)"
proof (induction v rule: normalizzaMappaInMaiuscolo.induct)
  case (1 kvs)
  then show ?case by (auto simp: list_all_iff dest!: subsetD [OF set_put_all])
next
  case (2 vs)
  then show ?case by (auto simp: list_all_iff)
qed simp_all

lemma clean_lookupPath:
  "lookupPath cfgName m path = Some v \<Longrightarrow> clean_obj m \<Longrightarrow> CHR ''<'' \<notin> set cfgName \<Longrightarrow> CHR ''<'' \<notin> set v"
  by (auto simp: lookupPath_def lookupRawPath_def Let_def simp del: clean_json.simps(2)
      split: if_splits option.splits json.splits dest!: clean_walk)

definition clean_cfg :: "FortigateConfig \<Rightarrow> bool" where
  "clean_cfg cfg = (clean_obj (spec_fields (fc_Spec cfg)) \<and> CHR ''<'' \<notin> set (om_Name (fc_Meta cfg)))"

lemma clean_buildSpecMap: "clean_cfg cfg \<Longrightarrow> buildSpecMap cfg = Inr m \<Longrightarrow> clean_obj m"
  using clean_normalizza [of "JObj (spec_fields (fc_Spec cfg))"]
  by (simp add: clean_cfg_def buildSpecMap_def del: clean_json.simps)

section \<open>Names under the final name\<close>

lemma IndexedResourceFile_stable:
  "splitTerraformExt (finalName f) = splitTerraformExt f \<Longrightarrow>
     IndexedResourceFile (finalName f) j = IndexedResourceFile f j"
  by (simp add: IndexedResourceFile_def)

lemma finalName_tf:
  "splitTerraformExt (finalName (b @ ''.tf'')) = splitTerraformExt (b @ ''.tf'')"
  "splitTerraformExt (finalName (b @ ''.tf'' @ ''.tmpl'')) = splitTerraformExt (b @ ''.tf'' @ ''.tmpl'')"
  by (simp_all add: finalName_def splitTerraformExt_tf [simplified])

section \<open>The list rule over \<open>extraItems\<close>\<close>

lemma lookup_extraItems:
  fixes cfg :: FortigateConfig
  assumes "fcs_ExtraItems (fc_Spec cfg) = items" "items \<noteq> []"
  shows "lookupRawPath (spec_fields (fc_Spec cfg)) ''spec.extraItems'' = Some (JArr items)"
proof -
  have "filter (\<lambda>p. p \<noteq> []) (Split (TrimPrefix ''spec.extraItems'' ''spec.'') (CHR ''.'')) = [''extraItems'']"
    by code_simp
  then show ?thesis
    using specToMap_lookup [of cfg "spec_fields (fc_Spec cfg)"] assms
    by (simp add: lookupRawPath_def specToMap_def)
qed

lemma resolve_EXTRAITEMS:
  assumes "buildSpecMap cfg = Inr m" "fcs_ExtraItems (fc_Spec cfg) = items" "items \<noteq> []"
  shows "resolveListPath m ''EXTRAITEMS'' = Some (map normalizzaMappaInMaiuscolo items)"
  using buildSpecMap_lookup(2) [OF assms(1)] assms(2,3) by (simp add: resolveListPath_def)

lemma node_blocks_first:
  "\<exists>b bs. node_blocks (Loop tag body # rest) 0 = b # bs \<and> lb_tag b = ToUpper tag \<and> lb_start b = 0 \<and>
     lb_body b = print_nodes body \<and> drop (lb_end b) (print_nodes (Loop tag body # rest)) = print_nodes rest"
  by (simp add: Let_def)

text \<open>What the engine writes for element \<open>j\<close>.\<close>

lemma split_output:
  assumes c: "content_at s f = Some c" "TrimSpace c = print_nodes (Loop tag body # rest)"
    and wf: "wf_node (Loop tag body)" "list_all wf_node rest"
    and tag: "ToUpper tag = ''EXTRAITEMS''"
    and cfg: "clean_cfg cfg" "fcs_ExtraItems (fc_Spec cfg) = items" "j < length items" "items ! j = JObj im"
    and run: "smartNestedProcess f cfg s = (Inr (), s1)"
    and m: "buildSpecMap cfg = Inr m" and im': "normalizzaMappaInMaiuscolo (JObj im) = JObj im'"
  shows "\<exists>ps. denote_split tag body rest m (j + 1) im' = Inr ps \<and> list_all wf_piece ps \<and>
    content_at s1 (IndexedResourceFile f j) = Some (print_pieces ps)"
proof -
  let ?ns = "Loop tag body # rest"
  obtain b bs where b: "node_blocks ?ns 0 = b # bs" "lb_tag b = ToUpper tag" "lb_start b = 0"
    "lb_body b = print_nodes body" "drop (lb_end b) (print_nodes ?ns) = print_nodes rest"
    using node_blocks_first by blast
  have find: "findTopLevelLoops (TrimSpace c) = Inr (b # bs)"
    unfolding c(2) b(1) [symmetric] using wf by (intro findTopLevelLoops_print) simp
  have ref: "\<not> refused s f"
    using run c(1) by (auto simp: smartNestedProcess_def andThen_ok wrapErr_ok ReadFile_ok)
  have split: "splitIntoFiles (TrimSpace c) f (b # bs) m s = (Inr (), s1)"
    using smartNestedProcess_split [OF run c(1) ref m find] b(3) by simp
  have items: "resolveListPath m (lb_tag (hd (b # bs))) = Some (map normalizzaMappaInMaiuscolo items)"
    using resolve_EXTRAITEMS [OF m cfg(2)] cfg(3) b(2) tag by (cases items) auto
  have res: "resolveItem (map normalizzaMappaInMaiuscolo items ! j) = Some im'"
    using cfg(3,4) im' by simp
  have sib: "findTopLevelLoops (drop (lb_end (hd (b # bs))) (TrimSpace c)) = Inr (node_blocks rest 0)"
    using c(2) b(5) findTopLevelLoops_print [OF wf(2)] by simp
  have nest: "findTopLevelLoops (lb_body (hd (b # bs))) = Inr (node_blocks body 0)"
    using b(4) wf(1) findTopLevelLoops_print [of body] by simp
  obtain out where out: "renderSplitItem b (node_blocks body 0) (drop (lb_end b) (TrimSpace c))
      (node_blocks rest 0) m (j + 1) im' = Inr out"
    and out_file: "content_at s1 (IndexedResourceFile f j) = Some out"
    using splitIntoFiles_ok [OF split items _ res sib nest] cfg(3) by auto
  have cm: "clean_obj m" by (rule clean_buildSpecMap [OF cfg(1) m])
  have "clean_json (JArr items)"
    using clean_walk [of "JObj (spec_fields (fc_Spec cfg))"] lookup_extraItems [OF cfg(2)] cfg(1,3)
    unfolding clean_cfg_def lookupRawPath_def by (metis length_0_conv less_nat_zero_code)
  then have "clean_json (JObj im)" using cfg(3,4) by (auto simp: list_all_length simp del: clean_json.simps(2))
  from clean_normalizza [OF this] im' have cim: "clean_obj im'" by simp
  have "map_sum (\<lambda>e. e) print_pieces (denote_split tag body rest m (j + 1) im') = Inr out"
    using out renderSplitItem_denote [OF wf cm cim b(2,4)] c(2) b(5) by simp
  then obtain ps where "denote_split tag body rest m (j + 1) im' = Inr ps" "out = print_pieces ps"
    by (cases "denote_split tag body rest m (j + 1) im'") auto
  with denote_split_wf [OF wf cm cim] out_file show ?thesis by blast
qed

text \<open>What is in the file of element \<open>j\<close> when the rule has been applied.\<close>

lemma mapping_values_wf:
  assumes "list_all (\<lambda>(t, p). wf_name t) mappings" "clean_obj im" "CHR ''<'' \<notin> set cfgName"
  shows "list_all (\<lambda>(t, v). wf_name t \<and> CHR ''<'' \<notin> set v)
    (mapping_values mappings cfgName im (item_suffix j))"
  using assms
proof (induction mappings)
  case Nil
  then show ?case by (simp add: mapping_values_def)
next
  case (Cons tp mappings)
  obtain t p where tp: "tp = (t, p)" by (cases tp)
  have "CHR ''<'' \<notin> set (case lookupPath cfgName im p of None \<Rightarrow> [] | Some v \<Rightarrow> v)"
    using clean_lookupPath [OF _ assms(2,3)] by (auto split: option.splits)
  with Cons tp show ?case
    using wf_suffixed [of t "j + 1"]
    by (simp add: mapping_values_def item_suffix_def del: clean_json.simps)
qed

lemma list_rule_output:
  assumes c: "content_at s f = Some c" "TrimSpace c = print_nodes (Loop tag body # rest)"
    and wf: "wf_node (Loop tag body)" "list_all wf_node rest"
    and tag: "ToUpper tag = ''EXTRAITEMS''"
    and cfg: "clean_cfg cfg" "fcs_ExtraItems (fc_Spec cfg) = items" "j < length items" "items ! j = JObj im"
    and rc: "rc_ListField rc = ''spec.extraItems''" "list_all (\<lambda>(t, p). wf_name t) (rc_ItemMappings rc)"
    and name: "splitTerraformExt (finalName f) = splitTerraformExt f"
    and run1: "smartNestedProcess f cfg s = (Inr (), s1)"
    and run2: "applyConfigDrivenRule re rc cfg (finalName f) s1 = (Inr (), s2)"
    and m: "buildSpecMap cfg = Inr m" and im': "normalizzaMappaInMaiuscolo (JObj im) = JObj im'"
  shows "\<exists>ps. denote_split tag body rest m (j + 1) im' = Inr ps \<and>
    content_at s2 (IndexedResourceFile f j) = Some (print_pieces (concat (map
      (fill (mapping_values (rc_ItemMappings rc) (om_Name (fc_Meta cfg)) im (item_suffix j))) ps)))"
proof -
  obtain ps where ps: "denote_split tag body rest m (j + 1) im' = Inr ps" "list_all wf_piece ps"
    "content_at s1 (IndexedResourceFile f j) = Some (print_pieces ps)"
    using split_output [OF c wf tag cfg run1 m im'] by blast
  let ?n = "om_Name (fc_Meta cfg)"
  have ne: "items \<noteq> []" using cfg(3) by auto
  have lf: "rc_ListField rc \<noteq> []" using rc(1) by simp
  obtain items' where "lookupRawPath (spec_fields (fc_Spec cfg)) (rc_ListField rc) = Some (JArr items')"
    "applyItems rc ?n (finalName f) 0 items' s1 = (Inr (), s2)"
    by (rule applyConfigDrivenRule_list_ok [OF run2 lf]) blast
  with lookup_extraItems [OF cfg(2) ne] rc(1)
  have ap: "applyItems rc ?n (finalName f) 0 items s1 = (Inr (), s2)" by simp
  have out: "content_at s2 (IndexedResourceFile f j) =
      Some (replace_mods (print_pieces ps) (buildMods (rc_ItemMappings rc) ?n im (item_suffix j)))"
    using applyItems_ok [OF ap cfg(3,4)] ps(3) IndexedResourceFile_stable [OF name] by simp
  have "clean_json (JArr items)"
    using clean_walk [of "JObj (spec_fields (fc_Spec cfg))"] lookup_extraItems [OF cfg(2) ne] cfg(1)
    unfolding clean_cfg_def lookupRawPath_def by metis
  then have cim: "clean_obj im" using cfg(3,4) by (auto simp: list_all_length simp del: clean_json.simps(2))
  have "CHR ''<'' \<notin> set ?n" using cfg(1) by (simp add: clean_cfg_def)
  from mapping_values_wf [OF rc(2) cim this] out ps show ?thesis
    by (auto simp: buildMods_tags replace_mods_pieces)
qed

end
