(* ===== verification/Registry.thy ===== *)
theory Registry
  imports Rules
begin

text \<open>
  The process-wide state of the controllers and how it is loaded: the registry of operator rules
  (\<open>operator_rules.go\<close>), the merge of several rule sources (\<open>rule_from_configmap.go\<close>,
  \<open>LoadOperatorRulesFromDirectory\<close>), the common mappings (\<open>common_config.go\<close>) and the operator
  configuration (\<open>operator_config.go\<close>).

  Decoding of JSON text into the typed structures is \<open>encoding/json\<close>; it is the parameter
  \<open>dec\<close> of the loaders.
\<close>

record OperatorConfig =
  oc_CommonTemplateSuffix :: string
  oc_TerraformStateFileName :: string
  oc_S3Region :: string

record CommonMappingConfig =
  cm_Mappings :: "(string, string) gomap"

record RulesFile =
  rf_Common :: CommonMappingConfig
  rf_Rules :: "(string, RuleMappingConfig) gomap"

type_synonym OperatorRuleHandler = "FortigateConfig \<Rightarrow> string \<Rightarrow> (fs, unit) op"

text \<open>The package variables.\<close>

record registry =
  operatorRuleRegistry :: "(string, OperatorRuleHandler) gomap"
  activeCommonMappings :: "(string, string) gomap"
  activeOperatorConfig :: OperatorConfig

section \<open>operator_rules.go\<close>

definition RegisterOperatorRule :: "string \<Rightarrow> OperatorRuleHandler \<Rightarrow> (registry, unit) op" where
  "RegisterOperatorRule name handler g =
     (if name = [] then (Inl (Panic ''RegisterOperatorRule called with an empty name''), g)
      else if map_of (operatorRuleRegistry g) name \<noteq> None
      then (Inl (Panic (''operator rule registered more than once: '' @ name)), g)
      else (Inr (), g\<lparr>operatorRuleRegistry := map_put (operatorRuleRegistry g) name handler\<rparr>))"

definition lookupOperatorRule :: "registry \<Rightarrow> string \<Rightarrow> OperatorRuleHandler option" where
  "lookupOperatorRule g name = map_of (operatorRuleRegistry g) name"

definition KnownOperatorRules :: "registry \<Rightarrow> string list" where
  "KnownOperatorRules g = map fst (operatorRuleRegistry g)"

section \<open>operator_config.go\<close>

definition DefaultOperatorConfig :: OperatorConfig where
  "DefaultOperatorConfig =
     \<lparr>oc_CommonTemplateSuffix = ''00_common.tf'', oc_TerraformStateFileName = ''firewall.tfstate'',
      oc_S3Region = ''us-east-1''\<rparr>"

definition SetOperatorConfig :: "OperatorConfig \<Rightarrow> registry \<Rightarrow> registry" where
  "SetOperatorConfig cfg g = g\<lparr>activeOperatorConfig := cfg\<rparr>"

definition CurrentOperatorConfig :: "registry \<Rightarrow> OperatorConfig" where
  "CurrentOperatorConfig g = activeOperatorConfig g"

text \<open>The decoder gets the defaults and overwrites the fields that are present.\<close>

definition LoadOperatorConfigFromFile :: "(string \<Rightarrow> OperatorConfig \<Rightarrow> OperatorConfig res) \<Rightarrow> string \<Rightarrow>
    (fs, OperatorConfig) op" where
  "LoadOperatorConfigFromFile dec path =
     andThen (wrapErr (Wrapf (''lettura configurazione operator '' @ path)) (ReadFile path)) (\<lambda>data.
     wrapErr (Wrapf (''parsing configurazione operator '' @ path))
       (liftRes (dec data DefaultOperatorConfig)))"

section \<open>common_config.go\<close>

definition commonRuntimeValueNames :: "string list" where
  "commonRuntimeValueNames =
     [''fortiIP'', ''token'', ''tfStateKey'', ''s3Bucket'', ''s3Region'', ''s3Endpoint'']"

definition defaultCommonMappings :: "(string, string) gomap" where
  "defaultCommonMappings =
     [(''FGT_IP_OR_NAME'', ''fortiIP''),
      (''FGT_API_TOKEN'', ''token''),
      (''FGT_S3STATE_KEY'', ''tfStateKey''),
      (''FGT_S3STATE_BUCKET'', ''s3Bucket''),
      (''FGT_S3STATE_REGION'', ''s3Region''),
      (''FGT_S3STATE_ENDPOINT'', ''s3Endpoint'')]"

definition SetCommonConfig :: "CommonMappingConfig \<Rightarrow> registry \<Rightarrow> registry" where
  "SetCommonConfig cfg g =
     (if cm_Mappings cfg = [] then g\<lparr>activeCommonMappings := defaultCommonMappings\<rparr>
      else g\<lparr>activeCommonMappings := cm_Mappings cfg\<rparr>)"

definition CurrentCommonMappings :: "registry \<Rightarrow> (string, string) gomap" where
  "CurrentCommonMappings g = activeCommonMappings g"

definition commonRuntimeValues :: "registry \<Rightarrow> string \<Rightarrow> string \<Rightarrow> string \<Rightarrow> string \<Rightarrow> string \<Rightarrow>
    (string, string) gomap" where
  "commonRuntimeValues g token fortiIP bucketName tfStateName s3Url =
     [(''fortiIP'', fortiIP),
      (''token'', token),
      (''tfStateKey'', tfStateName),
      (''s3Bucket'', bucketName),
      (''s3Region'', oc_S3Region (CurrentOperatorConfig g)),
      (''s3Endpoint'', s3Url)]"

definition buildCommonMods :: "registry \<Rightarrow> string \<Rightarrow> string \<Rightarrow> string \<Rightarrow> string \<Rightarrow> string \<Rightarrow>
    modification list" where
  "buildCommonMods g token fortiIP bucketName tfStateName s3Url =
     (let values = commonRuntimeValues g token fortiIP bucketName tfStateName s3Url in
      map (\<lambda>(tag, valueName).
             \<lparr>oldValue = ''<'' @ tag @ ''>'',
              newValue = (case map_of values valueName of Some v \<Rightarrow> v | None \<Rightarrow> [])\<rparr>)
        (CurrentCommonMappings g))"

section \<open>Loading rules\<close>

primrec registerAll :: "regexp \<Rightarrow> (string \<times> RuleMappingConfig) list \<Rightarrow> (registry, unit) op" where
  "registerAll re [] = ret ()"
| "registerAll re (nc # ncs) =
     andThen (RegisterOperatorRule (fst nc) (applyConfigDrivenRule re (snd nc))) (\<lambda>_. registerAll re ncs)"

definition applyRulesFile :: "regexp \<Rightarrow> RulesFile \<Rightarrow> (registry, unit) op" where
  "applyRulesFile re rf g = registerAll re (rf_Rules rf) (SetCommonConfig (rf_Common rf) g)"

definition LoadOperatorRulesFromBytes :: "regexp \<Rightarrow> (string \<Rightarrow> RulesFile res) \<Rightarrow> string \<Rightarrow>
    (registry, unit) op" where
  "LoadOperatorRulesFromBytes re dec data =
     andThen (wrapErr (Wrapf ''parsing file regole'') (liftRes (dec data))) (applyRulesFile re)"

text \<open>
  The loaders that read files and then change the registry work on both.
\<close>

definition onFst :: "('s, 'a) op \<Rightarrow> ('s \<times> 't, 'a) op" where
  "onFst m st = (case m (fst st) of (r, s') \<Rightarrow> (r, (s', snd st)))"

definition onSnd :: "('t, 'a) op \<Rightarrow> ('s \<times> 't, 'a) op" where
  "onSnd m st = (case m (snd st) of (r, t') \<Rightarrow> (r, (fst st, t')))"

definition LoadOperatorRulesFromFile :: "regexp \<Rightarrow> (string \<Rightarrow> RulesFile res) \<Rightarrow> string \<Rightarrow>
    (fs \<times> registry, unit) op" where
  "LoadOperatorRulesFromFile re dec path =
     andThen (wrapErr (Wrapf (''lettura file regole '' @ path)) (onFst (ReadFile path))) (\<lambda>data.
     onSnd (LoadOperatorRulesFromBytes re dec data))"

section \<open>Merging rule sources\<close>

text \<open>
  \<open>mergeRules\<close> and \<open>mergePart\<close> are one round of the loops of \<open>mergeConfigMapRuleSources\<close> and of
  the \<open>WalkDir\<close> callback of \<open>LoadOperatorRulesFromDirectory\<close>, which differ in the wording of
  their errors; \<open>id\<close> is the name of the source.
\<close>

type_synonym merge_state = "(string, RuleMappingConfig) gomap \<times> CommonMappingConfig \<times> string"

primrec mergeRules :: "string \<Rightarrow> (string, RuleMappingConfig) gomap \<Rightarrow>
    (string \<times> RuleMappingConfig) list \<Rightarrow> (string, RuleMappingConfig) gomap res" where
  "mergeRules id' merged [] = Inr merged"
| "mergeRules id' merged (nc # ncs) =
     (if map_of merged (fst nc) \<noteq> None
      then Inl (Errorf ''regola %q definita piu' volte (di nuovo in %s)'' [fst nc, id'])
      else mergeRules id' (map_put merged (fst nc) (snd nc)) ncs)"

definition mergePart :: "string \<Rightarrow> RulesFile \<Rightarrow> merge_state \<Rightarrow> merge_state res" where
  "mergePart id' part st =
     (case st of (merged, common, commonDefinedIn) \<Rightarrow>
        (case mergeRules id' merged (rf_Rules part) of
           Inl e \<Rightarrow> Inl e
         | Inr merged' \<Rightarrow>
           if cm_Mappings (rf_Common part) = [] then Inr (merged', common, commonDefinedIn)
           else if commonDefinedIn \<noteq> []
           then Inl (Errorf ''sezione common definita sia in %s che in %s'' [commonDefinedIn, id'])
           else Inr (merged', rf_Common part, id')))"

primrec mergeParts :: "(string \<times> RulesFile) list \<Rightarrow> merge_state \<Rightarrow> merge_state res" where
  "mergeParts [] st = Inr st"
| "mergeParts (ip # ips) st =
     (case mergePart (fst ip) (snd ip) st of Inl e \<Rightarrow> Inl e | Inr st' \<Rightarrow> mergeParts ips st')"

record configMapRuleSource =
  cs_Namespace :: string
  cs_Name :: string
  cs_Data :: "(string, string) gomap"

definition ruleJSONKey :: string where "ruleJSONKey = ''rule.json''"

definition source_id :: "configMapRuleSource \<Rightarrow> string" where
  "source_id src = cs_Namespace src @ ''/'' @ cs_Name src"

primrec mergeSources :: "(string \<Rightarrow> RulesFile res) \<Rightarrow> configMapRuleSource list \<Rightarrow> merge_state \<Rightarrow>
    merge_state res" where
  "mergeSources dec [] st = Inr st"
| "mergeSources dec (src # srcs) st =
     (case map_of (cs_Data src) ruleJSONKey of
        None \<Rightarrow> mergeSources dec srcs st
      | Some raw \<Rightarrow>
        (case dec raw of
           Inl e \<Rightarrow> Inl (Wrapf (''parsing della ConfigMap '' @ source_id src @ '' fallito'') e)
         | Inr part \<Rightarrow>
           (case mergePart (source_id src) part st of
              Inl e \<Rightarrow> Inl e
            | Inr st' \<Rightarrow> mergeSources dec srcs st')))"

definition empty_merge :: merge_state where
  "empty_merge = ([], \<lparr>cm_Mappings = []\<rparr>, [])"

definition merged_file :: "merge_state \<Rightarrow> RulesFile" where
  "merged_file st = (case st of (merged, common, _) \<Rightarrow> \<lparr>rf_Common = common, rf_Rules = merged\<rparr>)"

definition mergeConfigMapRuleSources :: "(string \<Rightarrow> RulesFile res) \<Rightarrow> configMapRuleSource list \<Rightarrow>
    RulesFile res" where
  "mergeConfigMapRuleSources dec sources =
     (case mergeSources dec sources empty_merge of
        Inl e \<Rightarrow> Inl e
      | Inr st \<Rightarrow> Inr (merged_file st))"

text \<open>The answer of the Kubernetes list call is the argument \<open>listed\<close>.\<close>

definition LoadOperatorRulesFromConfigMaps :: "regexp \<Rightarrow> (string \<Rightarrow> RulesFile res) \<Rightarrow>
    configMapRuleSource list res \<Rightarrow> (registry, unit) op" where
  "LoadOperatorRulesFromConfigMaps re dec listed =
     andThen (wrapErr (Wrapf ''elenco ConfigMap fallito'') (liftRes listed)) (\<lambda>sources.
     andThen (liftRes (mergeConfigMapRuleSources dec sources)) (applyRulesFile re))"

text \<open>The directory walk reads the \<open>.json\<close> files in order and stops at the first error.\<close>

primrec mergeFiles :: "(string \<Rightarrow> RulesFile res) \<Rightarrow> string list \<Rightarrow> merge_state \<Rightarrow> (fs, merge_state) op" where
  "mergeFiles dec [] st = ret st"
| "mergeFiles dec (path # paths) st =
     (if \<not> HasSuffix (filepath_Base path) ''.json'' then mergeFiles dec paths st
      else
        andThen (wrapErr (Wrapf (''lettura di '' @ path @ '' fallita'')) (ReadFile path)) (\<lambda>data.
        andThen (wrapErr (Wrapf (''parsing di '' @ path @ '' fallito'')) (liftRes (dec data))) (\<lambda>part.
        andThen (liftRes (mergePart path part st)) (\<lambda>st'. mergeFiles dec paths st'))))"

definition LoadOperatorRulesFromDirectory :: "regexp \<Rightarrow> (string \<Rightarrow> RulesFile res) \<Rightarrow> string \<Rightarrow>
    (fs \<times> registry, unit) op" where
  "LoadOperatorRulesFromDirectory re dec dir =
     andThen (onFst (wrapErr (Wrapf (''attraversamento di '' @ dir @ '' fallito'')) (walk_files dir))) (\<lambda>paths.
     andThen (onFst (mergeFiles dec paths empty_merge)) (\<lambda>st.
     onSnd (applyRulesFile re (merged_file st))))"

section \<open>The registry\<close>

definition registry_ok :: "registry \<Rightarrow> bool" where
  "registry_ok g = (wf_map (operatorRuleRegistry g) \<and> [] \<notin> fst ` set (operatorRuleRegistry g))"

lemma update_fresh: "k \<notin> fst ` set m \<Longrightarrow> map_put m k v = m @ [(k, v)]"
  by (induction m) auto

lemma RegisterOperatorRule_ok:
  "RegisterOperatorRule name h g = (Inr (), g') \<longleftrightarrow>
     name \<noteq> [] \<and> name \<notin> fst ` set (operatorRuleRegistry g) \<and>
     g' = g\<lparr>operatorRuleRegistry := operatorRuleRegistry g @ [(name, h)]\<rparr>"
  by (auto simp: RegisterOperatorRule_def map_of_eq_None_iff update_fresh)

lemma RegisterOperatorRule_panic:
  "RegisterOperatorRule name h g = (Inl e, g') \<longleftrightarrow>
     g' = g \<and> (name = [] \<and> e = Panic ''RegisterOperatorRule called with an empty name'' \<or>
       name \<noteq> [] \<and> name \<in> fst ` set (operatorRuleRegistry g) \<and>
       e = Panic (''operator rule registered more than once: '' @ name))"
  by (cases "name = []"; cases "name \<in> fst ` set (operatorRuleRegistry g)")
    (auto simp: RegisterOperatorRule_def map_of_eq_None_iff)

lemma RegisterOperatorRule_inv: "RegisterOperatorRule name h g = (r, g') \<Longrightarrow> registry_ok g \<Longrightarrow> registry_ok g'"
  by (cases r) (auto simp: RegisterOperatorRule_ok RegisterOperatorRule_panic registry_ok_def wf_map_def)

lemma registerAll_inv: "registerAll re ncs g = (r, g') \<Longrightarrow> registry_ok g \<Longrightarrow> registry_ok g'"
proof (induction ncs arbitrary: g)
  case Nil
  then show ?case by simp
next
  case (Cons nc ncs)
  obtain r1 g1 where reg: "RegisterOperatorRule (fst nc) (applyConfigDrivenRule re (snd nc)) g = (r1, g1)"
    by (cases "RegisterOperatorRule (fst nc) (applyConfigDrivenRule re (snd nc)) g")
  have g1: "registry_ok g1" by (rule RegisterOperatorRule_inv [OF reg Cons.prems(2)])
  show ?case
  proof (cases r1)
    case (Inl e)
    with reg Cons.prems g1 show ?thesis by (simp add: andThen_Inl)
  next
    case (Inr u)
    with reg Cons.prems have "registerAll re ncs g1 = (r, g')" by (simp add: andThen_Inr)
    then show ?thesis using g1 by (rule Cons.IH)
  qed
qed

lemma registerAll_ok:
  "registerAll re ncs g = (Inr (), g') \<longleftrightarrow>
     [] \<notin> fst ` set ncs \<and> wf_map ncs \<and> fst ` set ncs \<inter> fst ` set (operatorRuleRegistry g) = {} \<and>
     g' = g\<lparr>operatorRuleRegistry := operatorRuleRegistry g @
              map (\<lambda>(n, rc). (n, applyConfigDrivenRule re rc)) ncs\<rparr>"
proof (induction ncs arbitrary: g)
  case Nil
  then show ?case by auto
next
  case (Cons nc ncs)
  obtain n rc where nc: "nc = (n, rc)" by (cases nc)
  show ?case
    unfolding nc
    by (auto simp: andThen_ok RegisterOperatorRule_ok Cons.IH)
qed

lemma registerAll_panics:
  "registerAll re ncs g = (Inl e, g') \<Longrightarrow> \<exists>m. e = Panic m"
  by (induction ncs arbitrary: g) (auto simp: andThen_err RegisterOperatorRule_panic)

lemma SetCommonConfig_registry [simp]:
  "operatorRuleRegistry (SetCommonConfig c g) = operatorRuleRegistry g"
  "activeOperatorConfig (SetCommonConfig c g) = activeOperatorConfig g"
  by (simp_all add: SetCommonConfig_def)

lemma applyRulesFile_ok:
  "applyRulesFile re rf g = (Inr (), g') \<longleftrightarrow>
     [] \<notin> fst ` set (rf_Rules rf) \<and> wf_map (rf_Rules rf) \<and>
     fst ` set (rf_Rules rf) \<inter> fst ` set (operatorRuleRegistry g) = {} \<and>
     g' = (SetCommonConfig (rf_Common rf) g)\<lparr>operatorRuleRegistry := operatorRuleRegistry g @
              map (\<lambda>(n, rc). (n, applyConfigDrivenRule re rc)) (rf_Rules rf)\<rparr>"
  by (simp add: applyRulesFile_def registerAll_ok)

lemma applyRulesFile_panics: "applyRulesFile re rf g = (Inl e, g') \<Longrightarrow> \<exists>m. e = Panic m"
  by (auto simp: applyRulesFile_def dest: registerAll_panics)

section \<open>Merging\<close>

lemma mergeRules_ok:
  "mergeRules id' m ncs = Inr m' \<longleftrightarrow>
     wf_map ncs \<and> fst ` set ncs \<inter> fst ` set m = {} \<and> m' = m @ ncs"
proof (induction ncs arbitrary: m)
  case Nil
  then show ?case by auto
next
  case (Cons nc ncs)
  obtain n rc where nc: "nc = (n, rc)" by (cases nc)
  show ?case
    unfolding nc using Cons.IH
    by (auto simp: map_of_eq_None_iff update_fresh)
qed

definition commons :: "(string \<times> RulesFile) list \<Rightarrow> CommonMappingConfig list" where
  "commons ips = filter (\<lambda>c. cm_Mappings c \<noteq> []) (map (\<lambda>ip. rf_Common (snd ip)) ips)"

definition all_rules :: "(string \<times> RulesFile) list \<Rightarrow> (string \<times> RuleMappingConfig) list" where
  "all_rules ips = concat (map (\<lambda>ip. rf_Rules (snd ip)) ips)"

lemma all_rules_Cons: "all_rules (ip # ips) = rf_Rules (snd ip) @ all_rules ips"
  by (simp add: all_rules_def)

text \<open>
  The merge succeeds exactly if no rule name occurs twice and at most one source has common
  mappings; the result has all rules and that source's common mappings.
\<close>

lemma mergeParts_ok:
  assumes "\<And>ip. ip \<in> set ips \<Longrightarrow> fst ip \<noteq> []"
  shows "(\<exists>d'. mergeParts ips (m, c, d) = Inr (m', c', d')) \<longleftrightarrow>
     wf_map (all_rules ips) \<and> fst ` set (all_rules ips) \<inter> fst ` set m = {} \<and>
     m' = m @ all_rules ips \<and>
     (if commons ips = [] then c' = c else d = [] \<and> commons ips = [c'])"
  using assms
proof (induction ips arbitrary: m c d)
  case Nil
  then show ?case by (auto simp: all_rules_def commons_def)
next
  case (Cons ip ips)
  note IH = Cons.IH [OF Cons.prems [OF list.set_intros(2)]]
  let ?rs = "rf_Rules (snd ip)" and ?c = "rf_Common (snd ip)"
  have id: "fst ip \<noteq> []" using Cons.prems by simp
  have wf: "wf_map (?rs @ all_rules ips) \<longleftrightarrow>
      wf_map ?rs \<and> wf_map (all_rules ips) \<and> fst ` set ?rs \<inter> fst ` set (all_rules ips) = {}"
    by (auto simp: wf_map_def)
  show ?case
  proof (cases "mergeRules (fst ip) m ?rs")
    case (Inl e)
    then have "\<not> (wf_map ?rs \<and> fst ` set ?rs \<inter> fst ` set m = {})"
      using mergeRules_ok [of "fst ip" m ?rs "m @ ?rs"] by auto
    with Inl show ?thesis by (auto simp: mergePart_def all_rules_Cons wf)
  next
    case (Inr m1)
    then have m1: "wf_map ?rs" "fst ` set ?rs \<inter> fst ` set m = {}" "m1 = m @ ?rs"
      using mergeRules_ok by auto
    show ?thesis
    proof (cases "cm_Mappings ?c = []")
      case True
      then have "commons (ip # ips) = commons ips" by (simp add: commons_def)
      with True Inr m1 IH [of m1 c d] show ?thesis
        by (auto simp: mergePart_def all_rules_Cons wf)
    next
      case False
      then have cs: "commons (ip # ips) = ?c # commons ips" by (simp add: commons_def)
      show ?thesis
      proof (cases "d = []")
        case True
        with False Inr m1 id IH [of m1 ?c "fst ip"] cs show ?thesis
          by (auto simp: mergePart_def all_rules_Cons wf)
      next
        case d: False
        with False Inr cs show ?thesis by (simp add: mergePart_def)
      qed
    qed
  qed
qed

text \<open>The decoded sources, \<open>None\<close> if one of them cannot be decoded.\<close>

definition source_part :: "(string \<Rightarrow> RulesFile res) \<Rightarrow> configMapRuleSource \<Rightarrow> (string \<times> RulesFile) option" where
  "source_part dec src =
     (case map_of (cs_Data src) ruleJSONKey of
        None \<Rightarrow> None
      | Some raw \<Rightarrow> (case dec raw of Inl e \<Rightarrow> None | Inr part \<Rightarrow> Some (source_id src, part)))"

definition decodable :: "(string \<Rightarrow> RulesFile res) \<Rightarrow> configMapRuleSource \<Rightarrow> bool" where
  "decodable dec src = (map_of (cs_Data src) ruleJSONKey = None \<or> source_part dec src \<noteq> None)"

definition source_parts :: "(string \<Rightarrow> RulesFile res) \<Rightarrow> configMapRuleSource list \<Rightarrow>
    (string \<times> RulesFile) list option" where
  "source_parts dec srcs =
     (if list_all (decodable dec) srcs then Some (List.map_filter (source_part dec) srcs) else None)"

lemma source_parts_Cons:
  "source_parts dec [] = Some []"
  "source_parts dec (src # srcs) =
     (case map_of (cs_Data src) ruleJSONKey of
        None \<Rightarrow> source_parts dec srcs
      | Some raw \<Rightarrow>
        (case dec raw of
           Inl e \<Rightarrow> None
         | Inr part \<Rightarrow> map_option (\<lambda>ips. (source_id src, part) # ips) (source_parts dec srcs)))"
  by (auto simp: source_parts_def decodable_def source_part_def List.map_filter_simps
      split: option.splits sum.splits)

lemma mergeSources_parts:
  "mergeSources dec srcs st = Inr st' \<longleftrightarrow>
     (\<exists>ips. source_parts dec srcs = Some ips \<and> mergeParts ips st = Inr st')"
  by (induction srcs arbitrary: st) (auto simp: source_parts_Cons split: option.splits sum.splits)

lemma source_parts_ids: "source_parts dec srcs = Some ips \<Longrightarrow> ip \<in> set ips \<Longrightarrow> fst ip \<noteq> []"
  by (induction srcs arbitrary: ips)
    (auto simp: source_id_def source_parts_Cons split: option.splits sum.splits)

lemma mergeConfigMapRuleSources_ok:
  "mergeConfigMapRuleSources dec srcs = Inr rf \<longleftrightarrow>
     (\<exists>ips. source_parts dec srcs = Some ips \<and> wf_map (all_rules ips) \<and>
        rf_Rules rf = all_rules ips \<and>
        (if commons ips = [] then rf_Common rf = \<lparr>cm_Mappings = []\<rparr> else commons ips = [rf_Common rf]))"
proof -
  have "mergeConfigMapRuleSources dec srcs = Inr rf \<longleftrightarrow>
     (\<exists>d. mergeSources dec srcs empty_merge = Inr (rf_Rules rf, rf_Common rf, d))"
    by (auto simp: mergeConfigMapRuleSources_def merged_file_def split: sum.splits)
  also have "\<dots> \<longleftrightarrow> (\<exists>ips. source_parts dec srcs = Some ips \<and>
     (\<exists>d. mergeParts ips empty_merge = Inr (rf_Rules rf, rf_Common rf, d)))"
    by (auto simp: mergeSources_parts)
  also have "\<dots> \<longleftrightarrow> (\<exists>ips. source_parts dec srcs = Some ips \<and> wf_map (all_rules ips) \<and>
        rf_Rules rf = all_rules ips \<and>
        (if commons ips = [] then rf_Common rf = \<lparr>cm_Mappings = []\<rparr> else commons ips = [rf_Common rf]))"
    unfolding empty_merge_def
    using mergeParts_ok [where m = "[]" and d = "[]"] source_parts_ids by fastforce
  finally show ?thesis .
qed

lemma source_parts_perm:
  assumes "mset srcs = mset srcs'" and "source_parts dec srcs = Some ips"
  shows "\<exists>ips'. source_parts dec srcs' = Some ips' \<and> mset ips' = mset ips"
proof -
  have "set srcs' = set srcs" using assms(1) by (metis set_mset_mset)
  then have "list_all (decodable dec) srcs'" using assms(2)
    by (auto simp: source_parts_def list_all_iff split: if_splits)
  moreover have "mset (List.map_filter (source_part dec) srcs') = mset (List.map_filter (source_part dec) srcs)"
    using assms(1) by (simp add: List.map_filter_def mset_filter)
  ultimately show ?thesis using assms(2) by (auto simp: source_parts_def split: if_splits)
qed

lemma all_rules_perm: "mset ips = mset ips' \<Longrightarrow> mset (all_rules ips) = mset (all_rules ips')"
proof -
  have "mset (all_rules xs) = (\<Sum>ip \<in># mset xs. mset (rf_Rules (snd ip)))" for xs
    by (induction xs) (simp_all add: all_rules_def)
  then show "mset ips = mset ips' \<Longrightarrow> mset (all_rules ips) = mset (all_rules ips')" by simp
qed

lemma commons_perm: "mset ips = mset ips' \<Longrightarrow> mset (commons ips) = mset (commons ips')"
  by (simp add: commons_def mset_filter)

text \<open>The order of the sources matters neither for success nor for what is loaded.\<close>

lemma mergeConfigMapRuleSources_perm:
  assumes p: "mset srcs = mset srcs'" and ok: "mergeConfigMapRuleSources dec srcs = Inr rf"
  shows "\<exists>rf'. mergeConfigMapRuleSources dec srcs' = Inr rf' \<and> map_of (rf_Rules rf') = map_of (rf_Rules rf) \<and>
    rf_Common rf' = rf_Common rf"
proof -
  from ok obtain ips where ips: "source_parts dec srcs = Some ips" "wf_map (all_rules ips)"
    "rf_Rules rf = all_rules ips"
    "if commons ips = [] then rf_Common rf = \<lparr>cm_Mappings = []\<rparr> else commons ips = [rf_Common rf]"
    unfolding mergeConfigMapRuleSources_ok by blast
  from source_parts_perm [OF p ips(1)] obtain ips' where
    ips': "source_parts dec srcs' = Some ips'" "mset ips' = mset ips" by blast
  have r: "mset (all_rules ips) = mset (all_rules ips')" using all_rules_perm ips'(2) by metis
  have c: "mset (commons ips) = mset (commons ips')" using commons_perm ips'(2) by metis
  have c': "commons ips' = commons ips"
  proof (cases "commons ips = []")
    case True
    with c show ?thesis by simp
  next
    case False
    with ips(4) have "commons ips = [rf_Common rf]" by simp
    with c show ?thesis by (metis mset_single_iff_right mset.simps(1,2))
  qed
  let ?rf = "\<lparr>rf_Common = rf_Common rf, rf_Rules = all_rules ips'\<rparr>"
  have "mergeConfigMapRuleSources dec srcs' = Inr ?rf"
    unfolding mergeConfigMapRuleSources_ok
    using ips'(1) wf_map_perm [OF r ips(2)] ips(4) c' by auto
  moreover have "map_of (all_rules ips') = map_of (all_rules ips)"
    using map_of_perm [OF r ips(2)] by simp
  ultimately show ?thesis using ips(3) by auto
qed

end
