(* ===== verification/Manifests.thy ===== *)
theory Manifests
  imports Api
begin

text \<open>
  The Kubernetes objects the operator creates: the KubeVirt virtual machines, services and volume
  claims of \<open>create_fortios_vm.go\<close>, \<open>create_vyos_vm.go\<close> and \<open>clone_pvc.go\<close>, as the pure functions
  that build them.  A record has the fields the code sets.
\<close>

datatype bindingMethod = Masquerade | Bridge

record vmInterface =
  vi_Name :: string
  vi_Model :: string
  vi_Binding :: bindingMethod

datatype networkSource = Pod | Multus string

record vmNetwork =
  vn_Name :: string
  vn_Source :: networkSource

datatype diskDevice = DiskTarget string | CDRomTarget string

record vmDisk =
  vd_Name :: string
  vd_Device :: diskDevice

record vmVolume =
  vv_Name :: string
  vv_ClaimName :: string

record VirtualMachine =
  vm_Name :: string
  vm_Namespace :: string
  vm_RunStrategy :: string
  vm_Labels :: "(string, string) gomap"
  vm_GracePeriod :: int
  vm_UUID :: string
  vm_Machine :: string
  vm_Memory :: string
  vm_CPU :: string
  vm_Disks :: "vmDisk list"
  vm_Interfaces :: "vmInterface list"
  vm_Networks :: "vmNetwork list"
  vm_Volumes :: "vmVolume list"

record ServicePort =
  sp_Name :: string
  sp_Protocol :: string
  sp_Port :: nat
  sp_TargetPort :: nat

record Service =
  svc_Name :: string
  svc_Namespace :: string
  svc_Type :: string
  svc_SessionAffinity :: string
  svc_Selector :: "(string, string) gomap"
  svc_Ports :: "ServicePort list"
  svc_Owner :: "string option"

record PersistentVolumeClaim =
  pvc_Name :: string
  pvc_Namespace :: string
  pvc_StorageClass :: string
  pvc_AccessModes :: "string list"
  pvc_Storage :: string
  pvc_DataSource :: string
  pvc_Phase :: string

record VirtualMachineSnapshot =
  vs_Name :: string
  vs_Namespace :: string
  vs_SourceKind :: string
  vs_SourceName :: string

section \<open>Network interfaces\<close>

definition bridged :: "FortigateInterface \<Rightarrow> vmInterface" where
  "bridged port = \<lparr>vi_Name = fi_Name port, vi_Model = ''virtio'', vi_Binding = Bridge\<rparr>"

definition multus :: "FortigateInterface \<Rightarrow> vmNetwork" where
  "multus port = \<lparr>vn_Name = fi_Name port, vn_Source = Multus (fi_NetworkName port)\<rparr>"

definition createFortigateManifestNIC :: "FortigateInterface list \<Rightarrow>
    vmInterface list \<times> vmNetwork list" where
  "createFortigateManifestNIC ports =
     (\<lparr>vi_Name = ''default'', vi_Model = [], vi_Binding = Masquerade\<rparr> # map bridged ports,
      \<lparr>vn_Name = ''default'', vn_Source = Pod\<rparr> # map multus ports)"

definition createFirewallManifestNIC :: "FortigateInterface list \<Rightarrow>
    (vmInterface list \<times> vmNetwork list) res" where
  "createFirewallManifestNIC ports =
     (if ports = [] then Inl (Errorf ''nessuna porta specificata per la creazione delle interfacce di rete'' [])
      else Inr (map bridged ports, map multus ports))"

section \<open>Virtual machines\<close>

definition createFortigateManifest :: "string \<Rightarrow> string \<Rightarrow> string \<Rightarrow> FortigateFirewallSpec \<Rightarrow>
    VirtualMachine" where
  "createFortigateManifest firewallName fortigateVersion namespace spec =
     (case createFortigateManifestNIC (ffs_Ports spec) of (interfaces, networks) \<Rightarrow>
      \<lparr>vm_Name = firewallName,
       vm_Namespace = namespace,
       vm_RunStrategy = ''Always'',
       vm_Labels = [(''kubevirt.io/vm'', firewallName)],
       vm_GracePeriod = 0,
       vm_UUID = ffs_VMUUID spec,
       vm_Machine = ''q35'',
       vm_Memory = ''2G'',
       vm_CPU = ''1'',
       vm_Disks = [\<lparr>vd_Name = ''forti-os-disk'', vd_Device = DiskTarget ''virtio''\<rparr>,
                   \<lparr>vd_Name = ''cloudinitdisk'', vd_Device = CDRomTarget ''sata''\<rparr>],
       vm_Interfaces = interfaces,
       vm_Networks = networks,
       vm_Volumes = [\<lparr>vv_Name = ''forti-os-disk'',
                      vv_ClaimName = firewallName @ ''-'' @ fortigateVersion @ ''-fgt''\<rparr>,
                     \<lparr>vv_Name = ''cloudinitdisk'',
                      vv_ClaimName = firewallName @ ''-'' @ fortigateVersion @ ''-cloud-init''\<rparr>]\<rparr>)"

text \<open>\<open>None\<close> is the nil pointer the code returns when the interfaces cannot be built.\<close>

definition createManifest :: "string \<Rightarrow> string \<Rightarrow> string \<Rightarrow> FirewallSpec \<Rightarrow> VirtualMachine option" where
  "createManifest firewallName firewallVersion namespace spec =
     (case createFirewallManifestNIC (fws_Ports spec) of
        Inl e \<Rightarrow> None
      | Inr (interfaces, networks) \<Rightarrow>
        Some \<lparr>vm_Name = firewallName,
              vm_Namespace = namespace,
              vm_RunStrategy = ''Always'',
              vm_Labels = [(''kubevirt.io/vm'', firewallName)],
              vm_GracePeriod = 0,
              vm_UUID = fws_VMUUID spec,
              vm_Machine = ''q35'',
              vm_Memory = ''2G'',
              vm_CPU = ''1'',
              vm_Disks = \<lparr>vd_Name = fws_Type spec @ ''-os-disk'', vd_Device = DiskTarget ''virtio''\<rparr> #
                (if fws_HasCloudInit spec
                 then [\<lparr>vd_Name = ''cloudinitdisk'', vd_Device = CDRomTarget ''sata''\<rparr>] else []),
              vm_Interfaces = interfaces,
              vm_Networks = networks,
              vm_Volumes = \<lparr>vv_Name = fws_Type spec @ ''-os-disk'',
                            vv_ClaimName = firewallName @ ''-'' @ firewallVersion\<rparr> #
                (if fws_HasCloudInit spec
                 then [\<lparr>vv_Name = ''cloudinitdisk'',
                        vv_ClaimName = firewallName @ ''-'' @ firewallVersion @ ''-cloud-init''\<rparr>] else [])\<rparr>)"

section \<open>Services\<close>

definition ssh_gui_ports :: "ServicePort list" where
  "ssh_gui_ports =
     [\<lparr>sp_Name = ''ssh'', sp_Protocol = ''TCP'', sp_Port = 22, sp_TargetPort = 22\<rparr>,
      \<lparr>sp_Name = ''gui'', sp_Protocol = ''TCP'', sp_Port = 443, sp_TargetPort = 443\<rparr>]"

definition createFortigateFirewallService :: "string \<Rightarrow> string \<Rightarrow> string \<Rightarrow> Service" where
  "createFortigateFirewallService firewallName fortigateVersion namespace =
     \<lparr>svc_Name = firewallName @ ''-'' @ fortigateVersion @ ''-ssh-gui'',
      svc_Namespace = namespace,
      svc_Type = ''LoadBalancer'',
      svc_SessionAffinity = ''None'',
      svc_Selector = [(''vmi.kubevirt.io/id'', firewallName)],
      svc_Ports = ssh_gui_ports,
      svc_Owner = None\<rparr>"

definition createFirewallService :: "string \<Rightarrow> string \<Rightarrow> string \<Rightarrow> Service" where
  "createFirewallService firewallName firewallVersion namespace =
     (let firewallName = ReplaceAll firewallName ''.'' ''-'';
          firewallVersion = ReplaceAll firewallVersion ''.'' ''-''
      in \<lparr>svc_Name = firewallName @ ''-'' @ firewallVersion @ ''-ssh-gui'',
          svc_Namespace = namespace,
          svc_Type = ''LoadBalancer'',
          svc_SessionAffinity = ''None'',
          svc_Selector = [(''vmi.kubevirt.io/id'', firewallName)],
          svc_Ports = ssh_gui_ports,
          svc_Owner = None\<rparr>)"

text \<open>
  The mutation run by \<open>CreateOrUpdate\<close>: selector, type and ports are set again, with the
  unchanged name of the resource, and the owner is recorded.
\<close>

definition mutateService :: "string \<Rightarrow> Service \<Rightarrow> Service" where
  "mutateService instanceName svc =
     svc\<lparr>svc_Selector := [(''vmi.kubevirt.io/id'', instanceName)],
         svc_Type := ''LoadBalancer'',
         svc_SessionAffinity := ''None'',
         svc_Ports := ssh_gui_ports,
         svc_Owner := Some instanceName\<rparr>"

section \<open>Names of the volume claims\<close>

definition goldenImages :: "string \<Rightarrow> string \<Rightarrow> (string \<times> string) res" where
  "goldenImages firewallType version =
     (if firewallType = ''fortigate'' then
        Inr (firewallType @ ''-'' @ version @ ''-fgt'', firewallType @ ''-'' @ version @ ''-cloud-init'')
      else if firewallType = ''vyos'' then
        Inr (firewallType @ ''-'' @ version @ ''-golden'', firewallType @ ''-'' @ version @ ''-cloud-init'')
      else Inl (Errorf ''tipo di firewall non supportato: %s'' [firewallType]))"

definition pvcToDelete :: "string \<Rightarrow> string \<Rightarrow> string list" where
  "pvcToDelete firewallName fortigateVersion =
     [firewallName @ ''-'' @ fortigateVersion @ ''-fgt'',
      firewallName @ ''-'' @ fortigateVersion @ ''-cloud-init'']"

text \<open>The claims \<open>createPVC\<close> creates and waits for.\<close>

definition pvcTargets :: "string \<Rightarrow> string \<Rightarrow> bool \<Rightarrow> string list" where
  "pvcTargets firewallName version hasCloudInit =
     (firewallName @ ''-'' @ version) #
     (if hasCloudInit then [firewallName @ ''-'' @ version @ ''-cloud-init''] else [])"

lemma nic_networks_match:
  "createFortigateManifestNIC ports = (is, ns) \<Longrightarrow> map vi_Name is = map vn_Name ns"
  "createFirewallManifestNIC ports = Inr (is, ns) \<Longrightarrow> map vi_Name is = map vn_Name ns"
  by (auto simp: createFortigateManifestNIC_def createFirewallManifestNIC_def bridged_def multus_def
      split: if_splits)

lemma disks_have_volumes:
  "map vd_Name (vm_Disks (createFortigateManifest n v ns sp)) =
     map vv_Name (vm_Volumes (createFortigateManifest n v ns sp))"
  "createManifest n v ns fsp = Some vm \<Longrightarrow> map vd_Name (vm_Disks vm) = map vv_Name (vm_Volumes vm)"
  by (auto simp: createFortigateManifest_def createManifest_def createFortigateManifestNIC_def
      split: sum.splits prod.splits)

text \<open>A VyOS machine mounts the claims that were created for it.\<close>

lemma createManifest_claims:
  "createManifest n v ns sp = Some vm \<Longrightarrow>
     map vv_ClaimName (vm_Volumes vm) = pvcTargets n v (fws_HasCloudInit sp)"
  by (auto simp: createManifest_def pvcTargets_def split: sum.splits prod.splits)

text \<open>A FortiGate machine mounts, and the cleanup deletes, a claim that nobody creates.\<close>

lemma fgt_claim_not_created: "n @ ''-'' @ v @ ''-fgt'' \<notin> set (pvcTargets n v cloud)"
  by (auto simp: pvcTargets_def)

end
