(* ===== verification/World.thy ===== *)
theory World
  imports Registry Manifests
begin

text \<open>
  What a controller runs in: the local file system, the process environment, the package
  variables, and the log of the calls to other systems (OpenTofu, S3, the Kubernetes API, the
  firewall over SSH and HTTP) in the order they were made, with the objects written.  What those systems answer is a
  parameter: functions of the log so far, so an answer may depend on everything done before.
\<close>

datatype kobj =
    OVM VirtualMachine
  | OService Service
  | OPVC PersistentVolumeClaim
  | OSnapshot VirtualMachineSnapshot
  | OUpdatePath FortigateUpdatePath
  | OConfigStatus string FortigateConfigStatus
  | OFirewallStatus string FortigateFirewallStatus
  | OUpdateStatus string FortigateUpdateStatus
  | OUpdatePathStatus string FortigateUpdatePathStatus

datatype call =
    LookPath string
  | NewTerraform string
  | TofuInit string
  | TofuPlan string
  | TofuApply string
  | TofuDestroy string
  | S3Config string string string string
  | S3List string string
  | S3Get string string
  | S3Head string string
  | S3Put string string string
  | S3Delete string "string list"
  | S3Buckets
  | S3CreateBucket string
  | KGet string string string
  | KList string
  | KCreate kobj
  | KCreateNil
  | KApply kobj
  | KPatch kobj
  | KUpdate string string string "string list"
  | KStatus kobj
  | KDelete string string string
  | KConfig
  | Ssh string string
  | Http string string
  | Manager string
  | Sleep nat

record world =
  w_fs :: fs
  w_environ :: "(string, string) gomap"
  w_reg :: registry
  w_log :: "call list"

definition ask :: "call \<Rightarrow> (call list \<Rightarrow> 'a res) \<Rightarrow> (world, 'a) op" where
  "ask c f w = (f (w_log w), w\<lparr>w_log := w_log w @ [c]\<rparr>)"

definition onFs :: "(fs, 'a) op \<Rightarrow> (world, 'a) op" where
  "onFs m w = (case m (w_fs w) of (r, f) \<Rightarrow> (r, w\<lparr>w_fs := f\<rparr>))"

definition onReg :: "(registry, 'a) op \<Rightarrow> (world, 'a) op" where
  "onReg m w = (case m (w_reg w) of (r, g) \<Rightarrow> (r, w\<lparr>w_reg := g\<rparr>))"

definition getReg :: "(registry \<Rightarrow> 'a) \<Rightarrow> (world, 'a) op" where
  "getReg f w = (Inr (f (w_reg w)), w)"

definition Setenv :: "string \<Rightarrow> string \<Rightarrow> (world, unit) op" where
  "Setenv k v w = (Inr (), w\<lparr>w_environ := map_put (w_environ w) k v\<rparr>)"

definition setenvs :: "(string \<times> string) list \<Rightarrow> (world, unit) op" where
  "setenvs kvs = foldr (\<lambda>(k, v) m. andThen (Setenv k v) (\<lambda>_. m)) kvs (ret ())"

section \<open>The calls an operation makes\<close>

text \<open>
  \<open>made m w\<close> are the calls \<open>m\<close> adds to the log; \<open>logs m\<close> says that \<open>m\<close> only adds.
\<close>

definition logs :: "(world, 'a) op \<Rightarrow> bool" where
  "logs m = (\<forall>w. prefix (w_log w) (w_log (snd (m w))))"

definition made :: "(world, 'a) op \<Rightarrow> world \<Rightarrow> call list" where
  "made m w = drop (length (w_log w)) (w_log (snd (m w)))"

definition quiet :: "(call \<Rightarrow> bool) \<Rightarrow> (world, 'a) op \<Rightarrow> bool" where
  "quiet P m = (\<forall>w. prefix (w_log w) (w_log (snd (m w))) \<and> (\<forall>c \<in> set (made m w). \<not> P c))"

lemma quiet_logs: "quiet P m \<Longrightarrow> logs m"
  by (simp add: quiet_def logs_def)

lemma logs_quiet: "logs m \<longleftrightarrow> quiet (\<lambda>_. False) m"
  by (simp add: quiet_def logs_def)

lemma quietI: "(\<And>w. \<exists>cs. w_log (snd (m w)) = w_log w @ cs \<and> (\<forall>c \<in> set cs. \<not> P c)) \<Longrightarrow> quiet P m"
  unfolding quiet_def made_def prefix_def by (metis append_eq_conv_conj)

lemma quietE: "quiet P m \<Longrightarrow> \<exists>cs. w_log (snd (m w)) = w_log w @ cs \<and> (\<forall>c \<in> set cs. \<not> P c)"
  unfolding quiet_def made_def prefix_def by (metis append_eq_conv_conj)

lemma quiet_andThen:
  assumes "quiet P m" and "\<And>x. quiet P (f x)"
  shows "quiet P (andThen m f)"
proof (rule quietI)
  fix w
  obtain r w1 where m: "m w = (r, w1)" by (cases "m w")
  from quietE [OF assms(1), of w] m obtain cs where cs: "w_log w1 = w_log w @ cs" "\<forall>c \<in> set cs. \<not> P c"
    by auto
  show "\<exists>cs. w_log (snd (andThen m f w)) = w_log w @ cs \<and> (\<forall>c \<in> set cs. \<not> P c)"
  proof (cases r)
    case (Inl e)
    with m cs show ?thesis by (simp add: andThen_Inl)
  next
    case (Inr x)
    from quietE [OF assms(2), of x w1] obtain ds where
      "w_log (snd (f x w1)) = w_log w1 @ ds" "\<forall>c \<in> set ds. \<not> P c" by auto
    with m Inr cs show ?thesis by (intro exI [of _ "cs @ ds"]) (auto simp: andThen_Inr)
  qed
qed

lemma quiet_wrapErr: "quiet P m \<Longrightarrow> quiet P (wrapErr g m)"
proof (rule quietI)
  fix w assume "quiet P m"
  moreover have "snd (wrapErr g m w) = snd (m w)" by (simp add: wrapErr_def split: prod.splits sum.splits)
  ultimately show "\<exists>cs. w_log (snd (wrapErr g m w)) = w_log w @ cs \<and> (\<forall>c \<in> set cs. \<not> P c)"
    using quietE [of P m w] by simp
qed

lemma quiet_ignoreErr: "quiet P m \<Longrightarrow> quiet P (ignoreErr m)"
proof (rule quietI)
  fix w assume "quiet P m"
  moreover have "snd (ignoreErr m w) = snd (m w)"
    by (simp add: ignoreErr_def split: prod.splits sum.splits)
  ultimately show "\<exists>cs. w_log (snd (ignoreErr m w)) = w_log w @ cs \<and> (\<forall>c \<in> set cs. \<not> P c)"
    using quietE [of P m w] by simp
qed

lemma quiet_orElse:
  assumes "quiet P m" and "\<And>e. quiet P (g e)" and "\<And>x. quiet P (f x)"
  shows "quiet P (orElse m g f)"
proof (rule quietI)
  fix w
  obtain r w1 where m: "m w = (r, w1)" by (cases "m w")
  from quietE [OF assms(1), of w] m obtain cs where cs: "w_log w1 = w_log w @ cs" "\<forall>c \<in> set cs. \<not> P c"
    by auto
  have after: "\<exists>ds. w_log (snd (k w1)) = w_log w @ ds \<and> (\<forall>c \<in> set ds. \<not> P c)"
    if "quiet P k" for k :: "(world, 'c) op"
  proof -
    from quietE [OF that, of w1] obtain ds where "w_log (snd (k w1)) = w_log w1 @ ds" "\<forall>c \<in> set ds. \<not> P c"
      by auto
    with cs show ?thesis by (intro exI [of _ "cs @ ds"]) auto
  qed
  show "\<exists>cs. w_log (snd (orElse m g f w)) = w_log w @ cs \<and> (\<forall>c \<in> set cs. \<not> P c)"
  proof (cases r)
    case (Inl e)
    with m cs after [OF assms(2), of e] show ?thesis by (simp add: orElse_def)
  next
    case (Inr x)
    with m after [OF assms(3), of x] show ?thesis by (simp add: orElse_def)
  qed
qed

lemma quiet_basic:
  "quiet P (ret x)" "quiet P (fail e)" "quiet P (liftRes r)" "quiet P (onFs m2)" "quiet P (onReg m3)"
  "quiet P (getReg f)" "quiet P (Setenv k v)"
  by (auto intro!: quietI simp: onFs_def onReg_def getReg_def Setenv_def split: prod.splits)

lemma quiet_setenvs: "quiet P (setenvs kvs)"
proof (induction kvs)
  case Nil
  show ?case unfolding setenvs_def by (simp add: quiet_basic(1) del: op_simps)
next
  case (Cons kv kvs)
  obtain k v where "kv = (k, v)" by (cases kv)
  then have "setenvs (kv # kvs) = andThen (Setenv k v) (\<lambda>_. setenvs kvs)" by (simp add: setenvs_def)
  with Cons show ?case by (simp add: quiet_andThen quiet_basic)
qed

lemma quiet_ask: "quiet P (ask c f) \<longleftrightarrow> \<not> P c"
  by (auto simp: quiet_def made_def ask_def)

lemma quiet_if: "(b \<Longrightarrow> quiet P m) \<Longrightarrow> (\<not> b \<Longrightarrow> quiet P m') \<Longrightarrow> quiet P (if b then m else m')"
  by simp

lemmas quiet_intros = quiet_andThen quiet_wrapErr quiet_ignoreErr quiet_orElse quiet_basic quiet_setenvs quiet_if

lemma quiet_mono: "quiet P m \<Longrightarrow> (\<And>c. Q c \<Longrightarrow> P c) \<Longrightarrow> quiet Q m"
  by (auto simp: quiet_def)

section \<open>The call that mattered\<close>

text \<open>
  A call of the kind \<open>P\<close> made by a sequence whose first part makes none was made by the second
  part, so the first part went well.
\<close>

lemma logs_after: "logs m \<Longrightarrow> w_log (snd (m w)) = w_log w @ made m w"
  unfolding logs_def made_def prefix_def by (metis append_eq_conv_conj)

lemma logsI: "quiet (\<lambda>_. False) m \<Longrightarrow> logs m"
  by (simp add: logs_quiet)

lemma made_andThen_Inr:
  assumes "logs m" "logs (f x)" "m w = (Inr x, w1)"
  shows "made (andThen m f) w = made m w @ made (f x) w1"
proof -
  have "w_log w1 = w_log w @ made m w" using logs_after [OF assms(1), of w] assms(3) by simp
  moreover have "w_log (snd (f x w1)) = w_log w1 @ made (f x) w1" by (rule logs_after [OF assms(2)])
  ultimately show ?thesis unfolding made_def [of "andThen m f"] andThen_Inr [of m w x w1 f, OF assms(3)]
    by simp
qed

lemma made_andThen_Inl:
  "m w = (Inl e, w1) \<Longrightarrow> made (andThen m f) w = made m w"
  by (simp add: made_def andThen_Inl)

lemma made_orElse_Inr:
  assumes "logs m" "logs (f x)" "m w = (Inr x, w1)"
  shows "made (orElse m g f) w = made m w @ made (f x) w1"
proof -
  have "w_log w1 = w_log w @ made m w" using logs_after [OF assms(1), of w] assms(3) by simp
  moreover have "w_log (snd (f x w1)) = w_log w1 @ made (f x) w1" by (rule logs_after [OF assms(2)])
  ultimately show ?thesis unfolding made_def [of "orElse m g f"] using assms(3) by (simp add: orElse_def)
qed

lemma made_orElse_Inl:
  assumes "logs m" "logs (g e)" "m w = (Inl e, w1)" "\<not> stops e"
  shows "made (orElse m g f) w = made m w @ made (g e) w1"
proof -
  have "w_log w1 = w_log w @ made m w" using logs_after [OF assms(1), of w] assms(3) by simp
  moreover have "w_log (snd (g e w1)) = w_log w1 @ made (g e) w1" by (rule logs_after [OF assms(2)])
  ultimately show ?thesis unfolding made_def [of "orElse m g f"] using assms(3,4) by (simp add: orElse_def)
qed

lemma made_wrapErr [simp]: "made (wrapErr g m) w = made m w"
  by (simp add: made_def wrapErr_def split: prod.splits sum.splits)

lemma made_basic [simp]:
  "made (ret x) w = []" "made (fail e) w = []" "made (liftRes r) w = []" "made (ask c f) w = [c]"
  "made (getReg h) w = []"
  by (simp_all add: made_def ask_def getReg_def)

lemma made_onFs [simp]: "made (onFs m) w = []"
  by (simp add: made_def onFs_def split: prod.splits)

lemma call_after:
  assumes "c \<in> set (made (andThen m f) w)" "P c" "quiet P m" "\<And>x. logs (f x)"
  obtains x w1 where "m w = (Inr x, w1)" "c \<in> set (made (f x) w1)"
proof -
  obtain r w1 where m: "m w = (r, w1)" by (cases "m w")
  have no: "c \<notin> set (made m w)" using assms(2,3) by (auto simp: quiet_def)
  show ?thesis
  proof (cases r)
    case (Inl e)
    with m made_andThen_Inl [of m w e w1 f] assms(1) no show ?thesis by simp
  next
    case (Inr x)
    with m made_andThen_Inr [of m f x w w1] quiet_logs [OF assms(3)] assms(4) [of x] no assms(1)
    show ?thesis by (intro that [of x w1]) auto
  qed
qed

lemma call_after_orElse:
  assumes "c \<in> set (made (orElse m g f) w)" "P c" "quiet P m" "\<And>e. quiet P (g e)" "\<And>x. logs (f x)"
  obtains x w1 where "m w = (Inr x, w1)" "c \<in> set (made (f x) w1)"
proof -
  obtain r w1 where m: "m w = (r, w1)" by (cases "m w")
  have no: "c \<notin> set (made m w)" using assms(2,3) by (auto simp: quiet_def)
  show ?thesis
  proof (cases r)
    case (Inl e)
    have "made (orElse m g f) w = made m w @ (if stops e then [] else made (g e) w1)"
    proof (cases "stops e")
      case True
      with m Inl show ?thesis by (simp add: made_def orElse_def)
    next
      case False
      with made_orElse_Inl [of m g e w w1 f] quiet_logs [OF assms(3)] quiet_logs [OF assms(4) [of e]] m Inl
      show ?thesis by simp
    qed
    with no assms(1,2,4) show ?thesis by (auto simp: quiet_def split: if_splits)
  next
    case (Inr x)
    with m made_orElse_Inr [of m f x w w1 g] quiet_logs [OF assms(3)] assms(5) [of x] no assms(1)
    show ?thesis by (intro that [of x w1]) auto
  qed
qed

end
