(* ===== verification/Terraform.thy ===== *)
theory Terraform
  imports World
begin

text \<open>
  The path from a \<open>FortigateConfig\<close> to a run of OpenTofu: \<open>controller.go\<close> (\<open>tfCommon\<close>,
  \<open>selectOperatorRule\<close>), \<open>send_terraform_request.go\<close> and the parts of \<open>s3_utils.go\<close> it uses.
  OpenTofu, the S3 service and the HCL parser are outside the repository: the record
  \<open>external\<close> gives their answers.
\<close>

section \<open>Answers of the outside\<close>

text \<open>
  A parsed HCL body: its attributes with the values of their expressions, and its blocks.
\<close>

datatype hval = HStr string | HObj "(string \<times> hval) list" | HOther

datatype hbody = HBody "(string \<times> hval res) list" "hblock list"
  and hblock = HBlock string "string list" hbody

text \<open>Buckets and objects as a listing describes them; fields are pointers.\<close>

record Bucket =
  bk_Name :: "string option"
  bk_Region :: "string option"

record S3Object =
  so_Key :: "string option"
  so_Size :: "int option"

text \<open>
  \<open>x_s3_pages\<close> is what the paginator returns page by page; \<open>x_s3_get\<close> answers an error, or what could
  be read of the body and the error that cut the reading short, if one did; \<open>x_tofu\<close> runs a command in a
  directory, with the environment, and may change files; \<open>x_hcl\<close> parses a text.
\<close>

record external =
  x_lookPath :: "call list \<Rightarrow> string res"
  x_newTerraform :: "call list \<Rightarrow> unit res"
  x_tofu :: "call list \<Rightarrow> (string, string) gomap \<Rightarrow> call \<Rightarrow> fs \<Rightarrow> bool res \<times> fs"
  x_hcl :: "string \<Rightarrow> hbody res"
  x_s3_config :: "call list \<Rightarrow> unit res"
  x_s3_pages :: "call list \<Rightarrow> string \<Rightarrow> string \<Rightarrow> (string list res) list"
  x_s3_get :: "call list \<Rightarrow> string \<Rightarrow> string \<Rightarrow> (string \<times> goerr option) res"
  x_s3_delete :: "call list \<Rightarrow> string \<Rightarrow> string list \<Rightarrow> (string list) res"
  x_s3_head :: "call list \<Rightarrow> string \<Rightarrow> string \<Rightarrow> unit res"
  x_s3_put :: "call list \<Rightarrow> string \<Rightarrow> string \<Rightarrow> string \<Rightarrow> unit res"
  x_s3_buckets :: "call list \<Rightarrow> Bucket list res"
  x_s3_create :: "call list \<Rightarrow> string \<Rightarrow> unit res"
  x_s3_objects :: "call list \<Rightarrow> string \<Rightarrow> S3Object list res"
  x_s3_dirs :: "call list \<Rightarrow> string \<Rightarrow> string \<Rightarrow> (string list \<times> string list) res"

definition tofu :: "external \<Rightarrow> call \<Rightarrow> (world, bool) op" where
  "tofu ext c w =
     (case x_tofu ext (w_log w) (w_environ w) c (w_fs w) of
        (r, f) \<Rightarrow> (r, w\<lparr>w_fs := f, w_log := w_log w @ [c]\<rparr>))"

record s3access =
  a_s3Url :: string
  a_accessKeyID :: string
  a_secretAccessKey :: string

section \<open>s3_utils.go\<close>

text \<open>A client is its settings: endpoint, credentials and the region of the operator configuration.\<close>

definition createS3Client :: "external \<Rightarrow> s3access \<Rightarrow> (world, unit) op" where
  "createS3Client ext acc =
     andThen (getReg CurrentOperatorConfig) (\<lambda>cfg.
     ask (S3Config (a_s3Url acc) (a_accessKeyID acc) (a_secretAccessKey acc) (oc_S3Region cfg))
       (x_s3_config ext))"

text \<open>
  The local file is created once S3 has answered; a body that breaks off leaves what was read of it
  in the file, and is an error.
\<close>

definition downloadFile :: "external \<Rightarrow> string \<Rightarrow> string \<Rightarrow> string \<Rightarrow> (world, unit) op" where
  "downloadFile ext bucket key localPath =
     andThen (wrapErr (Wrapf ''impossibile creare la directory locale'')
                (onFs (MkdirAll (filepath_Dir localPath)))) (\<lambda>_.
     andThen (wrapErr (Wrapf ''errore GetObject'')
                (ask (S3Get bucket key) (\<lambda>h. x_s3_get ext h bucket key))) (\<lambda>(body, broken).
     andThen (wrapErr (Wrapf ''impossibile creare il file locale'') (onFs (WriteFile localPath body 438))) (\<lambda>_.
     case broken of
       None \<Rightarrow> ret ()
     | Some err \<Rightarrow> fail (Wrapf ''errore durante la scrittura del file'' err))))"

text \<open>Keys that end in a slash stand for directories; a failed download is reported and skipped.\<close>

primrec downloadPage :: "external \<Rightarrow> string \<Rightarrow> string \<Rightarrow> string list \<Rightarrow> (world, unit) op" where
  "downloadPage ext bucketName localTargetDir [] = ret ()"
| "downloadPage ext bucketName localTargetDir (s3Key # keys) =
     (if HasSuffix s3Key ''/'' then downloadPage ext bucketName localTargetDir keys
      else (\<lambda>w. downloadPage ext bucketName localTargetDir keys
                  (snd (downloadFile ext bucketName s3Key (filepath_Join [localTargetDir, s3Key]) w))))"

primrec downloadPages :: "external \<Rightarrow> string \<Rightarrow> string \<Rightarrow> (string list res) list \<Rightarrow> (world, unit) op" where
  "downloadPages ext bucketName localTargetDir [] = ret ()"
| "downloadPages ext bucketName localTargetDir (page # pages) =
     andThen (liftRes page) (\<lambda>keys.
     andThen (downloadPage ext bucketName localTargetDir keys) (\<lambda>_.
     downloadPages ext bucketName localTargetDir pages))"

definition copyS3DirContent :: "external \<Rightarrow> string \<Rightarrow> s3access \<Rightarrow> string \<Rightarrow> string \<Rightarrow> (world, unit) op" where
  "copyS3DirContent ext bucketName acc s3Prefix localTargetDir =
     andThen (createS3Client ext acc) (\<lambda>_.
     andThen (ask (S3List bucketName s3Prefix) (\<lambda>h. Inr (x_s3_pages ext h bucketName s3Prefix))) (\<lambda>pages.
     downloadPages ext bucketName localTargetDir pages))"

text \<open>\<open>x_s3_delete\<close> returns the keys that could not be deleted.\<close>

primrec deletePages :: "external \<Rightarrow> string \<Rightarrow> (string list res) list \<Rightarrow> (world, unit) op" where
  "deletePages ext bucketName [] = ret ()"
| "deletePages ext bucketName (page # pages) =
     andThen (wrapErr (Wrapf ''impossibile elencare gli oggetti'') (liftRes page)) (\<lambda>keys.
     if keys = [] then deletePages ext bucketName pages
     else
       andThen (wrapErr (Wrapf ''errore durante la cancellazione di massa'')
                  (ask (S3Delete bucketName keys) (\<lambda>h. x_s3_delete ext h bucketName keys))) (\<lambda>errors.
       if errors \<noteq> [] then fail (Errorf ''alcuni oggetti non sono stati cancellati: %v'' [hd errors])
       else deletePages ext bucketName pages))"

definition deleteS3Dir :: "external \<Rightarrow> string \<Rightarrow> string \<Rightarrow> s3access \<Rightarrow> (world, unit) op" where
  "deleteS3Dir ext bucketName dirName acc =
     andThen (wrapErr (Wrapf ''failed to create S3 client'') (createS3Client ext acc)) (\<lambda>_.
     andThen (ask (S3List bucketName dirName) (\<lambda>h. Inr (x_s3_pages ext h bucketName dirName))) (\<lambda>pages.
     deletePages ext bucketName pages))"

text \<open>
  \<open>writeS3Data\<close>: without \<open>overwrite\<close> an object that exists is left alone.  A 404 answer to the
  \<open>HeadObject\<close> request is an error with \<open>IsNotFound\<close>.
\<close>

definition writeS3Data :: "external \<Rightarrow> string \<Rightarrow> string \<Rightarrow> string \<Rightarrow> bool \<Rightarrow> (world, unit) op" where
  "writeS3Data ext bucketName fileName content overwrite =
     (let put = wrapErr (Wrapf ''errore scrittura S3'')
            (ask (S3Put bucketName fileName content) (\<lambda>h. x_s3_put ext h bucketName fileName content))
      in if overwrite then put
         else orElse (ask (S3Head bucketName fileName) (\<lambda>h. x_s3_head ext h bucketName fileName))
                (\<lambda>e. if IsNotFound e then put else fail (Wrapf ''errore verifica file S3'' e))
                (\<lambda>_. ret ()))"

definition writeS3File :: "external \<Rightarrow> s3access \<Rightarrow> string \<Rightarrow> string \<Rightarrow> string \<Rightarrow> bool \<Rightarrow> (world, unit) op" where
  "writeS3File ext acc filename content bucketName overwrite =
     andThen (createS3Client ext acc) (\<lambda>_. writeS3Data ext bucketName filename content overwrite)"

text \<open>
  \<open>getAllDirs\<close> lists one level below a prefix.  A listing that fails is only printed; the result,
  nil by then, is dereferenced.
\<close>

definition getAllDirs :: "external \<Rightarrow> s3access \<Rightarrow> string \<Rightarrow> string \<Rightarrow> string \<Rightarrow> (world, string list) op" where
  "getAllDirs ext acc folder bucketName elemType =
     (let targetFolder = TrimSpace folder in
      andThen (wrapErr (Wrapf ''failed to create S3 client'') (createS3Client ext acc)) (\<lambda>_.
      orElse (ask (S3List bucketName targetFolder) (\<lambda>h. x_s3_dirs ext h bucketName targetFolder))
        (\<lambda>e. fail (Panic ''nil ListObjectsV2Output''))
        (\<lambda>(prefixes, keys).
           if elemType = ''DIR'' then ret prefixes
           else if elemType = ''FILE'' then ret (filter (\<lambda>k. k \<noteq> targetFolder) keys)
           else fail (Errorf ''Tipo di elemento non valido: %s'' [elemType]))))"

definition Trim_slash :: "string \<Rightarrow> string" where
  "Trim_slash s = rev (dropWhile (\<lambda>c. c = CHR ''/'') (rev (dropWhile (\<lambda>c. c = CHR ''/'') s)))"

definition getUUIDFromS3 :: "external \<Rightarrow> s3access \<Rightarrow> string \<Rightarrow> string \<Rightarrow> (world, string) op" where
  "getUUIDFromS3 ext acc configName bucketName =
     andThen (getAllDirs ext acc configName bucketName ''DIR'') (\<lambda>found.
     if 1 < length found then fail (Sentinel ''Troppe directory trovate nel bucket S3'')
     else if length found = 1 then
       andThen (getAllDirs ext acc (configName @ ''/'') bucketName ''DIR'') (\<lambda>uuid_dirs.
       if 1 < length uuid_dirs then fail (Sentinel ''Troppe sottodirectory trovate nel bucket S3'')
       else if length uuid_dirs = 1 then
         (let prefix = configName @ ''/'';
              id1 = TrimPrefix (hd uuid_dirs) prefix;
              id2 = TrimPrefix id1 prefix
          in ret (Trim_slash id2))
       else fail (Sentinel ''Errore imprevisto durante il recupero dell'UUID da S3''))
     else ret [])"

section \<open>startup.go\<close>

primrec syncFiles :: "external \<Rightarrow> s3access \<Rightarrow> string \<Rightarrow> string list \<Rightarrow> (world, unit) op" where
  "syncFiles ext acc bucketName [] = ret ()"
| "syncFiles ext acc bucketName (fileSorgente # rest) =
     andThen (onFs (readFileContent fileSorgente)) (\<lambda>content.
     andThen (writeS3File ext acc (''rules-templates/'' @ filepath_Base fileSorgente) content bucketName True) (\<lambda>_.
     syncFiles ext acc bucketName rest))"

text \<open>The code returns \<open>false\<close> for every error; here the error itself is kept.\<close>

definition syncTerraformS3Bucket :: "external \<Rightarrow> s3access \<Rightarrow> string \<Rightarrow> (world, unit) op" where
  "syncTerraformS3Bucket ext acc bucketName =
     andThen (onFs (listAllFilesInDir ''/terraform-templates'')) (\<lambda>allDirs.
     syncFiles ext acc bucketName allDirs)"

section \<open>Provider versions: common file and lock file\<close>

record RequiredProvider =
  rp_Source :: string
  rp_Version :: string

record ProviderLock =
  pl_Source :: string
  pl_Version :: string

definition diags :: "string \<Rightarrow> goerr" where
  "diags m = Errorf ''diagnostics: %s'' [m]"

text \<open>\<open>Body.PartialContent\<close> for one block type: a block with another number of labels is an error.\<close>

definition PartialContent :: "string \<Rightarrow> nat \<Rightarrow> hbody \<Rightarrow> (hblock list) res" where
  "PartialContent T n body =
     (case body of HBody attrs blocks \<Rightarrow>
        let found = filter (\<lambda>b. case b of HBlock t ls bd \<Rightarrow> t = T) blocks
        in if list_all (\<lambda>b. case b of HBlock t ls bd \<Rightarrow> length ls = n) found then Inr found
           else Inl (diags T))"

definition JustAttributes :: "hbody \<Rightarrow> ((string \<times> hval res) list) res" where
  "JustAttributes body =
     (case body of HBody attrs blocks \<Rightarrow> if blocks = [] then Inr attrs else Inl (diags ''Unexpected block''))"

definition AsString :: "hval \<Rightarrow> string res" where
  "AsString v = (case v of HStr s \<Rightarrow> Inr s | _ \<Rightarrow> Inl (Panic ''value is not a string''))"

definition field_string :: "(string \<times> hval) list \<Rightarrow> string \<Rightarrow> string res" where
  "field_string valMap k = (case map_of valMap k of None \<Rightarrow> Inr [] | Some v \<Rightarrow> AsString v)"

fun providersOf :: "(string \<times> hval res) list \<Rightarrow> (string, RequiredProvider) gomap \<Rightarrow>
    ((string, RequiredProvider) gomap) res" where
  "providersOf [] result = Inr result"
| "providersOf ((providerName, val) # attrs) result =
     (case val of
        Inl e \<Rightarrow> Inl e
      | Inr (HObj valMap) \<Rightarrow>
        (case field_string valMap ''source'' of
           Inl e \<Rightarrow> Inl e
         | Inr src \<Rightarrow>
           (case field_string valMap ''version'' of
              Inl e \<Rightarrow> Inl e
            | Inr ver \<Rightarrow> providersOf attrs (map_put result providerName \<lparr>rp_Source = src, rp_Version = ver\<rparr>)))
      | Inr _ \<Rightarrow> providersOf attrs result)"

fun providersInBlocks :: "hblock list \<Rightarrow> (string, RequiredProvider) gomap \<Rightarrow>
    ((string, RequiredProvider) gomap) res" where
  "providersInBlocks [] result = Inr result"
| "providersInBlocks (HBlock t ls body # blocks) result =
     (case JustAttributes body of
        Inl e \<Rightarrow> Inl e
      | Inr attrs \<Rightarrow>
        (case providersOf attrs result of
           Inl e \<Rightarrow> Inl e
         | Inr result' \<Rightarrow> providersInBlocks blocks result'))"

fun providersInTerraform :: "hblock list \<Rightarrow> (string, RequiredProvider) gomap \<Rightarrow>
    ((string, RequiredProvider) gomap) res" where
  "providersInTerraform [] result = Inr result"
| "providersInTerraform (HBlock t ls body # blocks) result =
     (case PartialContent ''required_providers'' 0 body of
        Inl e \<Rightarrow> Inl e
      | Inr rps \<Rightarrow>
        (case providersInBlocks rps result of
           Inl e \<Rightarrow> Inl e
         | Inr result' \<Rightarrow> providersInTerraform blocks result'))"

definition ParseHCLFile :: "external \<Rightarrow> string \<Rightarrow> (fs, hbody) op" where
  "ParseHCLFile ext path = andThen (ReadFile path) (\<lambda>c. liftRes (x_hcl ext c))"

definition parseRequiredProviders :: "external \<Rightarrow> string \<Rightarrow> (fs, (string, RequiredProvider) gomap) op" where
  "parseRequiredProviders ext path =
     andThen (ParseHCLFile ext path) (\<lambda>body.
     andThen (liftRes (PartialContent ''terraform'' 0 body)) (\<lambda>blocks.
     liftRes (providersInTerraform blocks [])))"

fun locksOf :: "hblock list \<Rightarrow> (string, ProviderLock) gomap \<Rightarrow> ((string, ProviderLock) gomap) res" where
  "locksOf [] locks = Inr locks"
| "locksOf (HBlock t labels (HBody attrs bs) # blocks) locks =
     (let source = hd labels in
      case map_of attrs ''version'' of
        None \<Rightarrow> locksOf blocks (map_put locks source \<lparr>pl_Source = source, pl_Version = []\<rparr>)
      | Some (Inl e) \<Rightarrow> Inl e
      | Some (Inr v) \<Rightarrow>
        (case AsString v of
           Inl e \<Rightarrow> Inl e
         | Inr ver \<Rightarrow> locksOf blocks (map_put locks source \<lparr>pl_Source = source, pl_Version = ver\<rparr>)))"

definition parseLockFile :: "external \<Rightarrow> string \<Rightarrow> (fs, (string, ProviderLock) gomap) op" where
  "parseLockFile ext path =
     andThen (ParseHCLFile ext path) (\<lambda>body.
     andThen (liftRes (PartialContent ''provider'' 1 body)) (\<lambda>blocks.
     liftRes (locksOf blocks [])))"

text \<open>
  The inner loop over the locks: \<open>None\<close> when a lock of the provider has another version, else
  whether a lock was found.
\<close>

fun findLock :: "string \<Rightarrow> string \<Rightarrow> (string \<times> ProviderLock) list \<Rightarrow> bool \<Rightarrow> bool option" where
  "findLock source version [] found = Some found"
| "findLock source version ((lockSource, lock) # locked) found =
     (if HasSuffix lockSource (''/'' @ source)
      then (if pl_Version lock \<noteq> version then None else findLock source version locked True)
      else findLock source version locked found)"

primrec alignedWith :: "(string \<times> ProviderLock) list \<Rightarrow> (string \<times> RequiredProvider) list \<Rightarrow> bool" where
  "alignedWith locked [] = True"
| "alignedWith locked (np # required) =
     (case findLock (rp_Source (snd np)) (rp_Version (snd np)) locked False of
        Some True \<Rightarrow> alignedWith locked required
      | _ \<Rightarrow> False)"

definition isAligned :: "external \<Rightarrow> string \<Rightarrow> string \<Rightarrow> (fs, bool) op" where
  "isAligned ext mainTfPath lockFilePath =
     andThen (wrapErr (Wrapf ''errore parsing common'') (parseRequiredProviders ext mainTfPath)) (\<lambda>required.
     andThen (wrapErr (Wrapf ''errore parsing lock file'') (parseLockFile ext lockFilePath)) (\<lambda>locked.
     ret (alignedWith locked required)))"

section \<open>Preparing the working directory\<close>

text \<open>The tfexec client is its working directory.\<close>

definition createNewTerraform :: "external \<Rightarrow> string \<Rightarrow> (world, string) op" where
  "createNewTerraform ext workingDir =
     andThen (ask (LookPath ''tofu'') (x_lookPath ext)) (\<lambda>execPath.
     andThen (ask (NewTerraform workingDir) (x_newTerraform ext)) (\<lambda>_. ret workingDir))"

definition fwName :: "FortigateFirewall \<Rightarrow> string" where
  "fwName fw = om_Name (ff_Meta fw)"

definition fcName :: "FortigateConfig \<Rightarrow> string" where
  "fcName cfg = om_Name (fc_Meta cfg)"

definition copyTerraformFiles :: "external \<Rightarrow> FortigateFirewall \<Rightarrow> string \<Rightarrow> string \<Rightarrow> (world, string) op" where
  "copyTerraformFiles ext firewallInstance workingDir templateName =
     andThen (createNewTerraform ext workingDir) (\<lambda>tf.
     andThen (getReg CurrentOperatorConfig) (\<lambda>cfg.
     andThen (onFs (copyFiles (workingDir @ ''/rules-templates/'' @ oc_CommonTemplateSuffix cfg)
                     workingDir (fwName firewallInstance))) (\<lambda>_.
     andThen (onFs (copyFiles (workingDir @ ''/rules-templates/'' @ templateName)
                     workingDir (fwName firewallInstance))) (\<lambda>_.
     ret tf))))"

definition base_dir :: "FortigateConfig \<Rightarrow> FortigateFirewall \<Rightarrow> string \<Rightarrow> string" where
  "base_dir cfg fw id' = ''/tmp/'' @ fwName fw @ ''/'' @ fcName cfg @ ''/'' @ id'"

definition prepareTerraformEnvironment :: "external \<Rightarrow> FortigateConfig \<Rightarrow> FortigateFirewall \<Rightarrow> s3access \<Rightarrow>
    (world, string) op" where
  "prepareTerraformEnvironment ext fortiConfig firewallInstance acc =
     (let effectiveID = om_UID (fc_Meta fortiConfig);
          bucket = ffs_S3BucketName (ff_Spec firewallInstance);
          target = base_dir fortiConfig firewallInstance effectiveID @ ''/''
      in if effectiveID = [] then fail (Errorf ''UID non disponibile, errore nella risorsa kubernetes'' [])
         else
           andThen (onFs (creaDirectory (base_dir fortiConfig firewallInstance effectiveID @ ''/data-dir''))) (\<lambda>_.
           andThen (onFs (creaDirectory (''/tmp/'' @ fwName firewallInstance @ ''/plugin-cache-dir''))) (\<lambda>_.
           andThen (getReg CurrentOperatorConfig) (\<lambda>cfg.
           andThen (copyS3DirContent ext bucket acc (''rules-templates/'' @ oc_CommonTemplateSuffix cfg) target) (\<lambda>_.
           andThen (copyS3DirContent ext bucket acc
                      (''rules-templates/'' @ fcs_TerraformTemplateS3Key (fc_Spec fortiConfig)) target) (\<lambda>_.
           ret effectiveID))))))"

section \<open>Running OpenTofu\<close>

text \<open>
  \<open>initTerraform\<close>: without a lock file \<open>tofu init\<close> runs; with one the versions are compared, and
  the function returns without \<open>init\<close> whatever the comparison says.
\<close>

definition initTerraform :: "external \<Rightarrow> string \<Rightarrow> FortigateConfig \<Rightarrow> string \<Rightarrow> FortigateFirewall \<Rightarrow>
    s3access \<Rightarrow> (world, string) op" where
  "initTerraform ext tf fortiConfig id' firewallInstance acc =
     (let dir = base_dir fortiConfig firewallInstance id';
          tfLockFile = dir @ ''/.terraform.lock.hcl'';
          commonTfFile = dir @ ''/'' @ fwName firewallInstance @ ''_'' @
            oc_CommonTemplateSuffix DefaultOperatorConfig
      in andThen (setenvs [(''AWS_ACCESS_KEY_ID'', a_accessKeyID acc),
                           (''AWS_SECRET_ACCESS_KEY'', a_secretAccessKey acc),
                           (''TF_DATA_DIR'', dir @ ''/data-dir''),
                           (''TF_PLUGIN_CACHE_DIR'', ''/tmp/'' @ fwName firewallInstance @ ''/plugin-cache-dir'')]) (\<lambda>_ w.
         case Stat_perm tfLockFile (w_fs w) of
           (Inl e, _) \<Rightarrow>
             if IsNotExist e then andThen (tofu ext (TofuInit tf)) (\<lambda>_. ret tf) w
             else andThen (onFs (isAligned ext commonTfFile tfLockFile)) (\<lambda>aligned. ret tf) w
         | (Inr _, _) \<Rightarrow> andThen (onFs (isAligned ext commonTfFile tfLockFile)) (\<lambda>aligned. ret tf) w))"

definition applyTerraform :: "external \<Rightarrow> string \<Rightarrow> (world, unit) op" where
  "applyTerraform ext tf =
     andThen (tofu ext (TofuPlan tf)) (\<lambda>changes.
     if changes then andThen (tofu ext (TofuApply tf)) (\<lambda>_. ret ()) else ret ())"

definition deleteTerraform :: "external \<Rightarrow> string \<Rightarrow> FortigateConfig \<Rightarrow> FortigateFirewall \<Rightarrow> s3access \<Rightarrow>
    string \<Rightarrow> (world, unit) op" where
  "deleteTerraform ext tf fortiConfig firewallInstance acc id' =
     andThen (initTerraform ext tf fortiConfig id' firewallInstance acc) (\<lambda>tf.
     andThen (tofu ext (TofuDestroy tf)) (\<lambda>_. ret ()))"

definition execTerraform :: "external \<Rightarrow> string \<Rightarrow> FortigateConfig \<Rightarrow> FortigateFirewall \<Rightarrow> s3access \<Rightarrow>
    string \<Rightarrow> (world, unit) op" where
  "execTerraform ext tf fortiConfig firewallInstance acc id' =
     andThen (initTerraform ext tf fortiConfig id' firewallInstance acc) (\<lambda>tf.
     applyTerraform ext tf)"

section \<open>controller.go\<close>

definition tfCommon :: "string \<Rightarrow> string \<Rightarrow> string \<Rightarrow> string \<Rightarrow> string \<Rightarrow> string \<Rightarrow>
    (world, modification list) op" where
  "tfCommon token fortiIP bucketName tfStateName s3Url filename =
     andThen (getReg (\<lambda>g. buildCommonMods g token fortiIP bucketName tfStateName s3Url)) (\<lambda>mods.
     andThen (wrapErr (Wrapf (''modifica di '' @ filename @ '' fallita''))
                (onFs (modifyFileValue filename mods))) (\<lambda>_.
     case splitTerraformExt filename of (base, ext) \<Rightarrow>
       let final = base @ ext in
       if final \<noteq> filename then
         andThen (wrapErr (Wrapf (''rinomina di '' @ filename @ '' fallita''))
                    (onFs (Rename filename final))) (\<lambda>_. ret mods)
       else ret mods))"

text \<open>The first half of \<open>selectOperatorRule\<close>: everything up to the run of OpenTofu.\<close>

definition applyRule :: "external \<Rightarrow> string \<Rightarrow> string \<Rightarrow> FortigateConfig \<Rightarrow> FortigateFirewall \<Rightarrow>
    (world, string) op" where
  "applyRule ext template workingDir fortiConfig firewallInstance =
     andThen (wrapErr (Wrapf ''copia dei file Terraform fallita'')
                (copyTerraformFiles ext firewallInstance workingDir template)) (\<lambda>tf.
     let fileName = workingDir @ ''/'' @ fwName firewallInstance @ ''_'' @ template in
     andThen (wrapErr (Wrapf ''elaborazione dei blocchi FOR fallita'')
                (onFs (smartNestedProcess fileName fortiConfig))) (\<lambda>_.
     case splitTerraformExt fileName of (finalBase, finalExt) \<Rightarrow>
     let fileName = finalBase @ finalExt in
     andThen (getReg (\<lambda>g. (lookupOperatorRule g (fcs_OperatorRule (fc_Spec fortiConfig)),
                           KnownOperatorRules g))) (\<lambda>(handler, known).
     case handler of
       None \<Rightarrow> fail (Errorf ''OperatorRule %q non riconosciuta (regole disponibili: %v)''
                       (fcs_OperatorRule (fc_Spec fortiConfig) # known))
     | Some apply' \<Rightarrow>
       andThen (wrapErr (Wrapf (''applicazione della regola '' @ fcs_OperatorRule (fc_Spec fortiConfig) @ '' fallita''))
                  (onFs (apply' fortiConfig fileName))) (\<lambda>_. ret tf))))"

definition selectOperatorRule :: "external \<Rightarrow> string \<Rightarrow> string \<Rightarrow> string \<Rightarrow> string \<Rightarrow> FortigateConfig \<Rightarrow>
    FortigateFirewall \<Rightarrow> s3access \<Rightarrow> string \<Rightarrow> bool \<Rightarrow> (world, unit) op" where
  "selectOperatorRule ext template workingDir token fortiIP fortiConfig firewallInstance acc uuid createOrUpdate =
     andThen (applyRule ext template workingDir fortiConfig firewallInstance) (\<lambda>tf.
     andThen (getReg CurrentOperatorConfig) (\<lambda>cfg.
     let tfStateName = fwName firewallInstance @ ''/'' @ uuid @ ''/'' @ fcName fortiConfig @ ''/'' @
           oc_TerraformStateFileName cfg;
         commonFile = workingDir @ ''/'' @ fwName firewallInstance @ ''_'' @ oc_CommonTemplateSuffix cfg;
         bucket = ffs_S3BucketName (ff_Spec firewallInstance)
     in andThen (wrapErr (Wrapf ''creazione delle modifiche comuni fallita'')
                   (tfCommon token fortiIP bucket tfStateName (a_s3Url acc) commonFile)) (\<lambda>_.
        if createOrUpdate then
          wrapErr (Wrapf ''esecuzione di Terraform fallita'')
            (execTerraform ext tf fortiConfig firewallInstance acc uuid)
        else
          andThen (wrapErr (Wrapf ''cancellazione delle risorse Terraform fallita'')
                     (deleteTerraform ext tf fortiConfig firewallInstance acc uuid)) (\<lambda>_.
          wrapErr (Wrapf ''cancellazione della directory S3 fallita'')
            (deleteS3Dir ext bucket (fwName firewallInstance @ ''/'' @ uuid) acc)))))"

end
