(* ===== verification/Terraform_Facts.thy ===== *)
theory Terraform_Facts
  imports Terraform
begin

text \<open>
  What the run of OpenTofu may do and when: the calls each step of \<^theory_text>\<open>Terraform\<close> makes,
  and the meaning of the provider comparison.
\<close>

section \<open>The provider comparison\<close>

definition locks_for :: "RequiredProvider \<Rightarrow> (string \<times> ProviderLock) list \<Rightarrow> (string \<times> ProviderLock) list" where
  "locks_for r locked = filter (\<lambda>l. HasSuffix (fst l) (''/'' @ rp_Source r)) locked"

lemma findLock_spec:
  "findLock src ver locked found =
     (let ls = filter (\<lambda>l. HasSuffix (fst l) (''/'' @ src)) locked in
      if \<exists>l \<in> set ls. pl_Version (snd l) \<noteq> ver then None else Some (found \<or> ls \<noteq> []))"
  by (induction src ver locked found rule: findLock.induct) (auto simp: Let_def)

lemma alignedWith_iff:
  "alignedWith locked required \<longleftrightarrow>
     (\<forall>(n, r) \<in> set required. locks_for r locked \<noteq> [] \<and>
        (\<forall>(s, l) \<in> set (locks_for r locked). pl_Version l = rp_Version r))"
proof (induction required)
  case Nil
  then show ?case by simp
next
  case (Cons np required)
  obtain n r where np: "np = (n, r)" by (cases np)
  have "findLock (rp_Source r) (rp_Version r) locked False = Some True \<longleftrightarrow>
     locks_for r locked \<noteq> [] \<and> (\<forall>(s, l) \<in> set (locks_for r locked). pl_Version l = rp_Version r)"
    unfolding findLock_spec locks_for_def Let_def by (auto simp: case_prod_beta')
  moreover have "(case findLock (rp_Source r) (rp_Version r) locked False of
        Some True \<Rightarrow> alignedWith locked required | _ \<Rightarrow> False) \<longleftrightarrow>
     findLock (rp_Source r) (rp_Version r) locked False = Some True \<and> alignedWith locked required"
    by (auto split: option.splits bool.splits)
  ultimately show ?case using Cons.IH by (simp add: np)
qed

section \<open>Calls to OpenTofu\<close>

definition is_tofu :: "call \<Rightarrow> bool" where
  "is_tofu c = (case c of TofuInit d \<Rightarrow> True | TofuPlan d \<Rightarrow> True | TofuApply d \<Rightarrow> True
     | TofuDestroy d \<Rightarrow> True | _ \<Rightarrow> False)"

lemma quiet_createS3Client:
  "(\<And>u k s r. \<not> P (S3Config u k s r)) \<Longrightarrow> quiet P (createS3Client ext acc)"
  unfolding createS3Client_def by (intro quiet_intros) (simp add: quiet_ask)

lemma quiet_copyTerraformFiles:
  "\<not> P (LookPath ''tofu'') \<Longrightarrow> \<not> P (NewTerraform dir) \<Longrightarrow> quiet P (copyTerraformFiles ext fw dir t)"
  unfolding copyTerraformFiles_def createNewTerraform_def
  by (intro quiet_intros) (simp_all add: quiet_ask)

lemma quiet_tfCommon: "quiet P (tfCommon token ip b st url f)"
  unfolding tfCommon_def Let_def
  by (cases "splitTerraformExt f") (auto intro!: quiet_intros simp del: op_simps)

lemma quiet_applyRule_gen:
  assumes "\<not> P (LookPath ''tofu'')" "\<not> P (NewTerraform dir)"
  shows "quiet P (applyRule ext t dir cfg fw)"
proof -
  have rule: "quiet P (case h of
       None \<Rightarrow> fail E
     | Some apply' \<Rightarrow> andThen (wrapErr g (onFs (apply' cfg f))) (\<lambda>_. ret tf))" for h E g f tf
    by (cases h) (auto intro!: quiet_intros simp del: op_simps)
  show ?thesis
    unfolding applyRule_def Let_def
    by (cases "splitTerraformExt (dir @ ''/'' @ fwName fw @ ''_'' @ t)")
      (auto intro!: quiet_intros quiet_copyTerraformFiles rule assms simp del: op_simps)
qed

lemma quiet_applyRule: "quiet is_tofu (applyRule ext t dir cfg fw)"
  by (rule quiet_applyRule_gen) (simp_all add: is_tofu_def)

text \<open>OpenTofu is reached only when the rule and the common substitutions have been applied.\<close>

lemma selectOperatorRule_cases:
  assumes run: "selectOperatorRule ext t dir token ip cfg fw acc uuid cu w = (r, w')"
    and made: "w_log w' = w_log w @ cs" "c \<in> set cs" "is_tofu c"
  obtains tf w1 where "applyRule ext t dir cfg fw w = (Inr tf, w1)"
proof (cases "applyRule ext t dir cfg fw w")
  case (Pair r1 w1)
  show ?thesis
  proof (cases r1)
    case (Inl e)
    with Pair run have "w' = w1" by (simp add: selectOperatorRule_def andThen_Inl)
    moreover from quietE [OF quiet_applyRule, of ext t dir cfg fw w] Pair obtain ds where
      "w_log w1 = w_log w @ ds" "\<forall>c \<in> set ds. \<not> is_tofu c" by auto
    ultimately show ?thesis using made by simp
  next
    case (Inr tf)
    with Pair that show ?thesis by simp
  qed
qed

lemma applyRule_ok:
  assumes "applyRule ext t dir cfg fw w = (Inr tf, w')"
  obtains h w1 f0 where
    "copyTerraformFiles ext fw dir t w = (Inr tf, w1)"
    "smartNestedProcess (dir @ ''/'' @ fwName fw @ ''_'' @ t) cfg (w_fs w1) = (Inr (), f0)"
    "lookupOperatorRule (w_reg w1) (fcs_OperatorRule (fc_Spec cfg)) = Some h"
    "h cfg (finalName (dir @ ''/'' @ fwName fw @ ''_'' @ t)) f0 = (Inr (), w_fs w')"
    "w_reg w' = w_reg w1" "w_log w' = w_log w1"
proof -
  let ?f = "dir @ ''/'' @ fwName fw @ ''_'' @ t"
  obtain b x where bx: "splitTerraformExt ?f = (b, x)" by (cases "splitTerraformExt ?f")
  from assms obtain tf1 w1 w2 hk w3 where
    c: "copyTerraformFiles ext fw dir t w = (Inr tf1, w1)"
    and s: "onFs (smartNestedProcess ?f cfg) w1 = (Inr (), w2)"
    and g: "getReg (\<lambda>g. (lookupOperatorRule g (fcs_OperatorRule (fc_Spec cfg)), KnownOperatorRules g)) w2 =
            (Inr hk, w3)"
    and h: "(case hk of (handler, known) \<Rightarrow>
       case handler of
         None \<Rightarrow> fail (Errorf ''OperatorRule %q non riconosciuta (regole disponibili: %v)''
                         (fcs_OperatorRule (fc_Spec cfg) # known))
       | Some apply' \<Rightarrow>
         andThen (wrapErr (Wrapf (''applicazione della regola '' @ fcs_OperatorRule (fc_Spec cfg) @ '' fallita''))
                    (onFs (apply' cfg (b @ x)))) (\<lambda>_. ret tf1)) w3 = (Inr tf, w')"
    unfolding applyRule_def Let_def bx by (auto simp: andThen_ok wrapErr_ok simp del: op_simps)
  from g have w3: "w3 = w2" and hk: "hk = (lookupOperatorRule (w_reg w2) (fcs_OperatorRule (fc_Spec cfg)),
      KnownOperatorRules (w_reg w2))" by (auto simp: getReg_def)
  from h hk obtain hd where hd: "lookupOperatorRule (w_reg w2) (fcs_OperatorRule (fc_Spec cfg)) = Some hd"
    by (auto split: option.splits)
  with h hk w3 have ap: "onFs (hd cfg (b @ x)) w2 = (Inr (), w')" and tf: "tf1 = tf"
    by (auto simp: andThen_ok wrapErr_ok)
  from s obtain f0 where f0: "smartNestedProcess ?f cfg (w_fs w1) = (Inr (), f0)" "w2 = w1\<lparr>w_fs := f0\<rparr>"
    by (auto simp: onFs_def split: prod.splits)
  show ?thesis
  proof (rule that)
    show "copyTerraformFiles ext fw dir t w = (Inr tf, w1)" using c tf by simp
    show "smartNestedProcess ?f cfg (w_fs w1) = (Inr (), f0)" by (rule f0)
    show "lookupOperatorRule (w_reg w1) (fcs_OperatorRule (fc_Spec cfg)) = Some hd" using hd f0 by simp
    show "hd cfg (finalName ?f) f0 = (Inr (), w_fs w')" "w_reg w' = w_reg w1" "w_log w' = w_log w1"
      using ap f0 bx by (auto simp: onFs_def finalName_def split: prod.splits)
  qed
qed

section \<open>Init, plan, apply, destroy\<close>

lemma setenvs_state:
  "setenvs kvs w = (r, w') \<Longrightarrow> r = Inr () \<and> w_fs w' = w_fs w \<and> w_log w' = w_log w \<and> w_reg w' = w_reg w"
  by (induction kvs arbitrary: w) (auto simp: setenvs_def andThen_def Setenv_def)

definition lockFile :: "FortigateConfig \<Rightarrow> FortigateFirewall \<Rightarrow> string \<Rightarrow> string" where
  "lockFile cfg fw id' = base_dir cfg fw id' @ ''/.terraform.lock.hcl''"

lemma initTerraform_log:
  assumes run: "initTerraform ext tf cfg id' fw acc w = (r, w')"
  shows "w_log w' = w_log w @
    (if file_at (w_fs w) (lockFile cfg fw id') = None \<and> \<not> is_dir (w_fs w) (lockFile cfg fw id')
     then [TofuInit tf] else [])"
proof -
  let ?kvs = "[(''AWS_ACCESS_KEY_ID'', a_accessKeyID acc),
     (''AWS_SECRET_ACCESS_KEY'', a_secretAccessKey acc),
     (''TF_DATA_DIR'', base_dir cfg fw id' @ ''/data-dir''),
     (''TF_PLUGIN_CACHE_DIR'', ''/tmp/'' @ fwName fw @ ''/plugin-cache-dir'')]"
  obtain r0 w0 where s: "setenvs ?kvs w = (r0, w0)" by (cases "setenvs ?kvs w")
  note st = setenvs_state [OF s]
  let ?L = "lockFile cfg fw id'"
  have run': "(case Stat_perm ?L (w_fs w0) of
           (Inl e, _) \<Rightarrow>
             if IsNotExist e then andThen (tofu ext (TofuInit tf)) (\<lambda>_. ret tf) w0
             else andThen (onFs (isAligned ext (base_dir cfg fw id' @ ''/'' @ fwName fw @ ''_'' @
               oc_CommonTemplateSuffix DefaultOperatorConfig) ?L)) (\<lambda>aligned. ret tf) w0
         | (Inr _, _) \<Rightarrow> andThen (onFs (isAligned ext (base_dir cfg fw id' @ ''/'' @ fwName fw @ ''_'' @
               oc_CommonTemplateSuffix DefaultOperatorConfig) ?L)) (\<lambda>aligned. ret tf) w0) = (r, w')"
    using run s st unfolding initTerraform_def Let_def lockFile_def [symmetric]
    by (simp add: andThen_def)
  have al: "w_log w' = w_log w0" if "andThen (onFs m) (\<lambda>aligned. ret tf) w0 = (r, w')" for m :: "(fs, bool) op"
    using that by (auto simp: andThen_def onFs_def split: prod.splits sum.splits)
  have it: "w_log w' = w_log w0 @ [TofuInit tf]"
    if "andThen (tofu ext (TofuInit tf)) (\<lambda>_. ret tf) w0 = (r, w')"
    using that by (auto simp: andThen_def tofu_def split: prod.splits sum.splits)
  show ?thesis
  proof (cases "file_at (w_fs w) ?L = None \<and> \<not> is_dir (w_fs w) ?L")
    case True
    with run' st have "andThen (tofu ext (TofuInit tf)) (\<lambda>_. ret tf) w0 = (r, w')"
      by (simp add: Stat_perm_def IsNotExist_def)
    with it True st show ?thesis by simp
  next
    case False
    then obtain p where p: "Stat_perm ?L (w_fs w0) = (Inr p, w_fs w0)"
      using st by (cases "file_at (w_fs w) ?L") (simp_all add: Stat_perm_def)
    from run' have "w_log w' = w_log w0" unfolding p by (intro al) simp
    with False st show ?thesis by simp
  qed
qed

lemma initTerraform_result: "initTerraform ext tf cfg id' fw acc w = (Inr tf', w') \<Longrightarrow> tf' = tf"
proof -
  assume run: "initTerraform ext tf cfg id' fw acc w = (Inr tf', w')"
  let ?L = "base_dir cfg fw id' @ ''/.terraform.lock.hcl''"
  from run obtain w0 where w0: "(case Stat_perm ?L (w_fs w0) of
           (Inl e, _) \<Rightarrow>
             if IsNotExist e then andThen (tofu ext (TofuInit tf)) (\<lambda>_. ret tf) w0
             else andThen (onFs (isAligned ext (base_dir cfg fw id' @ ''/'' @ fwName fw @ ''_'' @
               oc_CommonTemplateSuffix DefaultOperatorConfig) ?L)) (\<lambda>aligned. ret tf) w0
         | (Inr _, _) \<Rightarrow> andThen (onFs (isAligned ext (base_dir cfg fw id' @ ''/'' @ fwName fw @ ''_'' @
               oc_CommonTemplateSuffix DefaultOperatorConfig) ?L)) (\<lambda>aligned. ret tf) w0) = (Inr tf', w')"
    unfolding initTerraform_def Let_def andThen_ok [of "setenvs _"] by blast
  obtain r f where "Stat_perm ?L (w_fs w0) = (r, f)" by (cases "Stat_perm ?L (w_fs w0)")
  with w0 show "tf' = tf" by (cases r) (auto simp: andThen_ok split: if_splits)
qed

lemma tofu_log: "tofu ext c w = (r, w') \<Longrightarrow> w_log w' = w_log w @ [c]"
  by (auto simp: tofu_def split: prod.splits)

lemma applyTerraform_log:
  assumes "applyTerraform ext tf w = (r, w')"
  shows "w_log w' = w_log w @ (if fst (tofu ext (TofuPlan tf) w) = Inr True
    then [TofuPlan tf, TofuApply tf] else [TofuPlan tf])"
proof -
  obtain p w1 where p: "tofu ext (TofuPlan tf) w = (p, w1)" by (cases "tofu ext (TofuPlan tf) w")
  show ?thesis
  proof (cases p)
    case (Inl e)
    with assms p tofu_log [OF p] show ?thesis by (simp add: applyTerraform_def andThen_Inl)
  next
    case (Inr changes)
    show ?thesis
    proof (cases changes)
      case False
      with Inr assms p tofu_log [OF p] show ?thesis by (simp add: applyTerraform_def andThen_Inr)
    next
      case True
      obtain a w2 where a: "tofu ext (TofuApply tf) w1 = (a, w2)" by (cases "tofu ext (TofuApply tf) w1")
      have "w' = w2" using assms p a Inr True
        by (cases a) (simp_all add: applyTerraform_def andThen_def)
      with tofu_log [OF p] tofu_log [OF a] Inr True p show ?thesis by simp
    qed
  qed
qed

text \<open>The calls a rule and its run may make at all.\<close>

definition terraform_call :: "call \<Rightarrow> bool" where
  "terraform_call c = (is_tofu c \<or> (case c of LookPath s \<Rightarrow> True | NewTerraform d \<Rightarrow> True
     | S3Config u k s r \<Rightarrow> True | S3List b p \<Rightarrow> True | S3Delete b ks \<Rightarrow> True | _ \<Rightarrow> False))"

lemma terraform_call_simps [simp]:
  "terraform_call (LookPath s)" "terraform_call (NewTerraform d)" "terraform_call (TofuInit d)"
  "terraform_call (TofuPlan d)" "terraform_call (TofuApply d)" "terraform_call (TofuDestroy d)"
  "terraform_call (S3Config u k s r)" "terraform_call (S3List b p)" "terraform_call (S3Delete b ks)"
  by (simp_all add: terraform_call_def is_tofu_def)

lemma quiet_tofu: "quiet P (tofu ext c) \<longleftrightarrow> \<not> P c"
  by (auto simp: quiet_def made_def tofu_def split: prod.splits)

lemma quiet_initTerraform:
  assumes "\<not> P (TofuInit tf)"
  shows "quiet P (initTerraform ext tf cfg id' fw acc)"
proof (rule quietI)
  fix w
  obtain r w' where "initTerraform ext tf cfg id' fw acc w = (r, w')"
    by (cases "initTerraform ext tf cfg id' fw acc w")
  with initTerraform_log [OF this] assms
  show "\<exists>cs. w_log (snd (initTerraform ext tf cfg id' fw acc w)) = w_log w @ cs \<and> (\<forall>c \<in> set cs. \<not> P c)"
    by (auto split: if_splits)
qed

lemma quiet_applyTerraform:
  "\<not> P (TofuPlan tf) \<Longrightarrow> \<not> P (TofuApply tf) \<Longrightarrow> quiet P (applyTerraform ext tf)"
  unfolding applyTerraform_def by (auto intro!: quiet_intros simp: quiet_tofu simp del: op_simps)

section \<open>Deleting the state\<close>


lemma quiet_deletePages: "(\<And>ks. \<not> P (S3Delete b ks)) \<Longrightarrow> quiet P (deletePages ext b pages)"
  by (induction pages) (auto intro!: quiet_intros simp: quiet_ask simp del: op_simps)

lemma deletePages_ok:
  "deletePages ext b pages w = (Inr u, w') \<Longrightarrow>
     w_log w' = w_log w @ map (S3Delete b) (filter (\<lambda>ks. ks \<noteq> []) (map projr pages)) \<and>
     list_all is_ok pages"
proof (induction pages arbitrary: w)
  case Nil
  then show ?case by simp
next
  case (Cons page pages)
  from Cons.prems obtain ks where page: "page = Inr ks"
    by (cases page) (auto simp: andThen_def wrapErr_def)
  show ?case
  proof (cases "ks = []")
    case True
    with page Cons.prems have "deletePages ext b pages w = (Inr u, w')"
      by (simp add: andThen_def wrapErr_def)
    with Cons.IH page True show ?thesis by simp
  next
    case False
    with page Cons.prems have "deletePages ext b pages (w\<lparr>w_log := w_log w @ [S3Delete b ks]\<rparr>) = (Inr u, w')"
      by (auto simp: andThen_def wrapErr_def ask_def split: sum.splits if_splits)
    from Cons.IH [OF this] page False show ?thesis by simp
  qed
qed

lemma quiet_selectOperatorRule:
  assumes P: "\<And>c. terraform_call c \<Longrightarrow> \<not> P c"
  shows "quiet P (selectOperatorRule ext t dir token ip cfg fw acc uuid cu)"
  unfolding selectOperatorRule_def execTerraform_def deleteTerraform_def deleteS3Dir_def
    createS3Client_def Let_def
  by (auto intro!: quiet_intros quiet_applyRule_gen quiet_tfCommon quiet_initTerraform
      quiet_applyTerraform quiet_deletePages P simp: quiet_tofu quiet_ask P simp del: op_simps)

end
