(* ===== verification/Cluster.thy ===== *)
theory Cluster
  imports World
begin

text \<open>
  Operations on the Kubernetes API: \<open>secrets_read.go\<close>, \<open>clone_pvc.go\<close> and the parts of
  \<open>create_fortios_vm.go\<close> and \<open>create_vyos_vm.go\<close> that talk to it.  The answers of the API server
  are the functions of the record \<open>cluster\<close>; \<open>k_do\<close> answers writes and other requests without
  a result.  Polling loops take the number of rounds they are followed for.
\<close>

record cluster =
  k_get_config :: "call list \<Rightarrow> string \<Rightarrow> string \<Rightarrow> FortigateConfig res"
  k_get_fgt :: "call list \<Rightarrow> string \<Rightarrow> string \<Rightarrow> FortigateFirewall res"
  k_get_fw :: "call list \<Rightarrow> string \<Rightarrow> string \<Rightarrow> Firewall res"
  k_get_update :: "call list \<Rightarrow> string \<Rightarrow> string \<Rightarrow> FortigateUpdate res"
  k_get_path :: "call list \<Rightarrow> string \<Rightarrow> string \<Rightarrow> FortigateUpdatePath res"
  k_list_paths :: "call list \<Rightarrow> string option \<Rightarrow> FortigateUpdatePath list res"
  k_get_secret :: "call list \<Rightarrow> string \<Rightarrow> string \<Rightarrow> (string, string) gomap res"
  k_get_vm :: "call list \<Rightarrow> string \<Rightarrow> string \<Rightarrow> VirtualMachine res"
  k_get_pvc :: "call list \<Rightarrow> string \<Rightarrow> string \<Rightarrow> PersistentVolumeClaim res"
  k_exists :: "call list \<Rightarrow> string \<Rightarrow> string \<Rightarrow> string \<Rightarrow> unit res"
  k_do :: "call list \<Rightarrow> call \<Rightarrow> unit res"

definition kget :: "(call list \<Rightarrow> string \<Rightarrow> string \<Rightarrow> 'a res) \<Rightarrow> string \<Rightarrow> string \<Rightarrow> string \<Rightarrow> (world, 'a) op" where
  "kget f kind ns name = ask (KGet kind ns name) (\<lambda>h. f h ns name)"

definition kdo :: "cluster \<Rightarrow> call \<Rightarrow> (world, unit) op" where
  "kdo cl c = ask c (\<lambda>h. k_do cl h c)"

section \<open>secrets_read.go\<close>

fun pickKeys :: "(string, string) gomap \<Rightarrow> string list \<Rightarrow> (string, string) gomap \<Rightarrow>
    (string, string) gomap res" where
  "pickKeys data [] result = Inr result"
| "pickKeys data (key # keys) result =
     (case map_of data key of
        None \<Rightarrow> Inl (Errorf ''key %s not found in secret'' [key])
      | Some value \<Rightarrow> pickKeys data keys (map_put result key value))"

definition getSecretValues :: "cluster \<Rightarrow> string \<Rightarrow> string \<Rightarrow> string list \<Rightarrow>
    (world, (string, string) gomap) op" where
  "getSecretValues cl namespace name keys =
     andThen (wrapErr (Wrapf (''failed to get secret '' @ namespace @ ''/'' @ name))
                (kget (k_get_secret cl) ''Secret'' namespace name)) (\<lambda>data.
     liftRes (pickKeys data keys []))"

section \<open>clone_pvc.go\<close>

definition clientset :: "cluster \<Rightarrow> (world, unit) op" where
  "clientset cl = kdo cl KConfig"

definition pvcOriginalSize :: "cluster \<Rightarrow> string \<Rightarrow> string \<Rightarrow> (world, string) op" where
  "pvcOriginalSize cl namespace name =
     orElse (kget (k_get_pvc cl) ''PersistentVolumeClaim'' namespace name)
       (\<lambda>e. ret []) (\<lambda>origPvc. ret (pvc_Storage origPvc))"

definition clonePVC :: "cluster \<Rightarrow> string \<Rightarrow> string \<Rightarrow> string \<Rightarrow> string \<Rightarrow> (world, unit) op" where
  "clonePVC cl source target namespace storageClass =
     andThen (clientset cl) (\<lambda>_.
     orElse (kget (k_get_pvc cl) ''PersistentVolumeClaim'' namespace target)
       (\<lambda>e. andThen (pvcOriginalSize cl namespace source) (\<lambda>size.
            kdo cl (KCreate (OPVC
              \<lparr>pvc_Name = target,
               pvc_Namespace = namespace,
               pvc_StorageClass = storageClass,
               pvc_AccessModes = [''ReadWriteOnce''],
               pvc_Storage = size,
               pvc_DataSource = source,
               pvc_Phase = []\<rparr>))))
       (\<lambda>pvc. ret ()))"

text \<open>\<open>pollPVC n\<close> follows the loop for at most \<open>n\<close> rounds.\<close>

primrec pollPVC :: "nat \<Rightarrow> cluster \<Rightarrow> string \<Rightarrow> string \<Rightarrow> (world, unit) op" where
  "pollPVC 0 cl name namespace = fail Waiting"
| "pollPVC (Suc n) cl name namespace =
     andThen (kget (k_get_pvc cl) ''PersistentVolumeClaim'' namespace name) (\<lambda>pvc.
     if pvc_Phase pvc = ''Bound'' then ret ()
     else andThen (ask (Sleep 3) (\<lambda>_. Inr ())) (\<lambda>_. pollPVC n cl name namespace))"

definition CheckFirewallPVC :: "nat \<Rightarrow> cluster \<Rightarrow> string \<Rightarrow> string \<Rightarrow> (world, unit) op" where
  "CheckFirewallPVC n cl name namespace =
     andThen (clientset cl) (\<lambda>_. pollPVC n cl name namespace)"

text \<open>The errors of the four calls at the end are dropped by the code.\<close>

definition createPVC :: "nat \<Rightarrow> cluster \<Rightarrow> string \<Rightarrow> string \<Rightarrow> string \<Rightarrow> string \<Rightarrow> string \<Rightarrow> unit res \<Rightarrow> bool \<Rightarrow>
    (world, unit) op" where
  "createPVC n cl firewallType firewallName version namespace storageClassName err hasCloudInit =
     (case err of
        Inl e \<Rightarrow>
          if IsNotFound e then fail (Errorf ''storage class '%s' non trovata'' [storageClassName])
          else fail e
      | Inr _ \<Rightarrow>
        andThen (liftRes (goldenImages firewallType version)) (\<lambda>(goldenImageFirewallName, goldenImageCloudInitName).
        andThen (ignoreErr (clonePVC cl goldenImageFirewallName (firewallName @ ''-'' @ version) namespace
                              storageClassName)) (\<lambda>_.
        andThen (if hasCloudInit
                 then ignoreErr (clonePVC cl goldenImageCloudInitName
                        (firewallName @ ''-'' @ version @ ''-cloud-init'') namespace storageClassName)
                 else ret ()) (\<lambda>_.
        andThen (ignoreErr (CheckFirewallPVC n cl (firewallName @ ''-'' @ version) namespace)) (\<lambda>_.
        if hasCloudInit
        then ignoreErr (CheckFirewallPVC n cl (firewallName @ ''-'' @ version @ ''-cloud-init'') namespace)
        else ret ())))))"

definition CreateNewFirewallPVC :: "nat \<Rightarrow> cluster \<Rightarrow> string \<Rightarrow> string \<Rightarrow> string \<Rightarrow> string \<Rightarrow> string \<Rightarrow> bool \<Rightarrow>
    (world, unit) op" where
  "CreateNewFirewallPVC n cl firewallName version namespace storageClassName firewallType hasCloudInit =
     orElse (ask (KGet ''StorageClass'' [] storageClassName)
               (\<lambda>h. k_exists cl h ''StorageClass'' [] storageClassName))
       (\<lambda>e. createPVC n cl firewallType firewallName version namespace storageClassName (Inl e) hasCloudInit)
       (\<lambda>_. createPVC n cl firewallType firewallName version namespace storageClassName (Inr ()) hasCloudInit)"

definition CreateNewFortigateFirewallPVC :: "nat \<Rightarrow> cluster \<Rightarrow> string \<Rightarrow> string \<Rightarrow> string \<Rightarrow> string \<Rightarrow> string \<Rightarrow>
    (world, unit) op" where
  "CreateNewFortigateFirewallPVC n cl firewallName version namespace storageClassName firewallType =
     orElse (ask (KGet ''StorageClass'' [] storageClassName)
               (\<lambda>h. k_exists cl h ''StorageClass'' [] storageClassName))
       (\<lambda>e. createPVC n cl firewallType firewallName version namespace storageClassName (Inl e) True)
       (\<lambda>_. createPVC n cl firewallType firewallName version namespace storageClassName (Inr ()) True)"

primrec deletePVCs :: "cluster \<Rightarrow> string \<Rightarrow> string list \<Rightarrow> (world, unit) op" where
  "deletePVCs cl namespace [] = ret ()"
| "deletePVCs cl namespace (pvcName # names) =
     andThen (kdo cl (KDelete ''PersistentVolumeClaim'' namespace pvcName)) (\<lambda>_.
     deletePVCs cl namespace names)"

definition DeleteFirewallPVC :: "cluster \<Rightarrow> string \<Rightarrow> string \<Rightarrow> string \<Rightarrow> (world, unit) op" where
  "DeleteFirewallPVC cl firewallName fortigateVersion namespace =
     andThen (clientset cl) (\<lambda>_.
     deletePVCs cl namespace (pvcToDelete firewallName fortigateVersion))"

section \<open>create_fortios_vm.go\<close>

definition restart_path :: "string \<Rightarrow> string \<Rightarrow> string" where
  "restart_path namespace name = ''/apis/subresources.kubevirt.io/v1/namespaces/'' @ namespace @
     ''/virtualmachines/'' @ name @ ''/restart''"

definition restartFortigateVM :: "cluster \<Rightarrow> string \<Rightarrow> string \<Rightarrow> (world, unit) op" where
  "restartFortigateVM cl firewallName namespace =
     andThen (kget (k_get_vm cl) ''VirtualMachine'' namespace firewallName) (\<lambda>existingVM.
     andThen (clientset cl) (\<lambda>_.
     kdo cl (Http ''PUT'' (restart_path (vm_Namespace existingVM) (vm_Name existingVM)))))"

text \<open>
  An existing machine gets the interfaces of the spec and is restarted if they differ; a machine
  that cannot be read, for whatever reason, is created.
\<close>

definition updateNICs :: "VirtualMachine \<Rightarrow> vmInterface list \<times> vmNetwork list \<Rightarrow> VirtualMachine" where
  "updateNICs vm nics = vm\<lparr>vm_Networks := snd nics, vm_Interfaces := fst nics\<rparr>"

definition createFortigateFirewall :: "cluster \<Rightarrow> string \<Rightarrow> string \<Rightarrow> string \<Rightarrow> FortigateFirewallSpec \<Rightarrow>
    (world, unit) op" where
  "createFortigateFirewall cl firewallName fortigateVersion namespace spec =
     orElse (kget (k_get_vm cl) ''VirtualMachine'' namespace firewallName)
       (\<lambda>e. kdo cl (KCreate (OVM (createFortigateManifest firewallName fortigateVersion namespace spec))))
       (\<lambda>existingVM.
          let updated = updateNICs existingVM (createFortigateManifestNIC (ffs_Ports spec)) in
          if updated \<noteq> existingVM then
            andThen (kdo cl (KPatch (OVM updated))) (\<lambda>_. restartFortigateVM cl firewallName namespace)
          else ret ())"

definition createFortigateService :: "cluster \<Rightarrow> FortigateFirewall \<Rightarrow> (world, unit) op" where
  "createFortigateService cl instance' =
     kdo cl (KApply (OService (mutateService (om_Name (ff_Meta instance'))
       (createFortigateFirewallService (om_Name (ff_Meta instance'))
          (ffs_FortigateVersion (ff_Spec instance')) (om_Namespace (ff_Meta instance'))))))"

definition DeleteFortigateFirewallSvc :: "cluster \<Rightarrow> string \<Rightarrow> string \<Rightarrow> string \<Rightarrow> (world, unit) op" where
  "DeleteFortigateFirewallSvc cl firewallName fortigateVersion namespace =
     (let svcName = firewallName @ ''-'' @ fortigateVersion @ ''-ssh-gui'' in
      andThen (ask (KGet ''Service'' namespace svcName) (\<lambda>h. k_exists cl h ''Service'' namespace svcName)) (\<lambda>_.
      kdo cl (KDelete ''Service'' namespace svcName)))"

definition DeleteFortigateFirewall :: "cluster \<Rightarrow> string \<Rightarrow> string \<Rightarrow> string \<Rightarrow> (world, unit) op" where
  "DeleteFortigateFirewall cl firewallName fortigateVersion namespace =
     andThen (kdo cl (KDelete ''VirtualMachine'' namespace firewallName)) (\<lambda>_.
     kdo cl (KDelete ''VirtualMachineInstance'' namespace firewallName))"

section \<open>create_vyos_vm.go\<close>

definition restartVM :: "cluster \<Rightarrow> string \<Rightarrow> string \<Rightarrow> (world, unit) op" where
  "restartVM cl firewallName namespace =
     andThen (kget (k_get_vm cl) ''VirtualMachine'' namespace firewallName) (\<lambda>existingVM.
     andThen (clientset cl) (\<lambda>_.
     kdo cl (Http ''PUT'' (restart_path (vm_Namespace existingVM) (vm_Name existingVM)))))"

text \<open>Without ports the manifest is nil, and nil is what \<open>Create\<close> gets; the client's answer is \<open>k_do\<close>'s.\<close>

definition createVMFirewall :: "cluster \<Rightarrow> string \<Rightarrow> string \<Rightarrow> string \<Rightarrow> FirewallSpec \<Rightarrow> (world, unit) op" where
  "createVMFirewall cl firewallName firewallVersion namespace spec =
     orElse (kget (k_get_vm cl) ''VirtualMachine'' namespace firewallName)
       (\<lambda>e. case createManifest firewallName firewallVersion namespace spec of
              None \<Rightarrow> kdo cl KCreateNil
            | Some vmi \<Rightarrow> kdo cl (KCreate (OVM vmi)))
       (\<lambda>existingVM.
          andThen (liftRes (createFirewallManifestNIC (fws_Ports spec))) (\<lambda>nics.
          let updated = updateNICs existingVM nics in
          if updated \<noteq> existingVM then
            andThen (kdo cl (KPatch (OVM updated))) (\<lambda>_. restartVM cl firewallName namespace)
          else ret ()))"

definition createK8sFirewallService :: "cluster \<Rightarrow> Firewall \<Rightarrow> (world, unit) op" where
  "createK8sFirewallService cl instance' =
     kdo cl (KApply (OService (mutateService (om_Name (fw_Meta instance'))
       (createFirewallService (om_Name (fw_Meta instance'))
          (fws_Version (fw_Spec instance')) (om_Namespace (fw_Meta instance'))))))"

definition DeleteFirewallSvc :: "cluster \<Rightarrow> string \<Rightarrow> string \<Rightarrow> string \<Rightarrow> (world, unit) op" where
  "DeleteFirewallSvc cl firewallName firewallVersion namespace =
     (let svcName = firewallName @ ''-'' @ firewallVersion @ ''-ssh-gui'' in
      andThen (ask (KGet ''Service'' namespace svcName) (\<lambda>h. k_exists cl h ''Service'' namespace svcName)) (\<lambda>_.
      kdo cl (KDelete ''Service'' namespace svcName)))"

definition DeleteFirewall :: "cluster \<Rightarrow> string \<Rightarrow> string \<Rightarrow> string \<Rightarrow> (world, unit) op" where
  "DeleteFirewall cl firewallName firewallVersion namespace =
     andThen (kdo cl (KDelete ''VirtualMachine'' namespace firewallName)) (\<lambda>_.
     kdo cl (KDelete ''VirtualMachineInstance'' namespace firewallName))"

definition createFirewall :: "nat \<Rightarrow> cluster \<Rightarrow> Firewall \<Rightarrow> (world, unit) op" where
  "createFirewall n cl instance' =
     (let name = om_Name (fw_Meta instance'); ns = om_Namespace (fw_Meta instance'); sp = fw_Spec instance' in
      andThen (CreateNewFirewallPVC n cl name (fws_Version sp) ns (fws_PVCStorageClass sp) (fws_Type sp)
                 (fws_HasCloudInit sp)) (\<lambda>_.
      andThen (createVMFirewall cl name (fws_Version sp) ns sp) (\<lambda>_.
      createK8sFirewallService cl instance')))"

end
