(* ===== verification/Firmware.thy ===== *)
theory Firmware
  imports Terraform Cluster
begin

text \<open>
  Backup and upgrade of a FortiGate: the REST client (\<open>send_api_request.go\<close>), the upload of a
  firmware image (\<open>upgrade_firewall.go\<close>), machine snapshots (\<open>upgrade_firewall_ssh.go\<close>), the
  upgrade path service (\<open>upgrade_get_path.go\<close>) and the two controllers
  \<open>fortigateupdate_controller.go\<close> and \<open>fortigateupdatepath_controller.go\<close>.

  The HTTP transport, JSON decoding of replies, the headless browser, the multipart encoding, the
  clock and semantic versions are the parameters gathered in \<open>net_api\<close>.
\<close>

record apiResponse =
  ar_Status :: string
  ar_Serial :: string
  ar_Version :: string

record FortigateSystemStatus =
  fss_HTTPMethod :: string
  fss_ModelName :: string
  fss_ModelNumber :: string
  fss_Model :: string
  fss_Hostname :: string
  fss_LogDiskStatus :: string
  fss_Vdom :: string
  fss_Path :: string
  fss_Name :: string
  fss_Status :: string
  fss_Serial :: string
  fss_Version :: string
  fss_Build :: int

record Permalink =
  pl_Slug :: string
  pl_PermanentID :: int

record VersionDetail =
  vd_Version :: string
  vd_BuildNumber :: string
  vd_Type :: string
  vd_Permalinks :: "Permalink list"

record FortinetResponse =
  fr_Path :: "VersionDetail list"
  fr_AvailableTo :: "string list"
  fr_AvailableFrom :: "string list"
  fr_AvailableToExt :: "VersionDetail list"
  fr_AvailableFromExt :: "VersionDetail list"

record http_request =
  hr_method :: string
  hr_url :: string
  hr_headers :: "(string \<times> string) list"
  hr_body :: string

text \<open>
  \<open>n_http\<close> answers with a status code and a body.  \<open>n_cmp\<close> compares two parsed versions, as
  \<open>Compare\<close> of the semver package: negative, zero or positive.
\<close>

record 'v net_api =
  n_http :: "call list \<Rightarrow> http_request \<Rightarrow> (nat \<times> string) res"
  n_newRequest :: "string \<Rightarrow> unit res"
  n_dec_api :: "string \<Rightarrow> apiResponse res"
  n_dec_status :: "string \<Rightarrow> FortigateSystemStatus res"
  n_dec_path :: "string \<Rightarrow> FortinetResponse res"
  n_now :: "call list \<Rightarrow> string"
  n_tempname :: "call list \<Rightarrow> string"
  n_multipart :: "string \<Rightarrow> string \<Rightarrow> string"
  n_browse :: "call list \<Rightarrow> unit res"
  n_cookies :: "call list \<Rightarrow> (string \<times> string) list res"
  n_lookChrome :: "call list \<Rightarrow> string res"
  n_semver :: "string \<Rightarrow> 'v option"
  n_cmp :: "'v \<Rightarrow> 'v \<Rightarrow> int"

section \<open>send_api_request.go\<close>

record FortigateClient =
  fcl_address :: string
  fcl_token :: string

datatype operation = GETFWVERSION | UPGRADEFIRMWARE | BACKUP | GETFWMODEL

datatype format = FORMATFORTIGATE | FORMATSTATUS | FORMATBACKUP

datatype reply = RApi apiResponse | RStatus FortigateSystemStatus

definition newFortigateClient :: "string \<Rightarrow> string \<Rightarrow> FortigateClient" where
  "newFortigateClient address token = \<lparr>fcl_address = address, fcl_token = token\<rparr>"

definition prepareRequest :: "'v net_api \<Rightarrow> string \<Rightarrow> string \<Rightarrow> string \<Rightarrow> string \<Rightarrow> string \<Rightarrow>
    http_request res" where
  "prepareRequest net url token body method' contentType =
     (case n_newRequest net url of
        Inl e \<Rightarrow> Inl (Wrapf ''failed to create HTTP request'' e)
      | Inr _ \<Rightarrow> Inr \<lparr>hr_method = method', hr_url = url, 
                      hr_headers = [(''Content-Type'', contentType), (''Authorization'', ''Bearer '' @ token)],
                      hr_body = body\<rparr>)"

definition http_do :: "'v net_api \<Rightarrow> http_request \<Rightarrow> (world, nat \<times> string) op" where
  "http_do net req =
     ask (Http (hr_method req) (hr_url req)) (\<lambda>h. n_http net h req)"

text \<open>Anything but 200 is an error, before the body is looked at.\<close>

definition sendRequest :: "'v net_api \<Rightarrow> http_request \<Rightarrow> format \<Rightarrow> (world, reply) op" where
  "sendRequest net req fmt =
     andThen (wrapErr (Wrapf ''HTTP request failed'') (http_do net req)) (\<lambda>(code, body).
     if code \<noteq> 200 then fail (Errorf ''fortigate API error: code=%d'' [Itoa code])
     else (case fmt of
             FORMATFORTIGATE \<Rightarrow>
               wrapErr (Wrapf ''failed to decode API response'')
                 (liftRes (map_sum (\<lambda>e. e) RApi (n_dec_api net body)))
           | FORMATSTATUS \<Rightarrow>
               wrapErr (Wrapf ''failed to decode status response'')
                 (liftRes (map_sum (\<lambda>e. e) RStatus (n_dec_status net body)))
           | FORMATBACKUP \<Rightarrow> ret (RApi \<lparr>ar_Status = body, ar_Serial = [], ar_Version = []\<rparr>)))"

definition asApi :: "reply \<Rightarrow> apiResponse res" where
  "asApi r = (case r of RApi a \<Rightarrow> Inr a | _ \<Rightarrow> Inl (Panic ''interface conversion''))"

definition asStatus :: "reply \<Rightarrow> FortigateSystemStatus res" where
  "asStatus r = (case r of RStatus a \<Rightarrow> Inr a | _ \<Rightarrow> Inl (Panic ''interface conversion''))"

definition getFwStatus :: "'v net_api \<Rightarrow> FortigateClient \<Rightarrow> (world, FortigateSystemStatus) op" where
  "getFwStatus net f =
     andThen (wrapErr (Wrapf ''failed to prepare HTTP request'')
       (liftRes (prepareRequest net (''https://'' @ fcl_address f @ ''/api/v2/monitor/system/status'')
          (fcl_token f) [] ''GET'' ''application/json''))) (\<lambda>req.
     andThen (wrapErr (Wrapf ''failed to send HTTP request'') (sendRequest net req FORMATSTATUS)) (\<lambda>resp.
     liftRes (asStatus resp)))"

definition getFwVersion :: "'v net_api \<Rightarrow> FortigateClient \<Rightarrow> (world, string) op" where
  "getFwVersion net f =
     andThen (wrapErr (Wrapf ''failed to get firewall status'') (getFwStatus net f)) (\<lambda>st. ret (fss_Version st))"

definition getFwModel :: "'v net_api \<Rightarrow> FortigateClient \<Rightarrow> (world, string) op" where
  "getFwModel net f =
     andThen (wrapErr (Wrapf ''failed to get firewall status'') (getFwStatus net f)) (\<lambda>st. ret (fss_Model st))"

text \<open>A backup is taken only if the status of the update names none yet.\<close>

definition backupFortigateConfig :: "'v net_api \<Rightarrow> string \<Rightarrow> FortigateClient \<Rightarrow> FortigateUpdate \<Rightarrow>
    (world, string \<times> string) op" where
  "backupFortigateConfig net firewallName f instance' =
     (if fust_BackupName (fu_Status instance') = [] then
        (\<lambda>w.
          let filename = ''upgrade-backup/'' @ firewallName @ ''-'' @ n_now net (w_log w) @ ''.conf'' in
          andThen (wrapErr (Wrapf ''failed to prepare HTTP request for backup'')
            (liftRes (prepareRequest net (''https://'' @ fcl_address f @ ''/api/v2/monitor/system/config/backup'')
               (fcl_token f) ''{\"destination\":\"file\",\"scope\":\"global\"}''
               ''POST'' ''application/json''))) (\<lambda>req.
          andThen (wrapErr (Wrapf ''failed to send HTTP request for backup'')
            (sendRequest net req FORMATBACKUP)) (\<lambda>backupContent.
          andThen (liftRes (asApi backupContent)) (\<lambda>a. ret (ar_Status a, filename)))) w)
      else ret ([], fust_BackupName (fu_Status instance')))"

definition saveBackupToS3 :: "external \<Rightarrow> s3access \<Rightarrow> string \<Rightarrow> string \<Rightarrow> string \<Rightarrow> (world, string) op" where
  "saveBackupToS3 ext acc filename content bucketName =
     andThen (wrapErr (Wrapf ''failed to create S3 client'') (createS3Client ext acc)) (\<lambda>_.
     andThen (wrapErr (Wrapf ''failed to write backup to S3'')
                (writeS3Data ext bucketName filename content False)) (\<lambda>_.
     ret filename))"

definition getFwBackup :: "external \<Rightarrow> s3access \<Rightarrow> 'v net_api \<Rightarrow> string \<Rightarrow> FortigateClient \<Rightarrow> string \<Rightarrow> FortigateUpdate \<Rightarrow>
    (world, string) op" where
  "getFwBackup ext acc net firewallName f bucketName instance' =
     andThen (backupFortigateConfig net firewallName f instance') (\<lambda>(backupContent, filename).
     andThen (saveBackupToS3 ext acc filename backupContent bucketName) (\<lambda>_. ret filename))"

definition s3_keys :: "string list" where
  "s3_keys = [''s3Url'', ''accessKeyID'', ''secretAccessKey'']"

definition the_key :: "(string, string) gomap \<Rightarrow> string \<Rightarrow> string" where
  "the_key m k = (case map_of m k of Some v \<Rightarrow> v | None \<Rightarrow> [])"

definition access_of :: "(string, string) gomap \<Rightarrow> s3access" where
  "access_of m = \<lparr>a_s3Url = the_key m ''s3Url'', a_accessKeyID = the_key m ''accessKeyID'',
     a_secretAccessKey = the_key m ''secretAccessKey''\<rparr>"

definition no_access :: s3access where
  "no_access = \<lparr>a_s3Url = [], a_accessKeyID = [], a_secretAccessKey = []\<rparr>"

text \<open>The update is passed as \<open>any\<close>; \<open>None\<close> is nil, on which the type assertion panics.\<close>

definition SendCommandApiGet :: "external \<Rightarrow> s3access \<Rightarrow> 'v net_api \<Rightarrow> string \<Rightarrow> string \<Rightarrow> string \<Rightarrow> operation \<Rightarrow> string \<Rightarrow>
    FortigateUpdate option \<Rightarrow> (world, string) op" where
  "SendCommandApiGet ext acc net firewallName address token op' bucketName instance' =
     (let fortiClient = newFortigateClient address token in
      case op' of
        GETFWVERSION \<Rightarrow> wrapErr (Wrapf ''failed to get firewall version'') (getFwVersion net fortiClient)
      | GETFWMODEL \<Rightarrow> wrapErr (Wrapf ''failed to get firewall model'') (getFwModel net fortiClient)
      | BACKUP \<Rightarrow>
        (case instance' of
           None \<Rightarrow> fail (Panic ''interface conversion'')
         | Some u \<Rightarrow> getFwBackup ext acc net firewallName fortiClient bucketName u)
      | _ \<Rightarrow> fail (Errorf ''unsupported operation: %d'' []))"

section \<open>upgrade_firewall.go\<close>

definition first_firmware :: "string list \<Rightarrow> string res" where
  "first_firmware fs = (case fs of [] \<Rightarrow> Inl (Panic ''index out of range'') | f # _ \<Rightarrow> Inr f)"

definition getFirmwareNameFromVersion :: "external \<Rightarrow> string \<Rightarrow> string \<Rightarrow> s3access \<Rightarrow> (world, string) op" where
  "getFirmwareNameFromVersion ext version S3BucketName acc w =
     (case listAllFilesInDir (''/firmwares/'' @ version @ ''/'') (w_fs w) of
        (Inr (f # fs), _) \<Rightarrow> (Inr f, w)
      | _ \<Rightarrow>
        andThen (copyS3DirContent ext S3BucketName acc (''firmwares/'' @ version) ''/'') (\<lambda>_.
        andThen (onFs (listAllFilesInDir (''/firmwares/'' @ version @ ''/''))) (\<lambda>firmware.
        liftRes (first_firmware firmware))) w)"

text \<open>The temporary file is removed on every way out.\<close>

definition withTemp :: "string \<Rightarrow> (world, 'a) op \<Rightarrow> (world, 'a) op" where
  "withTemp tmp m w =
     (case onFs (WriteFile tmp [] 384) w of
        (Inl e, w1) \<Rightarrow> (Inl (Wrapf ''failed to create temp file'' e), w1)
      | (Inr _, w1) \<Rightarrow>
        (case m w1 of (r, w2) \<Rightarrow> (r, snd (onFs (Remove tmp) w2))))"

definition upgradeFortigateFirmware :: "external \<Rightarrow> 'v net_api \<Rightarrow> FortigateClient \<Rightarrow> string \<Rightarrow> string \<Rightarrow>
    s3access \<Rightarrow> (world, apiResponse) op" where
  "upgradeFortigateFirmware ext net f version S3BucketName acc =
     andThen (wrapErr (Wrapf ''failed to get firmware name from version'')
                (getFirmwareNameFromVersion ext (''v'' @ version) S3BucketName acc)) (\<lambda>filePath w.
     let tmp = n_tempname net (w_log w);
         url = ''https://'' @ fcl_address f @ ''/api/v2/monitor/system/firmware/upgrade''
     in withTemp tmp
          (andThen (onFs (ReadFile filePath)) (\<lambda>image.
           andThen (onFs (WriteFile tmp (n_multipart net (filepath_Base filePath) image) 384)) (\<lambda>_.
           andThen (liftRes (n_newRequest net url)) (\<lambda>_.
           andThen (sendRequest net \<lparr>hr_method = ''POST'', hr_url = url,
                        hr_headers = [(''Authorization'', ''Bearer '' @ fcl_token f),
                          (''Content-Type'', ''multipart/form-data'')],
                        hr_body = n_multipart net (filepath_Base filePath) image\<rparr> FORMATFORTIGATE) (\<lambda>resp.
           liftRes (asApi resp)))))) w)"

definition SendCommandApiPost :: "external \<Rightarrow> 'v net_api \<Rightarrow> string \<Rightarrow> string \<Rightarrow> string \<Rightarrow> operation \<Rightarrow> string \<Rightarrow>
    s3access \<Rightarrow> (world, string) op" where
  "SendCommandApiPost ext net address token bodyInfo op' S3BucketName acc =
     (case op' of
        UPGRADEFIRMWARE \<Rightarrow>
          andThen (wrapErr (Wrapf ''failed to upgrade firmware'')
            (upgradeFortigateFirmware ext net (newFortigateClient address token) bodyInfo S3BucketName acc))
            (\<lambda>resp. ret (ar_Status resp))
      | _ \<Rightarrow> fail (Errorf ''unsupported operation: %d'' []))"

section \<open>upgrade_firewall_ssh.go: snapshots\<close>

definition triggerKubeVirtVMSnapshot :: "cluster \<Rightarrow> string \<Rightarrow> string \<Rightarrow> string \<Rightarrow> (world, unit) op" where
  "triggerKubeVirtVMSnapshot cl namespace vmName snapshotName =
     orElse (ask (KGet ''VirtualMachineSnapshot'' namespace snapshotName)
               (\<lambda>h. k_exists cl h ''VirtualMachineSnapshot'' namespace snapshotName))
       (\<lambda>e. if \<not> IsNotFound e then fail (Wrapf ''errore durante la verifica della snapshot esistente'' e)
            else kdo cl (KCreate (OSnapshot
              \<lparr>vs_Name = snapshotName, vs_Namespace = namespace,
               vs_SourceKind = ''VirtualMachine'', vs_SourceName = vmName\<rparr>)))
       (\<lambda>_. ret ())"

definition deleteKubeVirtVMSnapshot :: "cluster \<Rightarrow> string \<Rightarrow> string \<Rightarrow> (world, unit) op" where
  "deleteKubeVirtVMSnapshot cl namespace snapshotName =
     orElse (kdo cl (KDelete ''VirtualMachineSnapshot'' namespace snapshotName))
       (\<lambda>e. if IsNotFound e then ret ()
            else fail (Wrapf (''errore durante la cancellazione della snapshot '' @ snapshotName) e))
       (\<lambda>_. ret ())"

section \<open>fortigateupdate_controller.go\<close>

definition ErrResourceNotFound :: goerr where
  "ErrResourceNotFound = Sentinel ''resource not found''"

definition available :: Condition where
  "available = \<lparr>c_Type = ''Available'', c_Status = ''True'', c_Reason = ''FortigateConfigApplied'',
     c_Message = ''La configurazione '' @ [CHR 0xC3, CHR 0xA8] @ '' stata applicata con successo a Fortigate''\<rparr>"

definition updateFortigateUpgradeStatus :: "cluster \<Rightarrow> FortigateUpdate \<Rightarrow> FortigateUpdateStatus \<Rightarrow>
    (world, FortigateUpdate) op" where
  "updateFortigateUpgradeStatus cl fu statusInfo =
     (let fu' = fu\<lparr>fu_Status := \<lparr>fust_Conditions = [available],
                                fust_BackupName = fust_BackupName statusInfo\<rparr>\<rparr> in
      andThen (kdo cl (KStatus (OUpdateStatus (om_Name (fu_Meta fu)) (fu_Status fu')))) (\<lambda>_. ret fu'))"

definition createFortigateUpdatePath :: "cluster \<Rightarrow> string \<Rightarrow> string \<Rightarrow> string \<Rightarrow> string \<Rightarrow> (world, unit) op" where
  "createFortigateUpdatePath cl minVersion maxVersion model namespace =
     wrapErr (Wrapf ''errore durante la creazione della risorsa FortigateUpdatePath'')
       (kdo cl (KCreate (OUpdatePath
         \<lparr>fup_Meta = \<lparr>om_Name = ''updatepath-'' @ ToLower model @ ''-'' @ minVersion @ ''-to-'' @ maxVersion,
                      om_Namespace = namespace, om_UID = [], om_Deleted = False, om_Finalizers = []\<rparr>,
          fup_Spec = \<lparr>fups_Model = model, fups_StartVersion = minVersion, fups_NewVersion = maxVersion\<rparr>,
          fup_Status = \<lparr>fupst_Conditions = [],
                        fupst_UpdatePath = \<lparr>up_PathStatusValid = False, up_Steps = []\<rparr>\<rparr>\<rparr>)))"

text \<open>The first resource whose range of versions holds the target.\<close>

definition in_range :: "'v net_api \<Rightarrow> 'v \<Rightarrow> FortigateUpdatePath \<Rightarrow> bool" where
  "in_range net targetVer item =
     (case (n_semver net (fups_StartVersion (fup_Spec item)), n_semver net (fups_NewVersion (fup_Spec item))) of
        (Some minVer, Some maxVer) \<Rightarrow>
          (0 < n_cmp net targetVer minVer \<or> n_cmp net targetVer minVer = 0) \<and>
          (n_cmp net targetVer maxVer < 0 \<or> n_cmp net targetVer maxVer = 0)
      | _ \<Rightarrow> False)"

definition GetStatusByParams :: "cluster \<Rightarrow> 'v net_api \<Rightarrow> string \<Rightarrow> string \<Rightarrow> string \<Rightarrow> string \<Rightarrow>
    (world, FortigateUpdatePathStatus) op" where
  "GetStatusByParams cl net namespace nmodel newVersion currentVersion =
     andThen (wrapErr (Wrapf ''errore durante la list'')
                (ask (KList ''FortigateUpdatePath'') (\<lambda>h. k_list_paths cl h (Some nmodel)))) (\<lambda>items.
     case n_semver net newVersion of
       None \<Rightarrow> fail (Wrapf ''la versione target non e' un semver valido'' (Sentinel ''semver''))
     | Some targetVer \<Rightarrow>
       (case List.find (in_range net targetVer) items of
          Some item \<Rightarrow> ret (fup_Status item)
        | None \<Rightarrow>
          andThen (wrapErr (Wrapf ''errore durante la creazione del percorso di aggiornamento'')
                     (createFortigateUpdatePath cl currentVersion newVersion nmodel namespace)) (\<lambda>_.
          fail (Errorf ''nessuna risorsa trovata nel range di versioni specificato'' []))))"

definition ssh_gui_host :: "string \<Rightarrow> string \<Rightarrow> string \<Rightarrow> string" where
  "ssh_gui_host name version namespace =
     name @ ''-'' @ version @ ''-ssh-gui.'' @ namespace @ ''.svc.cluster.local''"

text \<open>
  \<open>backupForUpgradeFirewall\<close> also changes the update it is given: its status carries the name of
  the backup afterwards.  On an error the name found so far is returned with it.
\<close>

definition backupForUpgradeFirewall :: "external \<Rightarrow> cluster \<Rightarrow> 'v net_api \<Rightarrow> FortigateFirewall \<Rightarrow>
    FortigateUpdate \<Rightarrow> FortigateUpdateStatus \<Rightarrow> (world, FortigateUpdate \<times> string \<times> string) op" where
  "backupForUpgradeFirewall ext cl net fwInstance instance' statusInfo =
     (let firewallVersion = ffs_FortigateVersion (ff_Spec fwInstance);
          namespace = om_Namespace (fu_Meta instance');
          firewallName = om_Name (ff_Meta fwInstance);
          fortiIP = ssh_gui_host firewallName firewallVersion namespace
      in andThen (getSecretValues cl namespace (ffs_AWSCredentialSecretName (ff_Spec fwInstance)) s3_keys) (\<lambda>awsKey.
         andThen (SendCommandApiGet ext (access_of awsKey) net firewallName fortiIP (ffst_Token (ff_Status fwInstance)) BACKUP
                    (ffs_S3BucketName (ff_Spec fwInstance)) (Some instance')) (\<lambda>backupFilename.
         andThen (updateFortigateUpgradeStatus cl instance' (statusInfo\<lparr>fust_BackupName := backupFilename\<rparr>)) (\<lambda>instance2.
         let snapshotName = firewallName @ ''-'' @ firewallVersion @ ''-'' @ fus_NewVersion (fu_Spec instance') in
         andThen (triggerKubeVirtVMSnapshot cl namespace firewallName snapshotName) (\<lambda>_.
         ret (instance2, backupFilename, snapshotName))))))"

primrec upgradeSteps :: "external \<Rightarrow> cluster \<Rightarrow> 'v net_api \<Rightarrow> FortigateFirewall \<Rightarrow> s3access \<Rightarrow> string \<Rightarrow>
    UpdateStep list \<Rightarrow> (world, unit) op" where
  "upgradeSteps ext cl net fwInstance acc snapshotName [] = ret ()"
| "upgradeSteps ext cl net fwInstance acc snapshotName (step # steps) =
     andThen (SendCommandApiPost ext net
        (ssh_gui_host (om_Name (ff_Meta fwInstance)) (ffs_FortigateVersion (ff_Spec fwInstance))
           (om_Namespace (ff_Meta fwInstance)))
        (ffst_Token (ff_Status fwInstance)) (us_Version step) UPGRADEFIRMWARE
        (ffs_S3BucketName (ff_Spec fwInstance)) acc) (\<lambda>resp.
     andThen (deleteKubeVirtVMSnapshot cl (om_Namespace (ff_Meta fwInstance)) snapshotName) (\<lambda>_.
     upgradeSteps ext cl net fwInstance acc snapshotName steps))"

text \<open>
  \<open>doReconcile\<close>; the loop skips the first step of the path, the version the firewall runs.  The
  result has the changed update and the status to be written.
\<close>

definition doReconcile :: "external \<Rightarrow> cluster \<Rightarrow> 'v net_api \<Rightarrow> FortigateUpdate \<Rightarrow> FortigateFirewall \<Rightarrow>
    FortigateUpdateStatus \<Rightarrow> (world, FortigateUpdate \<times> FortigateUpdateStatus) op" where
  "doReconcile ext cl net instance' fwInstance statusInfo =
     (let fortiIP = ssh_gui_host (om_Name (ff_Meta fwInstance)) (ffs_FortigateVersion (ff_Spec fwInstance))
            (om_Namespace (ff_Meta fwInstance));
          token = ffst_Token (ff_Status fwInstance);
          name = om_Name (ff_Meta fwInstance);
          namespace = om_Namespace (fu_Meta instance');
          newVersion = fus_NewVersion (fu_Spec instance')
      in andThen (SendCommandApiGet ext no_access net name fortiIP token GETFWMODEL [] None) (\<lambda>model.
         andThen (SendCommandApiGet ext no_access net name fortiIP token GETFWVERSION [] None) (\<lambda>version.
         if version = newVersion then ret (instance', statusInfo)
         else
           orElse (GetStatusByParams cl net namespace model newVersion version)
             (\<lambda>e. fail (Wrapf (''nessun percorso di aggiornamento trovato per modello '' @ model)
                         ErrResourceNotFound))
             (\<lambda>pathStatus.
           andThen (backupForUpgradeFirewall ext cl net fwInstance instance' statusInfo)
             (\<lambda>(instance2, backupFilename, snapshotName).
           let statusInfo2 = statusInfo\<lparr>fust_BackupName := backupFilename\<rparr> in
           andThen (updateFortigateUpgradeStatus cl instance2 statusInfo2) (\<lambda>instance3.
           andThen (getSecretValues cl namespace (ffs_AWSCredentialSecretName (ff_Spec fwInstance)) s3_keys) (\<lambda>awsKey.
           andThen (upgradeSteps ext cl net fwInstance (access_of awsKey) snapshotName
                      (tl (up_Steps (fupst_UpdatePath pathStatus)))) (\<lambda>_.
           ret (instance3, statusInfo2)))))))))"

text \<open>What a reconcile asks the manager for: the seconds after which to call again, 0 for never.\<close>

type_synonym result = nat

definition IgnoreNotFound :: "goerr \<Rightarrow> (world, result) op" where
  "IgnoreNotFound e = (if IsNotFound e then ret 0 else fail e)"

definition ReconcileUpdate :: "external \<Rightarrow> cluster \<Rightarrow> 'v net_api \<Rightarrow> string \<Rightarrow> string \<Rightarrow> (world, result) op" where
  "ReconcileUpdate ext cl net namespace name =
     orElse (kget (k_get_update cl) ''FortigateUpdate'' namespace name) IgnoreNotFound (\<lambda>instance'.
     andThen (kget (k_get_fgt cl) ''FortigateFirewall'' namespace (fus_FortigateName (fu_Spec instance'))) (\<lambda>fwInstance.
     if ffst_Token (ff_Status fwInstance) = [] then ret 60
     else
       orElse (doReconcile ext cl net instance' fwInstance (fu_Status instance'))
         (\<lambda>e. if errors_Is e ErrResourceNotFound then ret 60 else fail e)
         (\<lambda>(instance2, statusInfo).
            andThen (updateFortigateUpgradeStatus cl instance2 statusInfo) (\<lambda>_. ret 0))))"

section \<open>upgrade_get_path.go\<close>

definition normalizeVersion :: "string \<Rightarrow> string" where
  "normalizeVersion v = TrimSpace (hd (Split (TrimPrefix v ''v'') (CHR '','')))"

text \<open>\<open>%d\<close> of an integer.\<close>

definition Sprintf_d :: "int \<Rightarrow> string" where
  "Sprintf_d i = (if i < 0 then CHR ''-'' # Itoa (nat (- i)) else Itoa (nat i))"

definition releaseNotesURL :: string where
  "releaseNotesURL = ''https://docs.fortinet.com/document/fortigate''"

definition findPermalink :: "VersionDetail \<Rightarrow> string \<Rightarrow> string" where
  "findPermalink v slug =
     (case List.find (\<lambda>p. pl_Slug p = slug) (vd_Permalinks v) of
        None \<Rightarrow> []
      | Some p \<Rightarrow> releaseNotesURL @ ''/'' @ vd_Version v @ ''/'' @ Sprintf_d (pl_PermanentID p) @ ''/'' @ slug)"

definition upgradeToolURL :: string where
  "upgradeToolURL = ''https://docs.fortinet.com/upgrade-tool/fortigate''"

definition getSessionCookie :: "'v net_api \<Rightarrow> (world, string) op" where
  "getSessionCookie net =
     andThen (wrapErr (Wrapf ''errore navigazione'') (ask (Http ''BROWSE'' upgradeToolURL) (n_browse net))) (\<lambda>_.
     andThen (wrapErr (Wrapf ''errore recupero cookie'') (ask (Http ''COOKIES'' upgradeToolURL) (n_cookies net))) (\<lambda>cookies.
     case List.find (\<lambda>c. fst c = ''cookiesession1'') cookies of
       Some c \<Rightarrow> ret (snd c)
     | None \<Rightarrow> fail (Errorf ''cookiesession1 non trovato tra i cookie della pagina'' [])))"

text \<open>\<open>url.Values.Encode\<close>: sorted by key, both sides escaped.\<close>

definition hex_char :: "nat \<Rightarrow> char" where
  "hex_char n = (if n < 10 then digit_char n else char_of (55 + n))"

definition unescaped :: "char \<Rightarrow> bool" where
  "unescaped c = (let n = (of_char c :: nat) in
     48 \<le> n \<and> n \<le> 57 \<or> 65 \<le> n \<and> n \<le> 90 \<or> 97 \<le> n \<and> n \<le> 122 \<or> n \<in> {45, 46, 95, 126})"

definition QueryEscape :: "string \<Rightarrow> string" where
  "QueryEscape s = concat (map (\<lambda>c. let n = (of_char c :: nat) in
     if unescaped c then [c] else if c = CHR '' '' then ''+''
     else [CHR ''%'', hex_char (n div 16), hex_char (n mod 16)]) s)"

definition form_body :: "string \<Rightarrow> string \<Rightarrow> string \<Rightarrow> string" where
  "form_body model from' to' =
     ''current_version='' @ QueryEscape from' @ ''&model='' @ QueryEscape model @
     ''&product_slug=fortigate&target_version='' @ QueryEscape to'"

definition fetchUpgradePath :: "'v net_api \<Rightarrow> string \<Rightarrow> string \<Rightarrow> string \<Rightarrow> string \<Rightarrow>
    (world, FortinetResponse) op" where
  "fetchUpgradePath net model from' to' cookie =
     (let url = ''https://docs.fortinet.com/upgrade-tool/upgrade-path'' in
      andThen (liftRes (n_newRequest net url)) (\<lambda>_.
      andThen (wrapErr (Wrapf ''errore HTTP'')
        (http_do net \<lparr>hr_method = ''POST'', hr_url = url,
           hr_headers = [(''Content-Type'', ''application/x-www-form-urlencoded''),
             (''Referer'', upgradeToolURL @ ''?model='' @ model @ ''&from='' @ from' @ ''&to='' @ to'),
             (''Origin'', ''https://docs.fortinet.com''),
             (''Cookie'', ''cookiesession1='' @ cookie)],
           hr_body = form_body model from' to'\<rparr>)) (\<lambda>(code, rawBody).
      if code \<noteq> 200 then fail (Errorf ''errore HTTP: status %d'' [Itoa code])
      else wrapErr (Wrapf ''errore parsing JSON'') (liftRes (n_dec_path net rawBody)))))"

definition getUpgradePath :: "'v net_api \<Rightarrow> string \<Rightarrow> string \<Rightarrow> string \<Rightarrow> (world, VersionDetail list) op" where
  "getUpgradePath net model from' to' =
     (let model = normalizeVersion model; from' = normalizeVersion from'; to' = normalizeVersion to' in
      andThen (ask (LookPath ''google-chrome-stable'') (n_lookChrome net)) (\<lambda>_.
      andThen (getSessionCookie net) (\<lambda>cookie.
      andThen (fetchUpgradePath net model from' to' cookie) (\<lambda>result.
      if fr_Path result = [] then ret [] else ret (fr_Path result)))))"

definition duplicates :: "FortigateUpdatePath \<Rightarrow> FortigateUpdatePath \<Rightarrow> bool" where
  "duplicates current existing =
     (om_Name (fup_Meta existing) \<noteq> om_Name (fup_Meta current) \<and>
      fups_Model (fup_Spec existing) = fups_Model (fup_Spec current) \<and>
      fups_StartVersion (fup_Spec existing) = fups_StartVersion (fup_Spec current) \<and>
      fups_NewVersion (fup_Spec existing) = fups_NewVersion (fup_Spec current))"

definition step_of :: "VersionDetail \<Rightarrow> UpdateStep" where
  "step_of v = \<lparr>us_Version = vd_Version v, us_Build = vd_BuildNumber v, us_ReleaseType = vd_Type v\<rparr>"

text \<open>The conditions are set and then overwritten by the assignment of the whole status.\<close>

definition updateFortigateUpdatePathStatus :: "cluster \<Rightarrow> FortigateUpdatePath \<Rightarrow> FortigateUpdatePathStatus \<Rightarrow>
    (world, unit) op" where
  "updateFortigateUpdatePathStatus cl instance' statusInfo =
     (let i1 = instance'\<lparr>fup_Status := (fup_Status instance')\<lparr>fupst_Conditions := [available]\<rparr>\<rparr>;
          i2 = i1\<lparr>fup_Status := statusInfo\<rparr>
      in kdo cl (KStatus (OUpdatePathStatus (om_Name (fup_Meta i2)) (fup_Status i2))))"

definition ReconcileUpdatePath :: "cluster \<Rightarrow> 'v net_api \<Rightarrow> string \<Rightarrow> string \<Rightarrow> (world, result) op" where
  "ReconcileUpdatePath cl net namespace name =
     orElse (kget (k_get_path cl) ''FortigateUpdatePath'' namespace name) IgnoreNotFound (\<lambda>current.
     if om_Deleted (fup_Meta current) then ret 0
     else
       andThen (ask (KList ''FortigateUpdatePath'') (\<lambda>h. k_list_paths cl h None)) (\<lambda>items.
       if list_ex (duplicates current) items then ret 0
       else
         (let statusInfo = fup_Status current in
          if up_PathStatusValid (fupst_UpdatePath statusInfo) then ret 0
          else
            andThen (getUpgradePath net (fups_Model (fup_Spec current)) (fups_StartVersion (fup_Spec current))
                       (fups_NewVersion (fup_Spec current))) (\<lambda>path.
            andThen (updateFortigateUpdatePathStatus cl current
                       (statusInfo\<lparr>fupst_UpdatePath := \<lparr>up_PathStatusValid = True,
                          up_Steps = map step_of path\<rparr>\<rparr>)) (\<lambda>_.
            ret 0)))))"

end
