(* ===== verification/Ssh.thy ===== *)
theory Ssh
  imports Cluster
begin

text \<open>
  The commands typed into the shell of a FortiGate: \<open>ssh_operations.go\<close>,
  \<open>wait_firewall_ready.go\<close>, \<open>get_token_api.go\<close>, \<open>register_license.go\<close> and
  \<open>upgradeFirmwareSSH\<close> of \<open>upgrade_firewall_ssh.go\<close>.

  The SSH package is the parameter \<open>ssh_api\<close>: parsing the key, the answers to the steps that open
  a shell, and what the firewall prints when given the text typed by the operator until the session
  ends, with the error of reading it if there was one.  \<open>None\<close> is a session that never ends: the
  output is read without a deadline.
\<close>

record ssh_api =
  sh_parseKey :: "string \<Rightarrow> unit res"
  sh_step :: "call list \<Rightarrow> string \<Rightarrow> string \<Rightarrow> unit res"
  sh_output :: "call list \<Rightarrow> string \<Rightarrow> string \<Rightarrow> (string \<times> goerr option) option"

datatype SSHOperations =
    GETTOKEN
  | REGISTERLICENSE
  | FIREWALLREADY
  | FIREWALLREADYWITHLICENSE
  | UPGRADEFIRMWARE_SSH
  | UPGRADEFIRMWARE_API

definition fortiAddr :: "FortigateFirewall \<Rightarrow> string" where
  "fortiAddr fw = om_Name (ff_Meta fw) @ ''-'' @ ffs_FortigateVersion (ff_Spec fw) @ ''-ssh-gui.'' @
     om_Namespace (ff_Meta fw) @ ''.svc.cluster.local:22''"

definition ssh_step :: "ssh_api \<Rightarrow> string \<Rightarrow> string \<Rightarrow> (world, unit) op" where
  "ssh_step sh addr what = ask (Ssh addr what) (\<lambda>h. sh_step sh h addr what)"

definition ssh_type :: "ssh_api \<Rightarrow> string \<Rightarrow> string list \<Rightarrow> (world, string \<times> goerr option) op" where
  "ssh_type sh addr ls =
     (let typed = concat (map (\<lambda>l. l @ [CHR 0x0D]) ls) in
      ask (Ssh addr typed) (\<lambda>h. case sh_output sh h addr typed of None \<Rightarrow> Inl Waiting | Some out \<Rightarrow> Inr out))"

section \<open>The regular expressions\<close>

text \<open>
  The two expressions of the code have the form of a label, white space, and a non-empty run of
  characters of a class, captured.  \<open>FindSubmatch\<close> returns the capture of the leftmost match.
\<close>

definition re_space :: "char \<Rightarrow> bool" where
  "re_space c = ((of_char c :: nat) \<in> {9, 10, 12, 13, 32})"

definition re_letter :: "char \<Rightarrow> bool" where
  "re_letter c = (let n = (of_char c :: nat) in 65 \<le> n \<and> n \<le> 90 \<or> 97 \<le> n \<and> n \<le> 122)"

definition re_alnum :: "char \<Rightarrow> bool" where
  "re_alnum c = (re_letter c \<or> (let n = (of_char c :: nat) in 48 \<le> n \<and> n \<le> 57))"

definition capture :: "string \<Rightarrow> (char \<Rightarrow> bool) \<Rightarrow> string \<Rightarrow> string" where
  "capture label cls s = takeWhile cls (dropWhile re_space (drop (length label) s))"

primrec FindSubmatch :: "string \<Rightarrow> (char \<Rightarrow> bool) \<Rightarrow> string \<Rightarrow> string option" where
  "FindSubmatch label cls [] = None"
| "FindSubmatch label cls (c # s) =
     (if HasPrefix (c # s) label \<and> capture label cls (c # s) \<noteq> []
      then Some (capture label cls (c # s))
      else FindSubmatch label cls s)"

definition license_status :: "string \<Rightarrow> string option" where
  "license_status output = FindSubmatch ''License Status:'' re_letter output"

section \<open>wait_firewall_ready.go\<close>

definition parseFortigateStatus :: "string \<Rightarrow> bool" where
  "parseFortigateStatus output =
     (case license_status output of None \<Rightarrow> False | Some license \<Rightarrow> license = ''Valid'')"

definition executeFirewallReadyCommand :: "ssh_api \<Rightarrow> string \<Rightarrow> bool \<Rightarrow> (world, string) op" where
  "executeFirewallReadyCommand sh addr validLicense =
     andThen (ssh_type sh addr [[], ''get system status'', ''exit'']) (\<lambda>(output, err).
     if \<not> validLicense then
       (if license_status output = None then fail (Errorf ''firewall non pronto'' []) else ret output)
     else if \<not> parseFortigateStatus output then fail (Errorf ''firewall non pronto'' [])
     else ret output)"

section \<open>get_token_api.go\<close>

definition getAPIToken :: "cluster \<Rightarrow> ssh_api \<Rightarrow> string \<Rightarrow> string \<Rightarrow> (world, string) op" where
  "getAPIToken cl sh addr namespace =
     andThen (wrapErr (\<lambda>err. Errorf ''Errore durante la lettura dei secret: %v'' [])
        (getSecretValues cl namespace ''forti-credentials'' [''adminPassword'', ''apiUserName''])) (\<lambda>creds.
     let apiUserName = (case map_of creds ''apiUserName'' of Some v \<Rightarrow> v | None \<Rightarrow> []);
         adminPassword = (case map_of creds ''adminPassword'' of Some v \<Rightarrow> v | None \<Rightarrow> [])
     in andThen (ssh_type sh addr [[], ''execute api-user generate-key '' @ apiUserName, adminPassword, ''exit''])
        (\<lambda>(output, err).
        case err of
          Some e \<Rightarrow> fail (Errorf ''Errore durante la lettura dell'output: %v'' [])
        | None \<Rightarrow>
          (case FindSubmatch ''New API key:'' re_alnum output of
             None \<Rightarrow> fail (Errorf ''Token non trovato. Output completo del firewall per debug: %s'' [output])
           | Some token \<Rightarrow> ret (TrimSpace token))))"

section \<open>register_license.go\<close>

definition getFortiPortalCredentials :: "cluster \<Rightarrow> string \<Rightarrow> FortigateFirewall \<Rightarrow> (world, string \<times> string) op" where
  "getFortiPortalCredentials cl namespace firewallInstance =
     (let portalCredentialSecretName = ffs_LicenseUserSecretName (ff_Spec firewallInstance) in
      if portalCredentialSecretName = [] then ret ([], [])
      else
        andThen (getSecretValues cl namespace portalCredentialSecretName [''accountID'', ''accountPassword'']) (\<lambda>portalKey.
        ret (case map_of portalKey ''accountID'' of Some v \<Rightarrow> v | None \<Rightarrow> [],
             case map_of portalKey ''accountPassword'' of Some v \<Rightarrow> v | None \<Rightarrow> [])))"

definition registerLicense :: "cluster \<Rightarrow> ssh_api \<Rightarrow> string \<Rightarrow> string \<Rightarrow> FortigateFirewall \<Rightarrow> (world, string) op" where
  "registerLicense cl sh addr namespace firewallInstance =
     andThen (wrapErr (\<lambda>err. Errorf ''errore durante il recupero delle credenziali FortiPortal: %v'' [])
        (getFortiPortalCredentials cl namespace firewallInstance)) (\<lambda>(accountID, accountPassword).
     if accountID = [] \<or> accountPassword = [] then
       fail (Errorf ''credenziali FortiPortal non trovate o incomplete'' [])
     else
       andThen (ssh_type sh addr [[], ''execute vm-license-options account-id '' @ accountID,
                  ''execute vm-license-options account-password '' @ accountPassword,
                  ''execute vm-license'', ''y'', ''exit'']) (\<lambda>(output, err). ret output))"

section \<open>upgrade_firewall_ssh.go: upgradeFirmwareSSH\<close>

definition upgradeFirmwareSSH :: "ssh_api \<Rightarrow> string \<Rightarrow> string \<Rightarrow> (world, string) op" where
  "upgradeFirmwareSSH sh addr url =
     andThen (ssh_type sh addr [[], ''execute restore image url '' @ url, ''y'', ''y'', ''y'', ''exit''])
       (\<lambda>(output, err). ret output)"

section \<open>ssh_operations.go\<close>

primrec ssh_steps :: "ssh_api \<Rightarrow> string \<Rightarrow> string list \<Rightarrow> (world, unit) op" where
  "ssh_steps sh addr [] = ret ()"
| "ssh_steps sh addr (what # whats) = andThen (ssh_step sh addr what) (\<lambda>_. ssh_steps sh addr whats)"

definition DoSSHOperations :: "cluster \<Rightarrow> ssh_api \<Rightarrow> string \<Rightarrow> SSHOperations \<Rightarrow> FortigateFirewall \<Rightarrow>
    (world, string) op" where
  "DoSSHOperations cl sh namespace operation instance' =
     (let fortiIP = fortiAddr instance' in
      andThen (onFs (ReadFile ''/ssh/id_rsa'')) (\<lambda>key.
      andThen (liftRes (sh_parseKey sh key)) (\<lambda>_.
      andThen (ssh_steps sh fortiIP [''Dial'', ''NewSession'', ''RequestPty'', ''StdinPipe'', ''StdoutPipe'', ''Shell'']) (\<lambda>_.
      case operation of
        GETTOKEN \<Rightarrow> getAPIToken cl sh fortiIP namespace
      | REGISTERLICENSE \<Rightarrow> registerLicense cl sh fortiIP namespace instance'
      | FIREWALLREADY \<Rightarrow> executeFirewallReadyCommand sh fortiIP False
      | FIREWALLREADYWITHLICENSE \<Rightarrow> executeFirewallReadyCommand sh fortiIP True
      | UPGRADEFIRMWARE_SSH \<Rightarrow>
          upgradeFirmwareSSH sh fortiIP ''http://firmware-server:80/FGT_7.2.0_Firewall.out''
      | _ \<Rightarrow> fail (Errorf ''operazione SSH non riconosciuta: %v'' [])))))"

text \<open>
  The loop of \<open>waitFirewallReady\<close> with its counter: it gives up at the twentieth failure and
  pauses two seconds between two attempts.
\<close>

function waitReady :: "cluster \<Rightarrow> ssh_api \<Rightarrow> string \<Rightarrow> bool \<Rightarrow> FortigateFirewall \<Rightarrow> nat \<Rightarrow> (world, bool) op" where
  "waitReady cl sh namespace withLicense instance' counter =
     orElse (DoSSHOperations cl sh namespace
               (if withLicense then FIREWALLREADYWITHLICENSE else FIREWALLREADY) instance')
       (\<lambda>err. if 20 \<le> counter + 1 then ret False
              else andThen (ask (Sleep 2) (\<lambda>_. Inr ())) (\<lambda>_.
                   waitReady cl sh namespace withLicense instance' (counter + 1)))
       (\<lambda>_. ret True)"
  by pat_completeness auto

termination
  by (relation "measure (\<lambda>(cl, sh, namespace, withLicense, instance', counter). 20 - counter)") auto

declare waitReady.simps [simp del]

definition waitFirewallReady :: "cluster \<Rightarrow> ssh_api \<Rightarrow> string \<Rightarrow> bool \<Rightarrow> FortigateFirewall \<Rightarrow> (world, bool) op" where
  "waitFirewallReady cl sh namespace withLicense instance' = waitReady cl sh namespace withLicense instance' 0"

definition GetFirewallReady :: "cluster \<Rightarrow> ssh_api \<Rightarrow> string \<Rightarrow> FortigateFirewall \<Rightarrow> (world, bool) op" where
  "GetFirewallReady cl sh namespace instance' = waitFirewallReady cl sh namespace False instance'"

definition GetFirewallReadyWithLicense :: "cluster \<Rightarrow> ssh_api \<Rightarrow> string \<Rightarrow> FortigateFirewall \<Rightarrow> (world, bool) op" where
  "GetFirewallReadyWithLicense cl sh namespace instance' = waitFirewallReady cl sh namespace True instance'"

end
