(* ===== verification/Controllers.thy ===== *)
theory Controllers
  imports Terraform_Facts Firmware Ssh
begin

text \<open>
  The reconcilers of \<open>fortigatefirewall_controller.go\<close>, \<open>fortigateconfig_controller.go\<close> and
  \<open>firewall_controller.go\<close>, and the finalizer protocol they share.  The number \<open>n\<close> bounds the
  rounds the polling of a volume is followed for.
\<close>

definition ContainsFinalizer :: "ObjectMeta \<Rightarrow> string \<Rightarrow> bool" where
  "ContainsFinalizer m f = (f \<in> set (om_Finalizers m))"

definition UpdateFinalizers :: "cluster \<Rightarrow> string \<Rightarrow> ObjectMeta \<Rightarrow> string list \<Rightarrow> (world, unit) op" where
  "UpdateFinalizers cl kind m fs = kdo cl (KUpdate kind (om_Namespace m) (om_Name m) fs)"

text \<open>
  The part of \<open>Reconcile\<close> that all three have word for word: register the finalizer on a live
  object and go on with \<open>k\<close>; on an object being deleted run \<open>cleanup\<close> and then take the finalizer
  off.
\<close>

definition finalizing :: "cluster \<Rightarrow> string \<Rightarrow> string \<Rightarrow> ObjectMeta \<Rightarrow> (world, unit) op \<Rightarrow> (world, result) op \<Rightarrow>
    (world, result) op" where
  "finalizing cl kind finalizer m cleanup k =
     (if \<not> om_Deleted m then
        (if \<not> ContainsFinalizer m finalizer then
           andThen (UpdateFinalizers cl kind m (om_Finalizers m @ [finalizer])) (\<lambda>_. k)
         else k)
      else
        (if ContainsFinalizer m finalizer then
           andThen cleanup (\<lambda>_.
           andThen (UpdateFinalizers cl kind m (removeAll finalizer (om_Finalizers m))) (\<lambda>_. ret 0))
         else ret 0))"

section \<open>fortigatefirewall_controller.go\<close>

definition firewallFinalizer :: string where
  "firewallFinalizer = ''fortigatefw.dinova.one/finalizer''"

definition deleteFirewallResources :: "cluster \<Rightarrow> FortigateFirewall \<Rightarrow> (world, unit) op" where
  "deleteFirewallResources cl resource =
     (let name = fwName resource; version = ffs_FortigateVersion (ff_Spec resource);
          ns = om_Namespace (ff_Meta resource)
      in andThen (DeleteFortigateFirewall cl name version ns) (\<lambda>_.
         andThen (DeleteFortigateFirewallSvc cl name version ns) (\<lambda>_.
         DeleteFirewallPVC cl name version ns)))"

definition licensed :: "cluster \<Rightarrow> ssh_api \<Rightarrow> string \<Rightarrow> FortigateFirewall \<Rightarrow> (world, unit) op" where
  "licensed cl sh namespace instance' =
     (let LicenseType = ffs_LicenseType (ff_Spec instance') in
      if LicenseType = ''trial'' then
        andThen (DoSSHOperations cl sh namespace REGISTERLICENSE instance') (\<lambda>_.
        andThen (GetFirewallReadyWithLicense cl sh namespace instance') (\<lambda>ready.
        if \<not> ready then fail (Errorf ''firewall non pronto dopo la registrazione della licenza'' [])
        else ret ()))
      else if LicenseType = ''none'' then ret ()
      else if LicenseType = ''flex'' then ret ()
      else if LicenseType = ''file'' then ret ()
      else fail (Errorf ''tipo di licenza non valido: %s'' [LicenseType]))"

text \<open>A token that cannot be read leaves the field of the new status empty.\<close>

definition tokenFor :: "cluster \<Rightarrow> ssh_api \<Rightarrow> string \<Rightarrow> FortigateFirewall \<Rightarrow> (world, string) op" where
  "tokenFor cl sh namespace instance' =
     (if ffst_Token (ff_Status instance') = [] then
        orElse (DoSSHOperations cl sh namespace GETTOKEN instance') (\<lambda>err. ret []) (\<lambda>token. ret token)
      else ret (ffst_Token (ff_Status instance')))"

definition doReconcileFirewall :: "nat \<Rightarrow> cluster \<Rightarrow> ssh_api \<Rightarrow> string \<Rightarrow> FortigateFirewall \<Rightarrow>
    (world, FortigateFirewallStatus) op" where
  "doReconcileFirewall n cl sh namespace instance' =
     (let name = fwName instance'; sp = ff_Spec instance'; version = ffs_FortigateVersion sp;
          ns = om_Namespace (ff_Meta instance')
      in andThen (CreateNewFortigateFirewallPVC n cl name version ns (ffs_PVCStorageClass sp) ''fortigate'') (\<lambda>_.
         andThen (createFortigateFirewall cl name version ns sp) (\<lambda>_.
         andThen (createFortigateService cl instance') (\<lambda>_.
         andThen (GetFirewallReady cl sh namespace instance') (\<lambda>ready.
         if \<not> ready then fail (Errorf ''firewall non pronto'' [])
         else
           andThen (licensed cl sh namespace instance') (\<lambda>_.
           andThen (tokenFor cl sh namespace instance') (\<lambda>token.
           ret \<lparr>ffst_Conditions = [], ffst_Token = token\<rparr>)))))))"

definition updateFortigateFirewallStatus :: "cluster \<Rightarrow> FortigateFirewall \<Rightarrow> FortigateFirewallStatus \<Rightarrow>
    (world, unit) op" where
  "updateFortigateFirewallStatus cl fw statusInfo =
     kdo cl (KStatus (OFirewallStatus (fwName fw)
       \<lparr>ffst_Conditions = [available], ffst_Token = ffst_Token statusInfo\<rparr>))"

text \<open>The instance is read a second time once the finalizer is in place.\<close>

definition ReconcileFortigateFirewall :: "nat \<Rightarrow> cluster \<Rightarrow> external \<Rightarrow> ssh_api \<Rightarrow> string \<Rightarrow> string \<Rightarrow>
    (world, result) op" where
  "ReconcileFortigateFirewall n cl ext sh namespace name =
     orElse (kget (k_get_fgt cl) ''FortigateFirewall'' namespace name) IgnoreNotFound (\<lambda>fw.
     finalizing cl ''FortigateFirewall'' firewallFinalizer (ff_Meta fw) (deleteFirewallResources cl fw)
       (andThen (kget (k_get_fgt cl) ''FortigateFirewall'' namespace name) (\<lambda>instance'.
        let awsCredentialSecretName = ffs_AWSCredentialSecretName (ff_Spec instance') in
        if awsCredentialSecretName = [] then
          fail (Errorf ''Fortigate URL o nome del secret AWS non specificati. Verifica la configurazione.'' [])
        else
          andThen (getSecretValues cl namespace awsCredentialSecretName s3_keys) (\<lambda>awsKey.
          andThen (doReconcileFirewall n cl sh namespace instance') (\<lambda>statusInfo.
          orElse (syncTerraformS3Bucket ext (access_of awsKey) (ffs_S3BucketName (ff_Spec instance')))
            (\<lambda>e. fail (Errorf ''errore durante la sincronizzazione del bucket S3'' []))
            (\<lambda>_. andThen (updateFortigateFirewallStatus cl instance' statusInfo) (\<lambda>_. ret 0)))))))"

section \<open>fortigateconfig_controller.go\<close>

definition configFinalizer :: string where
  "configFinalizer = ''fortigateconfig.dinova.one/finalizer''"

definition getS3CredentialsFromSecret :: "cluster \<Rightarrow> FortigateFirewall \<Rightarrow> string \<Rightarrow> (world, s3access) op" where
  "getS3CredentialsFromSecret cl firewallInstance namespace =
     (let awsCredentialSecretName = ffs_AWSCredentialSecretName (ff_Spec firewallInstance) in
      if awsCredentialSecretName = [] then
        ret \<lparr>a_s3Url = [], a_accessKeyID = [], a_secretAccessKey = []\<rparr>
      else
        andThen (getSecretValues cl namespace awsCredentialSecretName s3_keys) (\<lambda>awsKey.
        ret (access_of awsKey)))"

text \<open>The last argument of \<open>selectOperatorRule\<close> is whether to apply (else to destroy).\<close>

definition runRule :: "external \<Rightarrow> FortigateConfig \<Rightarrow> FortigateFirewall \<Rightarrow> s3access \<Rightarrow> string \<Rightarrow> bool \<Rightarrow>
    (world, unit) op" where
  "runRule ext fortiConfig firewallInstance acc uuid createOrUpdate =
     selectOperatorRule ext (fcs_TerraformTemplateS3Key (fc_Spec fortiConfig))
       (base_dir fortiConfig firewallInstance uuid)
       (ffst_Token (ff_Status firewallInstance))
       (ssh_gui_host (fwName firewallInstance) (ffs_FortigateVersion (ff_Spec firewallInstance))
          (om_Namespace (fc_Meta fortiConfig)))
       fortiConfig firewallInstance acc uuid createOrUpdate"

definition modifyTFFiles :: "external \<Rightarrow> FortigateConfig \<Rightarrow> FortigateFirewall \<Rightarrow> s3access \<Rightarrow> string \<Rightarrow>
    (world, unit) op" where
  "modifyTFFiles ext fortiConfig firewallInstance acc uuid =
     runRule ext fortiConfig firewallInstance acc uuid True"

definition deleteConfigResources :: "external \<Rightarrow> FortigateConfig \<Rightarrow> FortigateFirewall \<Rightarrow> s3access \<Rightarrow> string \<Rightarrow>
    (world, unit) op" where
  "deleteConfigResources ext fortiConfig firewallInstance acc uuid =
     andThen (modifyTFFiles ext fortiConfig firewallInstance acc uuid) (\<lambda>_.
     runRule ext fortiConfig firewallInstance acc uuid False)"

definition doReconcileConfig :: "cluster \<Rightarrow> external \<Rightarrow> string \<Rightarrow> FortigateConfig \<Rightarrow> FortigateFirewall \<Rightarrow>
    (world, FortigateConfigStatus) op" where
  "doReconcileConfig cl ext namespace fortiConfig firewallInstance =
     andThen (getS3CredentialsFromSecret cl firewallInstance namespace) (\<lambda>acc.
     andThen (prepareTerraformEnvironment ext fortiConfig firewallInstance acc) (\<lambda>uuid.
     andThen (modifyTFFiles ext fortiConfig firewallInstance acc uuid) (\<lambda>_.
     ret \<lparr>fcst_Conditions = [], fcst_FortigateRuleUUID = []\<rparr>)))"

definition updateFortigateConfigStatus :: "cluster \<Rightarrow> FortigateConfig \<Rightarrow> FortigateConfigStatus \<Rightarrow> (world, unit) op" where
  "updateFortigateConfigStatus cl instance' statusInfo =
     kdo cl (KStatus (OConfigStatus (fcName instance')
       \<lparr>fcst_Conditions = [available],
        fcst_FortigateRuleUUID = fcst_FortigateRuleUUID statusInfo\<rparr>))"

text \<open>\<open>Reconcile\<close>; the environment is prepared before the object is known to be alive.\<close>

definition ReconcileFortigateConfig :: "cluster \<Rightarrow> external \<Rightarrow> string \<Rightarrow> string \<Rightarrow> (world, result) op" where
  "ReconcileFortigateConfig cl ext namespace name =
     orElse (kget (k_get_config cl) ''FortigateConfig'' namespace name) IgnoreNotFound (\<lambda>fortiConfig.
     andThen (kget (k_get_fgt cl) ''FortigateFirewall'' namespace
                (fcs_FortigateName (fc_Spec fortiConfig))) (\<lambda>firewallInstance.
     andThen (getS3CredentialsFromSecret cl firewallInstance namespace) (\<lambda>acc.
     andThen (prepareTerraformEnvironment ext fortiConfig firewallInstance acc) (\<lambda>uuid.
     finalizing cl ''FortigateConfig'' configFinalizer (fc_Meta fortiConfig)
       (deleteConfigResources ext fortiConfig firewallInstance acc uuid)
       (andThen (doReconcileConfig cl ext namespace fortiConfig firewallInstance) (\<lambda>statusInfo.
        andThen (updateFortigateConfigStatus cl fortiConfig statusInfo) (\<lambda>_. ret 0)))))))"

section \<open>firewall_controller.go\<close>

text \<open>Nothing is cleaned up and the error of \<open>createFirewall\<close> is dropped.\<close>

definition ReconcileFirewall :: "nat \<Rightarrow> cluster \<Rightarrow> string \<Rightarrow> string \<Rightarrow> (world, result) op" where
  "ReconcileFirewall n cl namespace name =
     orElse (kget (k_get_fw cl) ''Firewall'' namespace name) IgnoreNotFound (\<lambda>fw.
     finalizing cl ''Firewall'' firewallFinalizer (fw_Meta fw) (ret ())
       (andThen (ignoreErr (createFirewall n cl fw)) (\<lambda>_. ret 0)))"

section \<open>fortigatebackup_controller.go\<close>

text \<open>The reconciler of backups does nothing yet.\<close>

definition ReconcileFortigateBackup :: "string \<Rightarrow> string \<Rightarrow> (world, result) op" where
  "ReconcileFortigateBackup namespace name = ret 0"

end
