(* ===== verification/Controllers_Facts.thy ===== *)
theory Controllers_Facts
  imports Controllers
begin

text \<open>
  Properties of the reconcilers: the finalizer protocol, the calls a deletion makes, the bound on
  the attempts to reach a firewall, and the order of backup, snapshot and upgrade.
\<close>

lemma kdo_run: "kdo cl c w = (k_do cl (w_log w) c, w\<lparr>w_log := w_log w @ [c]\<rparr>)"
  by (simp add: kdo_def ask_def)

lemma kget_run: "kget f kind ns name w = (f (w_log w) ns name, w\<lparr>w_log := w_log w @ [KGet kind ns name]\<rparr>)"
  by (simp add: kget_def ask_def)

lemma quiet_kdo [simp]: "quiet P (kdo cl c) \<longleftrightarrow> \<not> P c"
  by (simp add: kdo_def quiet_ask)

lemma quiet_kget [simp]: "quiet P (kget f kind ns name) \<longleftrightarrow> \<not> P (KGet kind ns name)"
  by (simp add: kget_def quiet_ask)

lemma made_kget [simp]: "made (kget f kind ns name) w = [KGet kind ns name]"
  by (simp add: kget_def)

lemma made_kdo [simp]: "made (kdo cl c) w = [c]"
  by (simp add: kdo_def)

section \<open>The finalizer protocol\<close>

definition is_status :: "call \<Rightarrow> bool" where
  "is_status c = (case c of KStatus x \<Rightarrow> True | _ \<Rightarrow> False)"

definition is_KUpdate :: "call \<Rightarrow> bool" where
  "is_KUpdate c = (case c of KUpdate a b n fs \<Rightarrow> True | _ \<Rightarrow> False)"

lemma is_KUpdate_simps [simp]:
  "is_KUpdate (KUpdate kind ns n fs)" "\<not> is_KUpdate (KGet kind ns n)" "\<not> is_KUpdate (KDelete kind ns n)"
  "\<not> is_KUpdate KConfig" "\<not> is_KUpdate (LookPath s)" "\<not> is_KUpdate (NewTerraform s)"
  "\<not> is_KUpdate (TofuInit s)" "\<not> is_KUpdate (TofuPlan s)" "\<not> is_KUpdate (TofuApply s)"
  "\<not> is_KUpdate (TofuDestroy s)" "\<not> is_KUpdate (S3Config u k s r)" "\<not> is_KUpdate (S3List b k)"
  "\<not> is_KUpdate (S3Delete b ks)" "\<not> is_KUpdate (S3Get b k)"
  by (simp_all add: is_KUpdate_def)

text \<open>
  What the protocol asks of a clean-up: it does not itself update an object.  What it gives: the
  finalizer is taken off only after the clean-up succeeded.
\<close>

locale cleanup_contract =
  fixes cleanup :: "'o \<Rightarrow> (world, unit) op"
  assumes cleanup_quiet: "quiet is_KUpdate (cleanup x)"
begin

lemma removed_after_cleanup:
  assumes "om_Deleted m" and "c \<in> set (made (finalizing cl kind fin m (cleanup x) k) w)" and "is_KUpdate c"
  shows "ContainsFinalizer m fin \<and> (\<exists>w1. cleanup x w = (Inr (), w1) \<and>
    c = KUpdate kind (om_Namespace m) (om_Name m) (removeAll fin (om_Finalizers m)))"
proof -
  have fin: "ContainsFinalizer m fin"
    using assms(1,2) by (auto simp: finalizing_def split: if_splits)
  let ?upd = "andThen (UpdateFinalizers cl kind m (removeAll fin (om_Finalizers m))) (\<lambda>_. ret (0 :: result))"
  have logs: "logs ?upd"
    by (auto intro!: logsI quiet_intros simp: UpdateFinalizers_def simp del: op_simps)
  have c: "c \<in> set (made (andThen (cleanup x) (\<lambda>_. ?upd)) w)"
    using assms(1,2) fin by (simp add: finalizing_def)
  obtain u w1 where w1: "cleanup x w = (Inr u, w1)" "c \<in> set (made ?upd w1)"
    using call_after [OF c assms(3) cleanup_quiet logs] by blast
  have "set (made ?upd w1) \<subseteq>
      {KUpdate kind (om_Namespace m) (om_Name m) (removeAll fin (om_Finalizers m))}"
    by (auto simp: made_def andThen_def UpdateFinalizers_def kdo_run split: sum.splits)
  with w1 fin show ?thesis by auto
qed

lemma kept_on_error:
  assumes "om_Deleted m" "ContainsFinalizer m fin" "cleanup x w = (Inl e, w1)"
  shows "finalizing cl kind fin m (cleanup x) k w = (Inl e, w1)"
    and "\<forall>c \<in> set (made (finalizing cl kind fin m (cleanup x) k) w). \<not> is_KUpdate c"
proof -
  show "finalizing cl kind fin m (cleanup x) k w = (Inl e, w1)"
    using assms by (simp add: finalizing_def andThen_Inl)
  have "made (finalizing cl kind fin m (cleanup x) k) w = made (cleanup x) w"
    using assms by (simp add: finalizing_def made_andThen_Inl)
  then show "\<forall>c \<in> set (made (finalizing cl kind fin m (cleanup x) k) w). \<not> is_KUpdate c"
    using cleanup_quiet [of x] by (simp add: quiet_def)
qed

end

lemma quiet_deletePVCs: "(\<And>n. \<not> P (KDelete ''PersistentVolumeClaim'' ns n)) \<Longrightarrow> quiet P (deletePVCs cl ns names)"
  by (induction names) (auto intro!: quiet_intros simp del: op_simps)

lemma quiet_deleteFirewallResources: "quiet is_KUpdate (deleteFirewallResources cl fw)"
  unfolding deleteFirewallResources_def DeleteFortigateFirewall_def DeleteFortigateFirewallSvc_def
    DeleteFirewallPVC_def clientset_def Let_def
  by (auto intro!: quiet_intros quiet_deletePVCs simp: quiet_ask simp del: op_simps)

interpretation fgt_cleanup: cleanup_contract "deleteFirewallResources cl" for cl
  by unfold_locales (rule quiet_deleteFirewallResources)

interpretation fw_cleanup: cleanup_contract "\<lambda>fw :: Firewall. ret ()"
  by unfold_locales (rule quiet_basic)

lemma quiet_deleteConfigResources: "quiet is_KUpdate (deleteConfigResources ext cfg fw acc uuid)"
proof -
  have P: "terraform_call c \<Longrightarrow> \<not> is_KUpdate c" for c
    by (cases c) (simp_all add: is_KUpdate_def terraform_call_def is_tofu_def)
  show ?thesis
    unfolding deleteConfigResources_def modifyTFFiles_def runRule_def
    by (auto intro!: quiet_intros quiet_selectOperatorRule P simp del: op_simps)
qed

interpretation fc_cleanup: cleanup_contract "\<lambda>(cfg, fw, acc, uuid). deleteConfigResources ext cfg fw acc uuid" for ext
  by unfold_locales (auto simp: quiet_deleteConfigResources split: prod.splits)

section \<open>What the deletion of a FortiGate does\<close>

definition deletion_calls :: "FortigateFirewall \<Rightarrow> call list" where
  "deletion_calls fw =
     (let name = fwName fw; ns = om_Namespace (ff_Meta fw); ver = ffs_FortigateVersion (ff_Spec fw);
          svc = name @ ''-'' @ ver @ ''-ssh-gui''
      in [KDelete ''VirtualMachine'' ns name, KDelete ''VirtualMachineInstance'' ns name,
          KGet ''Service'' ns svc, KDelete ''Service'' ns svc, KConfig] @
         map (KDelete ''PersistentVolumeClaim'' ns) (pvcToDelete name ver))"

lemma deletePVCs_ok:
  "deletePVCs cl ns names w = (Inr u, w') \<Longrightarrow>
     w_log w' = w_log w @ map (KDelete ''PersistentVolumeClaim'' ns) names"
  by (induction names arbitrary: w) (auto simp: andThen_ok kdo_run)

lemma deleteFirewallResources_ok:
  assumes "deleteFirewallResources cl fw w = (Inr u, w')"
  shows "w_log w' = w_log w @ deletion_calls fw"
  using assms
  by (auto simp: deleteFirewallResources_def DeleteFortigateFirewall_def DeleteFortigateFirewallSvc_def
      DeleteFirewallPVC_def clientset_def Let_def andThen_ok kdo_run ask_def deletion_calls_def
      dest!: deletePVCs_ok)

section \<open>Waiting for the firewall\<close>

definition is_Sleep :: "call \<Rightarrow> bool" where
  "is_Sleep c = (case c of Sleep n \<Rightarrow> True | _ \<Rightarrow> False)"

lemma is_Sleep_simps [simp]:
  "is_Sleep (Sleep n)" "\<not> is_Sleep (KGet k ns n')" "\<not> is_Sleep (Ssh a t)"
  by (simp_all add: is_Sleep_def)

lemma quiet_ssh_steps: "(\<And>t. \<not> P (Ssh addr t)) \<Longrightarrow> quiet P (ssh_steps sh addr whats)"
  by (induction whats) (auto intro!: quiet_intros simp: ssh_step_def quiet_ask simp del: op_simps)

lemma quiet_getSecretValues: "\<not> P (KGet ''Secret'' ns name) \<Longrightarrow> quiet P (getSecretValues cl ns name keys)"
  unfolding getSecretValues_def by (auto intro!: quiet_intros simp del: op_simps)

lemma quiet_ssh_type: "(\<And>t. \<not> P (Ssh addr t)) \<Longrightarrow> quiet P (ssh_type sh addr ls)"
  by (simp add: ssh_type_def quiet_ask Let_def)

lemma quiet_option: "quiet P a \<Longrightarrow> (\<And>x. quiet P (b x)) \<Longrightarrow> quiet P (case o' of None \<Rightarrow> a | Some x \<Rightarrow> b x)"
  by (cases o') simp_all

lemma quiet_prod: "(\<And>x y. p = (x, y) \<Longrightarrow> quiet P (f x y)) \<Longrightarrow> quiet P (case p of (x, y) \<Rightarrow> f x y)"
  by (cases p) simp

lemmas quiet_ssh = quiet_intros quiet_ssh_steps quiet_getSecretValues quiet_ssh_type quiet_option quiet_prod

lemma quiet_DoSSHOperations:
  assumes "\<And>t. \<not> P (Ssh (fortiAddr fw) t)" "\<And>ns n. \<not> P (KGet ''Secret'' ns n)"
  shows "quiet P (DoSSHOperations cl sh ns operation fw)"
proof -
  have "quiet P (executeFirewallReadyCommand sh (fortiAddr fw) b)" for b
    unfolding executeFirewallReadyCommand_def
    by (intro quiet_ssh assms)
  moreover have "quiet P (getAPIToken cl sh (fortiAddr fw) ns)"
    unfolding getAPIToken_def Let_def by (intro quiet_ssh assms)
  moreover have "quiet P (registerLicense cl sh (fortiAddr fw) ns fw)"
    unfolding registerLicense_def getFortiPortalCredentials_def Let_def by (intro quiet_ssh assms)
  moreover have "quiet P (upgradeFirmwareSSH sh (fortiAddr fw) u)" for u
    unfolding upgradeFirmwareSSH_def by (intro quiet_ssh assms)
  ultimately show ?thesis
    unfolding DoSSHOperations_def Let_def
    by (intro quiet_ssh assms; cases operation) (simp_all add: quiet_basic(2) del: op_simps)
qed

lemma logs_waitReady: "logs (waitReady cl sh ns lic fw c)"
proof (rule logsI, induction "20 - c" arbitrary: c)
  case 0
  then have "20 \<le> c + 1" by simp
  then show ?case unfolding waitReady.simps [of cl sh ns lic fw c]
    by (auto intro!: quiet_intros quiet_DoSSHOperations simp: quiet_ask simp del: op_simps)
next
  case (Suc d c)
  from Suc.hyps have "quiet (\<lambda>_. False) (waitReady cl sh ns lic fw (c + 1))" by simp
  then show ?case unfolding waitReady.simps [of cl sh ns lic fw c]
    by (auto intro!: quiet_intros quiet_DoSSHOperations simp: quiet_ask simp del: op_simps)
qed

text \<open>From counter \<open>c\<close> there are at most \<open>19 - c\<close> pauses.\<close>

lemma waitReady_sleeps:
  "c \<le> 19 \<Longrightarrow> w_log (snd (waitReady cl sh ns lic fw c w)) = w_log w @ cs \<Longrightarrow>
     length (filter is_Sleep cs) \<le> 19 - c"
proof (induction "19 - c" arbitrary: c w cs)
  case (0 c w cs)
  then have c: "c = 19" by simp
  have "quiet is_Sleep (waitReady cl sh ns lic fw c)"
    unfolding waitReady.simps [of cl sh ns lic fw c] using c
    by (auto intro!: quiet_intros quiet_DoSSHOperations simp del: op_simps)
  from quietE [OF this, of w] 0 show ?case by (auto simp: filter_empty_conv)
next
  case (Suc d c w cs)
  let ?op = "DoSSHOperations cl sh ns (if lic then FIREWALLREADYWITHLICENSE else FIREWALLREADY) fw"
  have q: "quiet is_Sleep ?op" by (rule quiet_DoSSHOperations) simp_all
  obtain r w1 where op: "?op w = (r, w1)" by (cases "?op w")
  from quietE [OF q, of w] op obtain ds where
    ds: "w_log w1 = w_log w @ ds" "\<forall>c \<in> set ds. \<not> is_Sleep c" by auto
  have none: "filter is_Sleep ds = []" using ds(2) by (simp add: filter_empty_conv)
  show ?case
  proof (cases "\<exists>e. r = Inl e \<and> \<not> stops e")
    case False
    then have "snd (waitReady cl sh ns lic fw c w) = w1"
      unfolding waitReady.simps [of cl sh ns lic fw c] using op
      by (auto simp: orElse_def split: sum.splits)
    with Suc.prems(2) ds none show ?thesis by simp
  next
    case True
    let ?w2 = "w1\<lparr>w_log := w_log w1 @ [Sleep 2]\<rparr>"
    have run: "waitReady cl sh ns lic fw c w = waitReady cl sh ns lic fw (c + 1) ?w2"
      unfolding waitReady.simps [of cl sh ns lic fw c] using op True Suc.hyps(2)
      by (auto simp: orElse_def andThen_def ask_def)
    from logs_after [OF logs_waitReady, of cl sh ns lic fw "c + 1" ?w2] obtain es where
      es: "w_log (snd (waitReady cl sh ns lic fw (c + 1) ?w2)) = w_log ?w2 @ es" by simp
    have "length (filter is_Sleep es) \<le> 19 - (c + 1)"
      by (rule Suc.hyps(1) [of "c + 1", OF _ _ es]) (use Suc.hyps(2) in auto)
    moreover have "cs = ds @ [Sleep 2] @ es" using Suc.prems(2) run es ds(1) by simp
    ultimately show ?thesis using none Suc.hyps(2) by simp
  qed
qed

end
