(* ===== verification/Firmware_Facts.thy ===== *)
theory Firmware_Facts
  imports Controllers_Facts
begin

text \<open>
  The order of an upgrade: nothing is sent to a FortiGate before its configuration is in the
  backup bucket and a snapshot of its machine exists, a backup in the bucket is never overwritten,
  and one firmware image is sent per step of the upgrade path.
\<close>

definition upgrade_url :: "string \<Rightarrow> string" where
  "upgrade_url addr = ''https://'' @ addr @ ''/api/v2/monitor/system/firmware/upgrade''"

definition is_upgrade :: "call \<Rightarrow> bool" where
  "is_upgrade c = (case c of Http m u \<Rightarrow> m = ''POST'' \<and> last u = CHR ''e'' | _ \<Rightarrow> False)"

lemma is_upgrade_simps [simp]:
  "is_upgrade (Http m u) \<longleftrightarrow> m = ''POST'' \<and> last u = CHR ''e''"
  "\<not> is_upgrade (KGet k ns n)" "\<not> is_upgrade (KList k)" "\<not> is_upgrade (KCreate x)"
  "\<not> is_upgrade (KStatus x)" "\<not> is_upgrade (KDelete k ns n)" "\<not> is_upgrade (S3Config u' k s r)"
  "\<not> is_upgrade (S3List b p)" "\<not> is_upgrade (S3Get b k)" "\<not> is_upgrade (S3Head b k)"
  "\<not> is_upgrade (S3Put b k v)"
  by (simp_all add: is_upgrade_def)

lemma is_upgrade_url: "is_upgrade (Http ''POST'' (upgrade_url addr))"
  by (simp add: upgrade_url_def)

section \<open>Calls of the parts\<close>

lemma quiet_sum_ops:
  "quiet P (case r of RApi a \<Rightarrow> f a | RStatus s \<Rightarrow> g s) \<longleftrightarrow>
     (case r of RApi a \<Rightarrow> quiet P (f a) | RStatus s \<Rightarrow> quiet P (g s))"
  by (cases r) simp_all

lemma quiet_sendRequest:
  assumes "\<not> P (Http (hr_method req) (hr_url req))"
  shows "quiet P (sendRequest net req fmt)"
  unfolding sendRequest_def http_do_def Let_def
  by (cases fmt) (auto intro!: quiet_intros assms simp: quiet_ask assms simp del: op_simps split: prod.splits)

lemma prepareRequest_ok:
  "prepareRequest net url token body m ct = Inr req \<Longrightarrow> hr_method req = m \<and> hr_url req = url"
  by (auto simp: prepareRequest_def split: sum.splits)

lemma quiet_liftRes_bind:
  "(\<And>x. r = Inr x \<Longrightarrow> quiet P (f x)) \<Longrightarrow> quiet P (andThen (wrapErr g (liftRes r)) f)"
  by (rule quietI) (auto simp: andThen_def wrapErr_def dest: quietE split: sum.splits)

lemma quiet_request:
  assumes "\<not> P (Http m url)" "\<And>resp. quiet P (k resp)"
  shows "quiet P (andThen (wrapErr g (liftRes (prepareRequest net url token body m ct))) (\<lambda>req.
           andThen (wrapErr g' (sendRequest net req fmt)) k))"
proof (rule quiet_liftRes_bind)
  fix req assume "prepareRequest net url token body m ct = Inr req"
  with prepareRequest_ok [OF this] assms
  show "quiet P (andThen (wrapErr g' (sendRequest net req fmt)) k)"
    by (auto intro!: quiet_intros quiet_sendRequest)
qed

lemma quiet_getFwStatus: "(\<And>u. \<not> P (Http ''GET'' u)) \<Longrightarrow> quiet P (getFwStatus net f)"
  unfolding getFwStatus_def by (rule quiet_request) (simp_all add: quiet_basic(3) del: op_simps)

lemma quiet_downloadPage:
  assumes "\<And>k. \<not> P (S3Get b k)"
  shows "quiet P (downloadPage ext b dir keys)"
proof (induction keys)
  case Nil
  then show ?case by (simp add: quiet_basic(1) del: op_simps)
next
  case (Cons key keys)
  let ?d = "downloadFile ext b key (filepath_Join [dir, key])"
  have d: "quiet P ?d"
    unfolding downloadFile_def
    by (auto intro!: quiet_intros simp: quiet_ask assms simp del: op_simps split: option.split)
  show ?case
  proof (rule quietI)
    fix w
    from quietE [OF d, of w] obtain cs where
      cs: "w_log (snd (?d w)) = w_log w @ cs" "\<forall>c \<in> set cs. \<not> P c" by blast
    from quietE [OF Cons.IH, of "snd (?d w)"] obtain ds where
      "w_log (snd (downloadPage ext b dir keys (snd (?d w)))) = w_log (snd (?d w)) @ ds"
      "\<forall>c \<in> set ds. \<not> P c" by blast
    with cs quietE [OF Cons.IH, of w]
    show "\<exists>cs. w_log (snd (downloadPage ext b dir (key # keys) w)) = w_log w @ cs \<and> (\<forall>c \<in> set cs. \<not> P c)"
      by (cases "HasSuffix key ''/''") (simp, intro exI [of _ "cs @ ds"], auto)
  qed
qed

lemma quiet_copyS3DirContent:
  assumes "\<And>k. \<not> P (S3Get b k)" "\<And>u k s r. \<not> P (S3Config u k s r)" "\<And>p. \<not> P (S3List b p)"
  shows "quiet P (copyS3DirContent ext b acc pre dir)"
proof -
  have "quiet P (downloadPages ext b dir pages)" for pages
    by (induction pages) (auto intro!: quiet_intros quiet_downloadPage assms simp del: op_simps)
  then show ?thesis
    unfolding copyS3DirContent_def createS3Client_def
    by (auto intro!: quiet_intros simp: quiet_ask assms simp del: op_simps)
qed

lemma quiet_getFirmware: "quiet is_upgrade (getFirmwareNameFromVersion ext v b acc)"
proof (rule quietI)
  fix w
  let ?rest = "andThen (copyS3DirContent ext b acc (''firmwares/'' @ v) ''/'') (\<lambda>_.
        andThen (onFs (listAllFilesInDir (''/firmwares/'' @ v @ ''/''))) (\<lambda>firmware.
        liftRes (first_firmware firmware)))"
  have "quiet is_upgrade ?rest"
    by (auto intro!: quiet_intros quiet_copyS3DirContent simp del: op_simps)
  from quietE [OF this, of w]
  show "\<exists>cs. w_log (snd (getFirmwareNameFromVersion ext v b acc w)) = w_log w @ cs \<and>
      (\<forall>c \<in> set cs. \<not> is_upgrade c)"
    unfolding getFirmwareNameFromVersion_def
    by (auto split: prod.splits sum.splits list.splits)
qed

section \<open>One image per step\<close>

lemma withTemp_run:
  fixes m :: "(world, 'a) op"
  shows "withTemp tmp m w =
     (case WriteFile tmp [] 384 (w_fs w) of
        (Inl e, f) \<Rightarrow> (Inl (Wrapf ''failed to create temp file'' e), w\<lparr>w_fs := f\<rparr>)
      | (Inr _, f) \<Rightarrow> (fst (m (w\<lparr>w_fs := f\<rparr>)), snd (onFs (Remove tmp) (snd (m (w\<lparr>w_fs := f\<rparr>))))))"
  by (simp add: withTemp_def onFs_def split: prod.splits sum.splits)

lemma log_onFs [simp]: "w_log (snd (onFs m w)) = w_log w"
  by (simp add: onFs_def split: prod.splits)

lemma quiet_withTemp: "quiet P m \<Longrightarrow> quiet P (withTemp tmp m)"
proof (rule quietI)
  fix w :: world assume q: "quiet P m"
  obtain r f where wf: "WriteFile tmp [] 384 (w_fs w) = (r, f)" by (cases "WriteFile tmp [] 384 (w_fs w)")
  from quietE [OF q, of "w\<lparr>w_fs := f\<rparr>"]
  show "\<exists>cs. w_log (snd (withTemp tmp m w)) = w_log w @ cs \<and> (\<forall>c \<in> set cs. \<not> P c)"
    by (simp add: withTemp_run wf split: sum.splits)
qed

lemma made_withTemp_ok:
  assumes "withTemp tmp m w = (Inr x, w')"
  obtains w1 where "w_log w1 = w_log w" "fst (m w1) = Inr x" "made (withTemp tmp m) w = made m w1"
proof -
  obtain r f where wf: "WriteFile tmp [] 384 (w_fs w) = (r, f)" by (cases "WriteFile tmp [] 384 (w_fs w)")
  have r: "r = Inr ()" using assms wf by (cases r) (simp_all add: withTemp_run)
  show ?thesis
  proof (rule that [of "w\<lparr>w_fs := f\<rparr>"])
    show "fst (m (w\<lparr>w_fs := f\<rparr>)) = Inr x" using assms wf r by (simp add: withTemp_run)
    show "made (withTemp tmp m) w = made m (w\<lparr>w_fs := f\<rparr>)" using wf r by (simp add: made_def withTemp_run)
  qed simp
qed

lemma filter_made_quiet: "quiet P m \<Longrightarrow> filter P (made m w) = []"
  by (simp add: quiet_def filter_empty_conv)

lemma made_sendRequest: "made (sendRequest net req fmt) w = [Http (hr_method req) (hr_url req)]"
proof -
  have "logs (http_do net req)" by (rule logsI) (simp add: http_do_def Let_def quiet_ask)
  have "w_log (snd (sendRequest net req fmt w)) = w_log w @ [Http (hr_method req) (hr_url req)]"
    by (cases fmt) (auto simp: sendRequest_def http_do_def Let_def andThen_def wrapErr_def ask_def
        split: prod.splits sum.splits)
  then show ?thesis by (simp add: made_def)
qed

text \<open>The upload proper.\<close>

definition sendImage :: "'v net_api \<Rightarrow> FortigateClient \<Rightarrow> string \<Rightarrow> string \<Rightarrow> (world, apiResponse) op" where
  "sendImage net f filePath tmp =
     (let url = upgrade_url (fcl_address f) in
      andThen (onFs (ReadFile filePath)) (\<lambda>image.
      andThen (onFs (WriteFile tmp (n_multipart net (filepath_Base filePath) image) 384)) (\<lambda>_.
      andThen (liftRes (n_newRequest net url)) (\<lambda>_.
      andThen (sendRequest net \<lparr>hr_method = ''POST'', hr_url = url,
                   hr_headers = [(''Authorization'', ''Bearer '' @ fcl_token f),
                     (''Content-Type'', ''multipart/form-data'')],
                   hr_body = n_multipart net (filepath_Base filePath) image\<rparr> FORMATFORTIGATE) (\<lambda>resp.
      liftRes (asApi resp))))))"

lemma upgradeFortigateFirmware_alt:
  "upgradeFortigateFirmware ext net f version b acc =
     andThen (wrapErr (Wrapf ''failed to get firmware name from version'')
                (getFirmwareNameFromVersion ext (''v'' @ version) b acc)) (\<lambda>filePath w.
     withTemp (n_tempname net (w_log w)) (sendImage net f filePath (n_tempname net (w_log w))) w)"
  by (simp add: upgradeFortigateFirmware_def sendImage_def upgrade_url_def Let_def)

lemma quiet_sendImage:
  "\<not> P (Http ''POST'' (upgrade_url (fcl_address f))) \<Longrightarrow> quiet P (sendImage net f filePath tmp)"
  unfolding sendImage_def Let_def
  by (auto intro!: quiet_intros quiet_sendRequest simp del: op_simps)

lemma sendImage_log:
  assumes "sendImage net f filePath tmp w = (Inr resp, w')"
  shows "w_log w' = w_log w @ [Http ''POST'' (upgrade_url (fcl_address f))]"
proof -
  have sr: "w_log w2 = w_log w1 @ [Http (hr_method req) (hr_url req)]"
    if "sendRequest net req fmt w1 = (x, w2)" for req fmt w1 x w2
    using logs_after [OF logsI [OF quiet_sendRequest], of net req fmt w1] that
    by (simp add: made_sendRequest)
  have fs: "w_log w2 = w_log w1" if "onFs m w1 = (x, w2)" for m :: "(fs, 'c) op" and w1 x w2
    using log_onFs [of m w1] that by simp
  from assms show ?thesis
    by (auto simp: sendImage_def Let_def andThen_ok dest!: sr fs)
qed

lemma quiet_temp_at:
  assumes "\<And>t. quiet P (m t)"
  shows "quiet P (\<lambda>w. withTemp (g w) (m (g w)) w)"
  by (rule quietI) (rule quietE [OF quiet_withTemp [OF assms]])

lemma quiet_upgradeFortigateFirmware: "quiet (\<lambda>_. False) (upgradeFortigateFirmware ext net f version b acc)"
proof -
  have g: "quiet (\<lambda>_. False) (getFirmwareNameFromVersion ext v b acc)" for v
    using quiet_mono [OF quiet_getFirmware, of "\<lambda>_. False"] by simp
  show ?thesis
    unfolding upgradeFortigateFirmware_alt
    by (intro quiet_andThen quiet_wrapErr g quiet_temp_at quiet_sendImage) simp
qed

lemma upgradeFortigateFirmware_ok:
  assumes "upgradeFortigateFirmware ext net f version b acc w = (Inr resp, w')"
  shows "filter is_upgrade (made (upgradeFortigateFirmware ext net f version b acc) w) =
    [Http ''POST'' (upgrade_url (fcl_address f))]"
proof -
  let ?g = "wrapErr (Wrapf ''failed to get firmware name from version'')
                (getFirmwareNameFromVersion ext (''v'' @ version) b acc)"
  let ?k = "\<lambda>filePath w. withTemp (n_tempname net (w_log w)) (sendImage net f filePath (n_tempname net (w_log w))) w"
  have qg: "quiet is_upgrade ?g" by (intro quiet_wrapErr quiet_getFirmware)
  have lk: "logs (?k p)" for p by (intro logsI quiet_temp_at quiet_sendImage) simp
  from assms obtain p w1 where p: "?g w = (Inr p, w1)" and k: "?k p w1 = (Inr resp, w')"
    unfolding upgradeFortigateFirmware_alt andThen_ok by blast
  let ?tmp = "n_tempname net (w_log w1)"
  obtain w2 where w2: "fst (sendImage net f p ?tmp w2) = Inr resp"
    "made (withTemp ?tmp (sendImage net f p ?tmp)) w1 = made (sendImage net f p ?tmp) w2"
    using made_withTemp_ok [OF k] by metis
  have "made (sendImage net f p ?tmp) w2 = [Http ''POST'' (upgrade_url (fcl_address f))]"
    using sendImage_log [of net f p ?tmp w2 resp "snd (sendImage net f p ?tmp w2)"] w2(1)
    by (simp add: made_def prod_eq_iff)
  with w2(2) have "made (?k p) w1 = [Http ''POST'' (upgrade_url (fcl_address f))]"
    by (simp add: made_def)
  then show ?thesis
    unfolding upgradeFortigateFirmware_alt
    using made_andThen_Inr [of ?g ?k p w w1] quiet_logs [OF qg] lk p
      filter_made_quiet [OF qg, of w] is_upgrade_url [of "fcl_address f"]
    by simp
qed

lemma quiet_deleteSnapshot: "\<not> P (KDelete ''VirtualMachineSnapshot'' ns n) \<Longrightarrow> quiet P (deleteKubeVirtVMSnapshot cl ns n)"
  unfolding deleteKubeVirtVMSnapshot_def by (auto intro!: quiet_intros simp del: op_simps)

definition hostOf :: "FortigateFirewall \<Rightarrow> string" where
  "hostOf fw = ssh_gui_host (fwName fw) (ffs_FortigateVersion (ff_Spec fw)) (om_Namespace (ff_Meta fw))"

lemma logs_upgradeSteps: "logs (upgradeSteps ext cl net fw acc snap steps)"
  by (rule logsI, induction steps)
    (auto intro!: quiet_intros quiet_upgradeFortigateFirmware quiet_deleteSnapshot
      simp: SendCommandApiPost_def simp del: op_simps)

lemma upgradeSteps_ok:
  "upgradeSteps ext cl net fw acc snap steps w = (Inr u, w') \<Longrightarrow>
     filter is_upgrade (made (upgradeSteps ext cl net fw acc snap steps) w) =
       replicate (length steps) (Http ''POST'' (upgrade_url (hostOf fw)))"
proof (induction steps arbitrary: w)
  case Nil
  then show ?case by (simp add: made_def)
next
  case (Cons step steps)
  let ?up = "upgradeFortigateFirmware ext net (newFortigateClient (hostOf fw) (ffst_Token (ff_Status fw)))
     (us_Version step) (ffs_S3BucketName (ff_Spec fw)) acc"
  let ?post = "andThen (wrapErr (Wrapf ''failed to upgrade firmware'') ?up) (\<lambda>resp. ret (ar_Status resp))"
  let ?del = "deleteKubeVirtVMSnapshot cl (om_Namespace (ff_Meta fw)) snap"
  let ?rest = "upgradeSteps ext cl net fw acc snap steps"
  have alt: "upgradeSteps ext cl net fw acc snap (step # steps) =
      andThen ?post (\<lambda>_. andThen ?del (\<lambda>_. ?rest))"
    by (simp add: SendCommandApiPost_def hostOf_def fwName_def Let_def)
  have qd: "quiet is_upgrade ?del" by (rule quiet_deleteSnapshot) simp
  have lp: "logs ?post" and ld: "logs (andThen ?del (\<lambda>_. ?rest))"
    using logs_upgradeSteps [of ext cl net fw acc snap steps] quiet_mono [OF qd, of "\<lambda>_. False"]
    by (auto intro!: logsI quiet_intros quiet_upgradeFortigateFirmware simp: logs_quiet simp del: op_simps)
  from Cons.prems obtain a w1 b w2 where r: "?post w = (Inr a, w1)" "?del w1 = (Inr b, w2)" "?rest w2 = (Inr u, w')"
    unfolding alt andThen_ok [of ?post] andThen_ok [of ?del] by blast
  from r(1) obtain resp where up: "?up w = (Inr resp, w1)" by (auto simp: andThen_ok wrapErr_ok)
  have "made ?post w = made ?up w" using up by (simp add: made_def andThen_def wrapErr_def)
  with upgradeFortigateFirmware_ok [OF up] have p: "filter is_upgrade (made ?post w) =
      [Http ''POST'' (upgrade_url (hostOf fw))]" by (simp add: newFortigateClient_def)
  have "made (andThen ?post (\<lambda>_. andThen ?del (\<lambda>_. ?rest))) w = made ?post w @ made ?del w1 @ made ?rest w2"
    using made_andThen_Inr [of ?post "\<lambda>_. andThen ?del (\<lambda>_. ?rest)" a w w1]
      made_andThen_Inr [of ?del "\<lambda>_. ?rest" b w1 w2] lp ld quiet_logs [OF qd]
      logs_upgradeSteps [of ext cl net fw acc snap steps] r by simp
  then show ?case unfolding alt using p filter_made_quiet [OF qd, of w1] Cons.IH [OF r(3)] by simp
qed

section \<open>Backup and snapshot come first\<close>

lemma quiet_writeS3Data:
  "\<not> P (S3Head b k) \<Longrightarrow> \<not> P (S3Put b k v) \<Longrightarrow> quiet P (writeS3Data ext b k v ov)"
  unfolding writeS3Data_def Let_def by (auto intro!: quiet_intros simp: quiet_ask simp del: op_simps)

lemma quiet_saveBackup:
  "(\<And>u i s r. \<not> P (S3Config u i s r)) \<Longrightarrow> \<not> P (S3Head b k) \<Longrightarrow> \<not> P (S3Put b k v) \<Longrightarrow> quiet P (saveBackupToS3 ext acc k v b)"
  unfolding saveBackupToS3_def createS3Client_def
  by (auto intro!: quiet_intros quiet_writeS3Data simp: quiet_ask simp del: op_simps)

lemma quiet_backupConfig: "quiet is_upgrade (backupFortigateConfig net name f inst)"
proof (rule quietI)
  fix w
  let ?m = "\<lambda>filename. andThen (wrapErr (Wrapf ''failed to prepare HTTP request for backup'')
            (liftRes (prepareRequest net (''https://'' @ fcl_address f @ ''/api/v2/monitor/system/config/backup'')
               (fcl_token f) ''{\"destination\":\"file\",\"scope\":\"global\"}''
               ''POST'' ''application/json''))) (\<lambda>req.
          andThen (wrapErr (Wrapf ''failed to send HTTP request for backup'')
            (sendRequest net req FORMATBACKUP)) (\<lambda>backupContent.
          andThen (liftRes (asApi backupContent)) (\<lambda>a. ret (ar_Status a, filename))))"
  have q: "quiet is_upgrade (?m fn)" for fn :: string
    by (rule quiet_request) (auto intro!: quiet_intros simp del: op_simps)
  show "\<exists>cs. w_log (snd (backupFortigateConfig net name f inst w)) = w_log w @ cs \<and>
      (\<forall>c \<in> set cs. \<not> is_upgrade c)"
    using quietE [OF q] by (simp add: backupFortigateConfig_def Let_def)
qed

lemma quiet_ApiGet: "quiet is_upgrade (SendCommandApiGet ext acc net name addr token op' b inst)"
proof -
  have "quiet is_upgrade (getFwVersion net f)" "quiet is_upgrade (getFwModel net f)" for f
    unfolding getFwVersion_def getFwModel_def
    by (auto intro!: quiet_intros quiet_getFwStatus simp del: op_simps)
  moreover have "quiet is_upgrade (getFwBackup ext acc net name f b u)" for f u
    unfolding getFwBackup_def
    by (auto intro!: quiet_intros quiet_backupConfig quiet_saveBackup quiet_prod simp del: op_simps)
  ultimately show ?thesis
    unfolding SendCommandApiGet_def Let_def
    by (cases op') (auto intro!: quiet_intros quiet_option simp del: op_simps)
qed

lemma quiet_updateUpgradeStatus:
  "(\<And>x. \<not> P (KStatus x)) \<Longrightarrow> quiet P (updateFortigateUpgradeStatus cl u st)"
  unfolding updateFortigateUpgradeStatus_def Let_def by (auto intro!: quiet_intros simp del: op_simps)

lemma quiet_triggerSnapshot:
  "(\<And>x. \<not> P (KCreate x)) \<Longrightarrow> \<not> P (KGet ''VirtualMachineSnapshot'' ns s) \<Longrightarrow>
     quiet P (triggerKubeVirtVMSnapshot cl ns vm s)"
  unfolding triggerKubeVirtVMSnapshot_def by (auto intro!: quiet_intros simp: quiet_ask simp del: op_simps)

lemma quiet_backup: "quiet is_upgrade (backupForUpgradeFirewall ext cl net fw inst st)"
  unfolding backupForUpgradeFirewall_def Let_def
  by (intro quiet_ssh quiet_ApiGet quiet_updateUpgradeStatus quiet_triggerSnapshot) simp_all

lemma quiet_GetStatusByParams: "quiet is_upgrade (GetStatusByParams cl net ns m nv cv)"
  unfolding GetStatusByParams_def createFortigateUpdatePath_def
  by (intro quiet_ssh) (auto simp: quiet_ask)

text \<open>\<open>doReconcile\<close> in stages: the answers of the firewall, the upgrade path, the upgrade.\<close>

definition upgradeAlong :: "external \<Rightarrow> cluster \<Rightarrow> 'v net_api \<Rightarrow> FortigateUpdate \<Rightarrow> FortigateFirewall \<Rightarrow>
    FortigateUpdateStatus \<Rightarrow> FortigateUpdatePathStatus \<Rightarrow> (world, FortigateUpdate \<times> FortigateUpdateStatus) op" where
  "upgradeAlong ext cl net inst fw st pathStatus =
     andThen (backupForUpgradeFirewall ext cl net fw inst st) (\<lambda>(instance2, backupFilename, snapshotName).
     andThen (updateFortigateUpgradeStatus cl instance2 (st\<lparr>fust_BackupName := backupFilename\<rparr>)) (\<lambda>instance3.
     andThen (getSecretValues cl (om_Namespace (fu_Meta inst)) (ffs_AWSCredentialSecretName (ff_Spec fw)) s3_keys) (\<lambda>awsKey.
     andThen (upgradeSteps ext cl net fw (access_of awsKey) snapshotName
                (tl (up_Steps (fupst_UpdatePath pathStatus)))) (\<lambda>_.
     ret (instance3, st\<lparr>fust_BackupName := backupFilename\<rparr>)))))"

definition withVersion :: "external \<Rightarrow> cluster \<Rightarrow> 'v net_api \<Rightarrow> FortigateUpdate \<Rightarrow> FortigateFirewall \<Rightarrow>
    FortigateUpdateStatus \<Rightarrow> string \<Rightarrow> string \<Rightarrow> (world, FortigateUpdate \<times> FortigateUpdateStatus) op" where
  "withVersion ext cl net inst fw st model version =
     (if version = fus_NewVersion (fu_Spec inst) then ret (inst, st)
      else orElse (GetStatusByParams cl net (om_Namespace (fu_Meta inst)) model (fus_NewVersion (fu_Spec inst)) version)
        (\<lambda>e. fail (Wrapf (''nessun percorso di aggiornamento trovato per modello '' @ model) ErrResourceNotFound))
        (upgradeAlong ext cl net inst fw st))"

abbreviation askFw :: "external \<Rightarrow> 'v net_api \<Rightarrow> FortigateFirewall \<Rightarrow> operation \<Rightarrow> (world, string) op" where
  "askFw ext net fw op' \<equiv>
     SendCommandApiGet ext no_access net (om_Name (ff_Meta fw)) (hostOf fw) (ffst_Token (ff_Status fw)) op' [] None"

lemma doReconcile_alt:
  "doReconcile ext cl net inst fw st =
     andThen (askFw ext net fw GETFWMODEL) (\<lambda>model.
     andThen (askFw ext net fw GETFWVERSION) (withVersion ext cl net inst fw st model))"
  unfolding doReconcile_def withVersion_def upgradeAlong_def hostOf_def fwName_def Let_def by (rule refl)

lemma logs_quietP: "quiet P m \<Longrightarrow> quiet (\<lambda>_. False) m"
  by (rule quiet_mono) simp_all

lemma logs_steps_quiet: "quiet (\<lambda>_. False) (upgradeSteps ext cl net fw acc snap steps)"
  using logs_upgradeSteps logs_quiet by blast

lemma logs_upgradeAlong: "quiet (\<lambda>_. False) (upgradeAlong ext cl net inst fw st ps)"
  unfolding upgradeAlong_def
  by (intro quiet_ssh quiet_backup [THEN logs_quietP] quiet_updateUpgradeStatus logs_steps_quiet) simp_all

lemma logs_withVersion: "quiet (\<lambda>_. False) (withVersion ext cl net inst fw st model version)"
  unfolding withVersion_def
  by (intro quiet_if quiet_orElse quiet_basic quiet_GetStatusByParams [THEN logs_quietP] logs_upgradeAlong)

lemma upgrade_after_path:
  assumes "c \<in> set (made (withVersion ext cl net inst fw st model version) w)" and "is_upgrade c"
  obtains ps w1 r w2 where
    "version \<noteq> fus_NewVersion (fu_Spec inst)"
    "GetStatusByParams cl net (om_Namespace (fu_Meta inst)) model (fus_NewVersion (fu_Spec inst)) version w = (Inr ps, w1)"
    "backupForUpgradeFirewall ext cl net fw inst st w1 = (Inr r, w2)"
    "prefix (w_log w2) (w_log (snd (withVersion ext cl net inst fw st model version w)))"
proof -
  have new: "version \<noteq> fus_NewVersion (fu_Spec inst)"
    using assms by (auto simp: withVersion_def made_def)
  with assms(1) have "c \<in> set (made (orElse
        (GetStatusByParams cl net (om_Namespace (fu_Meta inst)) model (fus_NewVersion (fu_Spec inst)) version)
        (\<lambda>e. fail (Wrapf (''nessun percorso di aggiornamento trovato per modello '' @ model) ErrResourceNotFound))
        (upgradeAlong ext cl net inst fw st)) w)"
    by (simp only: withVersion_def if_False)
  from call_after_orElse [OF this assms(2) quiet_GetStatusByParams quiet_basic(2) logsI [OF logs_upgradeAlong]]
  obtain ps w1 where
    g: "GetStatusByParams cl net (om_Namespace (fu_Meta inst)) model (fus_NewVersion (fu_Spec inst)) version w = (Inr ps, w1)"
    and c: "c \<in> set (made (upgradeAlong ext cl net inst fw st ps) w1)" by blast
  have rest: "quiet (\<lambda>_. False) (case r of (instance2, backupFilename, snapshotName) \<Rightarrow>
     andThen (updateFortigateUpgradeStatus cl instance2 (st\<lparr>fust_BackupName := backupFilename\<rparr>)) (\<lambda>instance3.
     andThen (getSecretValues cl (om_Namespace (fu_Meta inst)) (ffs_AWSCredentialSecretName (ff_Spec fw)) s3_keys) (\<lambda>awsKey.
     andThen (upgradeSteps ext cl net fw (access_of awsKey) snapshotName
                (tl (up_Steps (fupst_UpdatePath ps)))) (\<lambda>_.
     ret (instance3, st\<lparr>fust_BackupName := backupFilename\<rparr>)))))" for r
    by (intro quiet_ssh quiet_updateUpgradeStatus logs_steps_quiet) simp_all
  from call_after [OF c [unfolded upgradeAlong_def] assms(2) quiet_backup logsI [OF rest]]
  obtain r w2 where b: "backupForUpgradeFirewall ext cl net fw inst st w1 = (Inr r, w2)" by blast
  have "withVersion ext cl net inst fw st model version w = upgradeAlong ext cl net inst fw st ps w1"
    using new g by (simp add: withVersion_def orElse_def)
  moreover have "upgradeAlong ext cl net inst fw st ps w1 = (case r of (instance2, backupFilename, snapshotName) \<Rightarrow>
     andThen (updateFortigateUpgradeStatus cl instance2 (st\<lparr>fust_BackupName := backupFilename\<rparr>)) (\<lambda>instance3.
     andThen (getSecretValues cl (om_Namespace (fu_Meta inst)) (ffs_AWSCredentialSecretName (ff_Spec fw)) s3_keys) (\<lambda>awsKey.
     andThen (upgradeSteps ext cl net fw (access_of awsKey) snapshotName
                (tl (up_Steps (fupst_UpdatePath ps)))) (\<lambda>_.
     ret (instance3, st\<lparr>fust_BackupName := backupFilename\<rparr>))))) w2"
    unfolding upgradeAlong_def by (simp add: andThen_def b del: op_simps)
  ultimately have "prefix (w_log w2) (w_log (snd (withVersion ext cl net inst fw st model version w)))"
    using logsI [OF rest, of r] by (simp only: logs_def)
  with new g b that show ?thesis by blast
qed

lemma quiet_run:
  "quiet P m \<Longrightarrow> m w = (r, w') \<Longrightarrow> \<exists>cs. w_log w' = w_log w @ cs \<and> (\<forall>c \<in> set cs. \<not> P c)"
  using quietE [of P m w] by simp

lemma upgrade_after_backup:
  assumes c: "c \<in> set (made (doReconcile ext cl net inst fw st) w)" and up: "is_upgrade c"
  obtains w1 r w2 cs where "backupForUpgradeFirewall ext cl net fw inst st w1 = (Inr r, w2)"
    "w_log w2 = w_log w @ cs" "\<forall>c \<in> set cs. \<not> is_upgrade c"
    "prefix (w_log w2) (w_log (snd (doReconcile ext cl net inst fw st w)))"
proof -
  have l: "logs (andThen (askFw ext net fw GETFWVERSION) (withVersion ext cl net inst fw st model))" for model
    by (intro logsI quiet_andThen quiet_ApiGet [THEN logs_quietP] logs_withVersion)
  from call_after [OF c [unfolded doReconcile_alt] up quiet_ApiGet l] obtain model w1 where
    m: "askFw ext net fw GETFWMODEL w = (Inr model, w1)"
    and c1: "c \<in> set (made (andThen (askFw ext net fw GETFWVERSION) (withVersion ext cl net inst fw st model)) w1)"
    by blast
  from call_after [OF c1 up quiet_ApiGet logsI [OF logs_withVersion]] obtain version w2 where
    v: "askFw ext net fw GETFWVERSION w1 = (Inr version, w2)"
    and c2: "c \<in> set (made (withVersion ext cl net inst fw st model version) w2)" by blast
  obtain ps w3 r w4 where
    g: "GetStatusByParams cl net (om_Namespace (fu_Meta inst)) model (fus_NewVersion (fu_Spec inst)) version w2 = (Inr ps, w3)"
    and b: "backupForUpgradeFirewall ext cl net fw inst st w3 = (Inr r, w4)"
    and p: "prefix (w_log w4) (w_log (snd (withVersion ext cl net inst fw st model version w2)))"
    by (rule upgrade_after_path [OF c2 up])
  have run: "doReconcile ext cl net inst fw st w = withVersion ext cl net inst fw st model version w2"
    unfolding doReconcile_alt by (simp add: andThen_def m v)
  obtain a1 where 1: "w_log w1 = w_log w @ a1" "\<forall>c \<in> set a1. \<not> is_upgrade c"
    using quiet_run [OF quiet_ApiGet m] by blast
  obtain a2 where 2: "w_log w2 = w_log w1 @ a2" "\<forall>c \<in> set a2. \<not> is_upgrade c"
    using quiet_run [OF quiet_ApiGet v] by blast
  obtain a3 where 3: "w_log w3 = w_log w2 @ a3" "\<forall>c \<in> set a3. \<not> is_upgrade c"
    using quiet_run [OF quiet_GetStatusByParams g] by blast
  obtain a4 where 4: "w_log w4 = w_log w3 @ a4" "\<forall>c \<in> set a4. \<not> is_upgrade c"
    using quiet_run [OF quiet_backup b] by blast
  show ?thesis
  proof (rule that [OF b, of "a1 @ a2 @ a3 @ a4"])
    show "w_log w4 = w_log w @ (a1 @ a2 @ a3 @ a4)" using 1 2 3 4 by simp
    show "\<forall>c \<in> set (a1 @ a2 @ a3 @ a4). \<not> is_upgrade c" using 1 2 3 4 by auto
    show "prefix (w_log w4) (w_log (snd (doReconcile ext cl net inst fw st w)))" using p run by simp
  qed
qed

section \<open>What a successful backup leaves behind\<close>

text \<open>
  \<open>put_or_there ext w b k v\<close>: at some point of the log S3 said that the object \<open>k\<close> exists, whatever
  it holds, or it accepted one with the content \<open>v\<close>.
\<close>

definition put_or_there :: "external \<Rightarrow> world \<Rightarrow> string \<Rightarrow> string \<Rightarrow> string \<Rightarrow> bool" where
  "put_or_there ext w b k v =
     (\<exists>pre post.
        (w_log w = pre @ S3Head b k # post \<and> x_s3_head ext pre b k = Inr ()) \<or>
        (w_log w = pre @ S3Put b k v # post \<and> x_s3_put ext pre b k v = Inr ()))"

text \<open>The request for a backup.\<close>

definition backup_request :: "string \<Rightarrow> string \<Rightarrow> http_request" where
  "backup_request host token =
     \<lparr>hr_method = ''POST'', hr_url = ''https://'' @ host @ ''/api/v2/monitor/system/config/backup'',
      hr_headers = [(''Content-Type'', ''application/json''), (''Authorization'', ''Bearer '' @ token)],
      hr_body = ''{\"destination\":\"file\",\"scope\":\"global\"}''\<rparr>"

text \<open>
  \<open>asked_backup net w name host token k v\<close>: the FortiGate was asked for a backup and answered the
  configuration \<open>v\<close>, and the name \<open>k\<close> says the firewall and the time.
\<close>

definition asked_backup :: "'v net_api \<Rightarrow> world \<Rightarrow> string \<Rightarrow> string \<Rightarrow> string \<Rightarrow> string \<Rightarrow> string \<Rightarrow> bool" where
  "asked_backup net w name host token k v =
     (\<exists>pre post. w_log w = pre @ Http ''POST'' (hr_url (backup_request host token)) # post \<and>
        n_http net pre (backup_request host token) = Inr (200, v) \<and>
        k = ''upgrade-backup/'' @ name @ ''-'' @ n_now net pre @ ''.conf'')"

text \<open>
  The object an update relies on: with no name in its status it is a new one, with what the FortiGate
  answered; with a name, it is the object of this name, and an empty one is put if there is none.
\<close>

definition backup_at :: "external \<Rightarrow> 'v net_api \<Rightarrow> world \<Rightarrow> FortigateUpdate \<Rightarrow> FortigateFirewall \<Rightarrow> string \<Rightarrow> bool" where
  "backup_at ext net w inst fw k \<longleftrightarrow> (\<exists>v. put_or_there ext w (ffs_S3BucketName (ff_Spec fw)) k v \<and>
     (if fust_BackupName (fu_Status inst) = []
      then asked_backup net w (fwName fw) (hostOf (fw\<lparr>ff_Meta := (ff_Meta fw)\<lparr>om_Namespace := om_Namespace (fu_Meta inst)\<rparr>\<rparr>))
             (ffst_Token (ff_Status fw)) k v
      else k = fust_BackupName (fu_Status inst) \<and> v = []))"

definition snapshotted :: "cluster \<Rightarrow> world \<Rightarrow> string \<Rightarrow> string \<Rightarrow> string \<Rightarrow> bool" where
  "snapshotted cl w ns vm s =
     (\<exists>pre post.
        (w_log w = pre @ KGet ''VirtualMachineSnapshot'' ns s # post \<and>
           k_exists cl pre ''VirtualMachineSnapshot'' ns s = Inr ()) \<or>
        (\<exists>c. c = KCreate (OSnapshot \<lparr>vs_Name = s, vs_Namespace = ns, vs_SourceKind = ''VirtualMachine'',
                                    vs_SourceName = vm\<rparr>) \<and>
           w_log w = pre @ c # post \<and> k_do cl pre c = Inr ()))"

lemma put_or_there_mono:
  "put_or_there ext w b k v \<Longrightarrow> prefix (w_log w) (w_log w') \<Longrightarrow> put_or_there ext w' b k v"
  unfolding put_or_there_def prefix_def by (metis append_Cons append_assoc)

lemma asked_backup_mono:
  "asked_backup net w name host token k v \<Longrightarrow> prefix (w_log w) (w_log w') \<Longrightarrow> asked_backup net w' name host token k v"
  unfolding asked_backup_def prefix_def by (metis append_Cons append_assoc)

lemma backup_at_mono: "backup_at ext net w inst fw k \<Longrightarrow> prefix (w_log w) (w_log w') \<Longrightarrow> backup_at ext net w' inst fw k"
  unfolding backup_at_def using put_or_there_mono asked_backup_mono by metis

lemma writeS3Data_put_or_there:
  assumes "writeS3Data ext b k v False w = (Inr (), w')"
  shows "put_or_there ext w' b k v"
proof (cases "x_s3_head ext (w_log w) b k")
  case (Inl e)
  let ?h = "w_log w @ [S3Head b k]"
  from assms Inl have "x_s3_put ext ?h b k v = Inr ()" "w_log w' = ?h @ [S3Put b k v]"
    by (auto simp: writeS3Data_def Let_def orElse_def ask_def wrapErr_def split: if_splits sum.splits)
  then show ?thesis unfolding put_or_there_def by blast
next
  case (Inr u)
  with assms have "x_s3_head ext (w_log w) b k = Inr ()" "w_log w' = w_log w @ [S3Head b k]"
    by (auto simp: writeS3Data_def Let_def orElse_def ask_def)
  then show ?thesis unfolding put_or_there_def by blast
qed

text \<open>Without \<open>overwrite\<close> an object is written only after S3 said it is missing.\<close>

lemma writeS3Data_no_overwrite:
  assumes "S3Put b' k' v' \<in> set (made (writeS3Data ext b k v False) w)"
  shows "b' = b \<and> k' = k \<and> v' = v \<and> (\<exists>e. x_s3_head ext (w_log w) b k = Inl e \<and> IsNotFound e)"
  using assms
  by (cases "x_s3_head ext (w_log w) b k")
    (auto simp: made_def writeS3Data_def Let_def orElse_def ask_def wrapErr_def split: if_splits sum.splits)

lemma sendRequest_backup_ok:
  assumes "sendRequest net req FORMATBACKUP w = (Inr r, w')"
  obtains v where "n_http net (w_log w) req = Inr (200, v)" "w_log w' = w_log w @ [Http (hr_method req) (hr_url req)]"
    "r = RApi \<lparr>ar_Status = v, ar_Serial = [], ar_Version = []\<rparr>"
  using assms by (auto simp: sendRequest_def andThen_ok wrapErr_ok http_do_def ask_def split: if_splits)

lemma prepareRequest_eq:
  "prepareRequest net url token body m t = Inr req \<Longrightarrow> req = \<lparr>hr_method = m, hr_url = url,
     hr_headers = [(''Content-Type'', t), (''Authorization'', ''Bearer '' @ token)], hr_body = body\<rparr>"
  by (auto simp: prepareRequest_def split: sum.splits)

lemma backupFortigateConfig_ok:
  assumes "backupFortigateConfig net name (newFortigateClient host token) inst w = (Inr (v, k), w')"
  shows "if fust_BackupName (fu_Status inst) = [] then asked_backup net w' name host token k v
    else k = fust_BackupName (fu_Status inst) \<and> v = []"
proof (cases "fust_BackupName (fu_Status inst) = []")
  case False
  with assms show ?thesis by (simp add: backupFortigateConfig_def)
next
  case True
  with assms obtain req r a where
    p: "prepareRequest net (hr_url (backup_request host token)) token (hr_body (backup_request host token)) ''POST'' ''application/json'' = Inr req"
    and s: "sendRequest net req FORMATBACKUP w = (Inr r, w')" and a: "asApi r = Inr a" "v = ar_Status a"
    and k: "k = ''upgrade-backup/'' @ name @ ''-'' @ n_now net (w_log w) @ ''.conf''"
    by (auto simp: backupFortigateConfig_def Let_def andThen_ok wrapErr_ok newFortigateClient_def backup_request_def)
  have req: "req = backup_request host token" using prepareRequest_eq [OF p] by (simp add: backup_request_def)
  from sendRequest_backup_ok [OF s] obtain v' where "n_http net (w_log w) req = Inr (200, v')"
    "w_log w' = w_log w @ [Http (hr_method req) (hr_url req)]"
    "r = RApi \<lparr>ar_Status = v', ar_Serial = [], ar_Version = []\<rparr>" by blast
  moreover from this a have "v' = v" by (auto simp: asApi_def)
  ultimately have "asked_backup net w' name host token k v"
    unfolding asked_backup_def req k by (intro exI [of _ "w_log w"] exI [of _ "[]"]) (simp add: backup_request_def)
  with True show ?thesis by simp
qed

lemma getFwBackup_ok:
  assumes "getFwBackup ext acc net name (newFortigateClient host token) b inst w = (Inr k, w')"
  obtains v where "put_or_there ext w' b k v"
    "if fust_BackupName (fu_Status inst) = [] then asked_backup net w' name host token k v
     else k = fust_BackupName (fu_Status inst) \<and> v = []"
proof -
  from assms obtain v w1 where b: "backupFortigateConfig net name (newFortigateClient host token) inst w = (Inr (v, k), w1)"
    and s: "saveBackupToS3 ext acc k v b w1 = (Inr k, w')"
    by (auto simp: getFwBackup_def andThen_ok saveBackupToS3_def wrapErr_ok split: prod.splits)
  from s obtain w2 where c: "createS3Client ext acc w1 = (Inr (), w2)" and w: "writeS3Data ext b k v False w2 = (Inr (), w')"
    by (auto simp: saveBackupToS3_def andThen_ok wrapErr_ok)
  have "prefix (w_log w1) (w_log w2)" using c by (auto simp: createS3Client_def andThen_ok getReg_def ask_def)
  moreover have "prefix (w_log w2) (w_log w')"
    using w by (auto simp: writeS3Data_def Let_def orElse_def ask_def wrapErr_def split: if_splits sum.splits)
  ultimately have "prefix (w_log w1) (w_log w')" by (rule prefix_order.trans)
  then have "if fust_BackupName (fu_Status inst) = [] then asked_backup net w' name host token k v
     else k = fust_BackupName (fu_Status inst) \<and> v = []"
    using backupFortigateConfig_ok [OF b] by (auto split: if_splits intro: asked_backup_mono)
  with writeS3Data_put_or_there [OF w] show ?thesis by (rule that)
qed

lemma triggerSnapshot_ok:
  assumes "triggerKubeVirtVMSnapshot cl ns vm s w = (Inr (), w')"
  shows "snapshotted cl w' ns vm s"
proof (cases "k_exists cl (w_log w) ''VirtualMachineSnapshot'' ns s")
  case (Inl e)
  let ?h = "w_log w @ [KGet ''VirtualMachineSnapshot'' ns s]"
  let ?c = "KCreate (OSnapshot \<lparr>vs_Name = s, vs_Namespace = ns, vs_SourceKind = ''VirtualMachine'',
                               vs_SourceName = vm\<rparr>)"
  from assms Inl have "k_do cl ?h ?c = Inr ()" "w_log w' = ?h @ [?c]"
    by (auto simp: triggerKubeVirtVMSnapshot_def orElse_def ask_def kdo_run split: if_splits)
  then show ?thesis unfolding snapshotted_def by blast
next
  case (Inr u)
  with assms have "k_exists cl (w_log w) ''VirtualMachineSnapshot'' ns s = Inr ()"
    "w_log w' = w_log w @ [KGet ''VirtualMachineSnapshot'' ns s]"
    by (auto simp: triggerKubeVirtVMSnapshot_def orElse_def ask_def)
  then show ?thesis unfolding snapshotted_def by blast
qed

lemma logs_prefix: "logs m \<Longrightarrow> m w = (r, w') \<Longrightarrow> prefix (w_log w) (w_log w')"
  unfolding logs_def by (metis snd_conv)

lemma backup_ok:
  assumes "backupForUpgradeFirewall ext cl net fw inst st w = (Inr (inst2, bk, snap), w')"
  shows "backup_at ext net w' inst fw bk"
    and "snap = fwName fw @ ''-'' @ ffs_FortigateVersion (ff_Spec fw) @ ''-'' @ fus_NewVersion (fu_Spec inst)"
    and "snapshotted cl w' (om_Namespace (fu_Meta inst)) (fwName fw) snap"
    and "fust_BackupName (fu_Status inst2) = bk"
proof -
  let ?ns = "om_Namespace (fu_Meta inst)"
  let ?snap = "om_Name (ff_Meta fw) @ ''-'' @ ffs_FortigateVersion (ff_Spec fw) @ ''-'' @ fus_NewVersion (fu_Spec inst)"
  obtain acc w1 w2 w3 where
    b: "SendCommandApiGet ext acc net (om_Name (ff_Meta fw)) (hostOf fw') (ffst_Token (ff_Status fw)) BACKUP
          (ffs_S3BucketName (ff_Spec fw)) (Some inst) w1 = (Inr bk, w2)"
    and u: "updateFortigateUpgradeStatus cl inst (st\<lparr>fust_BackupName := bk\<rparr>) w2 = (Inr inst2, w3)"
    and t: "triggerKubeVirtVMSnapshot cl ?ns (om_Name (ff_Meta fw)) ?snap w3 = (Inr (), w')"
    and sn: "snap = ?snap"
    if "fw' = fw\<lparr>ff_Meta := (ff_Meta fw)\<lparr>om_Namespace := ?ns\<rparr>\<rparr>" for fw'
    using assms
    by (auto simp: backupForUpgradeFirewall_def Let_def andThen_ok hostOf_def fwName_def)
  have "getFwBackup ext acc net (om_Name (ff_Meta fw))
      (newFortigateClient (hostOf (fw\<lparr>ff_Meta := (ff_Meta fw)\<lparr>om_Namespace := ?ns\<rparr>\<rparr>)) (ffst_Token (ff_Status fw)))
      (ffs_S3BucketName (ff_Spec fw)) inst w1 = (Inr bk, w2)"
    using b [OF refl] by (simp add: SendCommandApiGet_def Let_def)
  from getFwBackup_ok [OF this] have at2: "backup_at ext net w2 inst fw bk"
    unfolding backup_at_def fwName_def by metis
  have "prefix (w_log w2) (w_log w3)"
    by (rule logs_prefix [OF logsI [OF quiet_updateUpgradeStatus] u [OF refl]]) simp
  moreover have "prefix (w_log w3) (w_log w')"
    by (rule logs_prefix [OF logsI [OF quiet_triggerSnapshot] t [OF refl]]) simp_all
  ultimately show "backup_at ext net w' inst fw bk"
    using backup_at_mono [OF at2] prefix_order.trans by blast
  show "snap = fwName fw @ ''-'' @ ffs_FortigateVersion (ff_Spec fw) @ ''-'' @ fus_NewVersion (fu_Spec inst)"
    using sn [OF refl] by (simp add: fwName_def)
  show "snapshotted cl w' ?ns (fwName fw) snap"
    using triggerSnapshot_ok [OF t [OF refl]] sn [OF refl] by (simp add: fwName_def)
  show "fust_BackupName (fu_Status inst2) = bk"
    using u [OF refl] by (auto simp: updateFortigateUpgradeStatus_def Let_def andThen_ok)
qed

end
