(* ===== verification/Examples.thy ===== *)
theory Examples
  imports Pipeline Firmware_Facts
begin

text \<open>
  A small installation used by the witnesses of the properties: one resource with two list
  elements, one template with a loop over them, the rule that fills it, and answers of the other
  systems.
\<close>

section \<open>A resource, its template and its rule\<close>

definition demo_item1 :: obj where
  "demo_item1 = [(''name'', JStr ''web''), (''port'', num_of_int 443)]"

definition demo_item2 :: obj where
  "demo_item2 = [(''name'', JStr ''dns''), (''port'', num_of_int 53)]"

definition demo_meta :: "string \<Rightarrow> ObjectMeta" where
  "demo_meta n = \<lparr>om_Name = n, om_Namespace = ''ns'', om_UID = ''u1'', om_Deleted = False, om_Finalizers = []\<rparr>"

definition demo_cfg :: FortigateConfig where
  "demo_cfg =
     \<lparr>fc_Meta = demo_meta ''cr1'',
      fc_Spec = \<lparr>fcs_FortigateName = ''fw'', fcs_TerraformTemplateS3Key = ''vip.tf'',
                 fcs_OperatorRule = ''vip'', fcs_ExtraParams = None,
                 fcs_ExtraItems = [JObj demo_item1, JObj demo_item2]\<rparr>,
      fc_Status = \<lparr>fcst_Conditions = [], fcst_FortigateRuleUUID = []\<rparr>\<rparr>"

text \<open>\<open><FGT_FOR_STR><EXTRAITEMS><FGT_EXTRAITEMS_NAME>:<FGT_PORT>;<FGT_FOR_END>\<close>\<close>

definition demo_body :: "node list" where
  "demo_body = [Piece (Var ''FGT_EXTRAITEMS_NAME''), Piece (Lit (CHR '':'')), Piece (Var ''FGT_PORT'')]"

definition demo_nodes :: "node list" where
  "demo_nodes = [Loop ''EXTRAITEMS'' demo_body]"

definition demo_tmpl :: string where
  "demo_tmpl = ''<FGT_FOR_STR><EXTRAITEMS><FGT_EXTRAITEMS_NAME>:<FGT_PORT><FGT_FOR_END>''"

definition demo_rule :: RuleMappingConfig where
  "demo_rule =
     \<lparr>rc_ListField = ''spec.extraItems'', rc_Mappings = [], rc_ItemMappings = [(''FGT_PORT'', ''port'')],
      rc_Validate = [(''FGT_PORT'', \<lparr>fv_Required = True, fv_Type = ''int'', fv_Enum = [], fv_Pattern = []\<rparr>)],
      rc_ValidateLists = []\<rparr>"

definition demo_fs :: fs where
  "demo_fs = \<lparr>files = [(''/w/t.tf'', \<lparr>f_content = demo_tmpl, f_perm = 420\<rparr>)], dirs = [''/w''],
     refused = (\<lambda>_. False), glob_meta = (\<lambda>_ _. None)\<rparr>"

definition demo_re :: regexp where
  "demo_re pat s = Some True"

section \<open>A firewall and the answers of the other systems\<close>

definition demo_fw :: FortigateFirewall where
  "demo_fw =
     \<lparr>ff_Meta = demo_meta ''fw'',
      ff_Spec = \<lparr>ffs_SSHPrivateKey = None, ffs_FortigateName = ''fw'', ffs_FortigateVersion = ''7.2.0'',
                 ffs_PVCStorageClass = ''std'', ffs_AWSCredentialSecretName = ''aws'', ffs_S3BucketName = ''bkt'',
                 ffs_LicenseType = ''none'', ffs_LicenseUserSecretName = [],
                 ffs_Ports = [\<lparr>fi_Name = ''p1'', fi_Index = 1, fi_NetworkName = ''lan''\<rparr>],
                 ffs_VMUUID = ''uuid''\<rparr>,
      ff_Status = \<lparr>ffst_Conditions = [], ffst_Token = ''tok''\<rparr>\<rparr>"

definition demo_access :: s3access where
  "demo_access = \<lparr>a_s3Url = ''http://s3'', a_accessKeyID = ''k'', a_secretAccessKey = ''s''\<rparr>"

text \<open>OpenTofu finds changes and succeeds; S3 has the templates, one object below every other prefix, and no backup.\<close>

definition demo_ext :: external where
  "demo_ext =
     \<lparr>x_lookPath = (\<lambda>h. Inr ''/usr/bin/tofu''), x_newTerraform = (\<lambda>h. Inr ()),
      x_tofu = (\<lambda>h env c f. (Inr True, f)), x_hcl = (\<lambda>t. Inr (HBody [] [])),
      x_s3_config = (\<lambda>h. Inr ()), x_s3_pages = (\<lambda>h b p. [Inr [if HasPrefix p ''rules-templates/'' then p else p @ ''/a'']]),
      x_s3_get = (\<lambda>h b k. Inr (if HasSuffix k ''vip.tf'' then demo_tmpl else ''ip=<FGT_IP_OR_NAME>'', None)),
      x_s3_delete = (\<lambda>h b ks. Inr []), x_s3_head = (\<lambda>h b k. Inl (External True ''404'')),
      x_s3_put = (\<lambda>h b k v. Inr ()), x_s3_buckets = (\<lambda>h. Inr [\<lparr>bk_Name = Some ''bkt'', bk_Region = Some ''r''\<rparr>]), x_s3_create = (\<lambda>h b. Inr ()),
      x_s3_objects = (\<lambda>h b. Inr [\<lparr>so_Key = Some ''k'', so_Size = None\<rparr>]), x_s3_dirs = (\<lambda>h b p. Inr ([], []))\<rparr>"

definition demo_world :: world where
  "demo_world =
     \<lparr>w_fs = \<lparr>files = [(''/w/rules-templates/vip.tf'', \<lparr>f_content = demo_tmpl, f_perm = 420\<rparr>),
                      (''/w/rules-templates/00_common.tf'', \<lparr>f_content = ''ip=<FGT_IP_OR_NAME>'', f_perm = 420\<rparr>),
                      (''/ssh/id_rsa'', \<lparr>f_content = ''key'', f_perm = 256\<rparr>)],
              dirs = [''/w'', ''/tmp''], refused = (\<lambda>_. False), glob_meta = (\<lambda>_ _. None)\<rparr>,
      w_environ = [],
      w_reg = \<lparr>operatorRuleRegistry = [(''vip'', applyConfigDrivenRule demo_re demo_rule)],
               activeCommonMappings = defaultCommonMappings, activeOperatorConfig = DefaultOperatorConfig\<rparr>,
      w_log = []\<rparr>"

text \<open>The API server: every object exists under any name, except machines, claims and snapshots.\<close>

definition demo_update :: FortigateUpdate where
  "demo_update =
     \<lparr>fu_Meta = demo_meta ''up'', fu_Spec = \<lparr>fus_FortigateName = ''fw'', fus_NewVersion = ''7.4.1''\<rparr>,
      fu_Status = \<lparr>fust_Conditions = [], fust_BackupName = []\<rparr>\<rparr>"

definition demo_path :: FortigateUpdatePath where
  "demo_path =
     \<lparr>fup_Meta = demo_meta ''p1'',
      fup_Spec = \<lparr>fups_Model = ''FGT'', fups_StartVersion = ''7.2.0'', fups_NewVersion = ''7.4.1''\<rparr>,
      fup_Status = \<lparr>fupst_Conditions = [],
        fupst_UpdatePath = \<lparr>up_PathStatusValid = True,
          up_Steps = map (\<lambda>v. \<lparr>us_Version = v, us_Build = ''1'', us_ReleaseType = ''GA''\<rparr>) [''7.2.0'', ''7.2.8'', ''7.4.1'']\<rparr>\<rparr>\<rparr>"

definition demo_fwall :: Firewall where
  "demo_fwall =
     \<lparr>fw_Meta = demo_meta ''vy'',
      fw_Spec = \<lparr>fws_PVCStorageClass = ''std'', fws_Version = ''1.4'', fws_Type = ''vyos'',
                 fws_Ports = [\<lparr>fi_Name = ''p1'', fi_Index = 1, fi_NetworkName = ''lan''\<rparr>],
                 fws_VMUUID = ''uuid'', fws_HasCloudInit = True\<rparr>,
      fw_Status = \<lparr>fwst_Conditions = []\<rparr>\<rparr>"

definition demo_missing :: goerr where
  "demo_missing = External True ''not found''"

definition demo_secret :: "(string, string) gomap" where
  "demo_secret = [(''s3Url'', ''http://s3''), (''accessKeyID'', ''k''), (''secretAccessKey'', ''s'')]"

definition demo_cluster :: cluster where
  "demo_cluster =
     \<lparr>k_get_config = (\<lambda>h ns n. Inr demo_cfg), k_get_fgt = (\<lambda>h ns n. Inr demo_fw),
      k_get_fw = (\<lambda>h ns n. Inr demo_fwall), k_get_update = (\<lambda>h ns n. Inr demo_update),
      k_get_path = (\<lambda>h ns n. Inr demo_path), k_list_paths = (\<lambda>h m. Inr [demo_path]),
      k_get_secret = (\<lambda>h ns n. Inr demo_secret), k_get_vm = (\<lambda>h ns n. Inl demo_missing),
      k_get_pvc = (\<lambda>h ns n. Inl demo_missing),
      k_exists = (\<lambda>h k ns n. if k = ''VirtualMachineSnapshot'' then Inl demo_missing else Inr ()),
      k_do = (\<lambda>h c. Inr ())\<rparr>"

text \<open>A FortiGate with a license, which makes a key for every text but the status session.\<close>

definition demo_ssh :: ssh_api where
  "demo_ssh =
     \<lparr>sh_parseKey = (\<lambda>k. Inr ()), sh_step = (\<lambda>h a s. Inr ()),
      sh_output = (\<lambda>h a t. Some (if t = [CHR 0x0D] @ ''get system status'' @ [CHR 0x0D] @ ''exit'' @ [CHR 0x0D]
        then ''License Status: Valid'' else ''New API key: abc1'', None))\<rparr>"

text \<open>Versions are compared by the text after the first dot, as numbers.\<close>

definition demo_net :: "nat net_api" where
  "demo_net =
     \<lparr>n_http = (\<lambda>h r. Inr (200, ''body'')), n_newRequest = (\<lambda>u. Inr ()),
      n_dec_api = (\<lambda>b. Inr \<lparr>ar_Status = ''success'', ar_Serial = [], ar_Version = []\<rparr>),
      n_dec_status = (\<lambda>b. Inr \<lparr>fss_HTTPMethod = ''GET'', fss_ModelName = [], fss_ModelNumber = [],
        fss_Model = ''FGT'', fss_Hostname = [], fss_LogDiskStatus = [], fss_Vdom = [], fss_Path = [], fss_Name = [],
        fss_Status = [], fss_Serial = [], fss_Version = ''7.2.0'', fss_Build = 0\<rparr>),
      n_dec_path = (\<lambda>b. Inr \<lparr>fr_Path = [], fr_AvailableTo = [], fr_AvailableFrom = [],
        fr_AvailableToExt = [], fr_AvailableFromExt = []\<rparr>), n_now = (\<lambda>h. ''now''), n_tempname = (\<lambda>h. ''/tmp/up''),
      n_multipart = (\<lambda>n b. b), n_browse = (\<lambda>h. Inr ()), n_cookies = (\<lambda>h. Inr [(''cookiesession1'', ''c'')]),
      n_lookChrome = (\<lambda>h. Inr ''chrome''), n_semver = (\<lambda>v. Some (dec_val (take 1 (drop 2 v)))),
      n_cmp = (\<lambda>a b. int a - int b)\<rparr>"

end
