(* ===== verification/Engine_Properties.thy ===== *)
theory Engine_Properties
  imports Examples
begin

text \<open>
  Properties of the template engine: reading the loops and placeholders of arbitrary text, and the
  effect of \<open>smartNestedProcess\<close> and its parts on the file system.
\<close>

text \<open>C24: the loops found in any text tile it. Whatever the text, the blocks \<open>findTopLevelLoops\<close>
  returns come in order without overlap, each is literally an opening marker, a bracketed name, the
  body and a closing marker at its offsets, and no opening marker lies between two blocks or after
  the last.\<close>

theorem loops_tile_text:
  assumes "findTopLevelLoops content = Inr blocks"
  shows "tiles content 0 blocks"
  using assms unfolding findTopLevelLoops_def by (rule findFrom_tiles)

theorem loops_tile_text_witness:
  "tiles ''a<FGT_FOR_STR><B>x<FGT_FOR_END>c'' 0
     [\<lparr>lb_tag = ''B'', lb_body = ''x'', lb_start = 1, lb_end = 31\<rparr>]"
  by (rule loops_tile_text) code_simp

section \<open>Reading any text\<close>

text \<open>
  What the expression \<open><([^>]+)>\<close> says of a text, without a scan: a match starts here if the text is a
  bracketed non-empty name without a closing bracket and something more; a text is read from the left,
  a placeholder wherever a match starts and a character elsewhere.
\<close>

definition match_here :: "string \<Rightarrow> bool" where
  "match_here s \<longleftrightarrow> (\<exists>n s'. s = bracket n @ s' \<and> n \<noteq> [] \<and> CHR ''>'' \<notin> set n)"

inductive reads_as :: "string \<Rightarrow> piece list \<Rightarrow> bool" where
  nothing: "reads_as [] []"
| placeholder: "n \<noteq> [] \<Longrightarrow> CHR ''>'' \<notin> set n \<Longrightarrow> reads_as s ps \<Longrightarrow> reads_as (bracket n @ s) (Var n # ps)"
| character: "\<not> match_here (c # s) \<Longrightarrow> reads_as s ps \<Longrightarrow> reads_as (c # s) (Lit c # ps)"

lemma split_gt: "n @ CHR ''>'' # s' = cs \<Longrightarrow> CHR ''>'' \<notin> set n \<Longrightarrow>
    n = takeWhile (\<lambda>x. x \<noteq> CHR ''>'') cs \<and> CHR ''>'' # s' = dropWhile (\<lambda>x. x \<noteq> CHR ''>'') cs"
  using takeWhile_name [of n s'] by auto

lemma match_here_iff: "match_here (c # cs) \<longleftrightarrow>
    c = CHR ''<'' \<and> takeWhile (\<lambda>x. x \<noteq> CHR ''>'') cs \<noteq> [] \<and> dropWhile (\<lambda>x. x \<noteq> CHR ''>'') cs \<noteq> []"
proof
  assume "match_here (c # cs)"
  then obtain n s' where n: "c # cs = bracket n @ s'" "n \<noteq> []" "CHR ''>'' \<notin> set n" by (auto simp: match_here_def)
  then have "c = CHR ''<''" "n @ CHR ''>'' # s' = cs" by (simp_all add: bracket_def)
  with split_gt [OF this(2) n(3)] n(2)
  show "c = CHR ''<'' \<and> takeWhile (\<lambda>x. x \<noteq> CHR ''>'') cs \<noteq> [] \<and> dropWhile (\<lambda>x. x \<noteq> CHR ''>'') cs \<noteq> []" by fastforce
next
  let ?n = "takeWhile (\<lambda>x. x \<noteq> CHR ''>'') cs"
  assume "c = CHR ''<'' \<and> ?n \<noteq> [] \<and> dropWhile (\<lambda>x. x \<noteq> CHR ''>'') cs \<noteq> []"
  moreover from this have "c # cs = bracket ?n @ tl (dropWhile (\<lambda>x. x \<noteq> CHR ''>'') cs)"
    by (simp add: bracket_def cut_at_gt)
  moreover have "CHR ''>'' \<notin> set ?n" by (auto dest: set_takeWhileD)
  ultimately show "match_here (c # cs)" unfolding match_here_def by blast
qed

lemma reads_as_read: "reads_as s (read_pieces s)"
proof (induction s rule: read_pieces.induct)
  case 1
  show ?case unfolding read_pieces.simps(1) by (rule reads_as.nothing)
next
  case (2 c cs)
  let ?n = "takeWhile (\<lambda>x. x \<noteq> CHR ''>'') cs" and ?rest = "dropWhile (\<lambda>x. x \<noteq> CHR ''>'') cs"
  show ?case
  proof (cases "c = CHR ''<'' \<and> ?n \<noteq> [] \<and> ?rest \<noteq> []")
    case True
    have "CHR ''>'' \<notin> set ?n" by (auto dest: set_takeWhileD)
    then have "reads_as (bracket ?n @ tl ?rest) (Var ?n # read_pieces (tl ?rest))"
      using True 2 by (intro reads_as.placeholder) simp_all
    moreover have "bracket ?n @ tl ?rest = c # cs" using True by (simp add: bracket_def cut_at_gt)
    ultimately show ?thesis using True by (simp add: Let_def)
  next
    case False
    then have "\<not> match_here (c # cs)" by (simp add: match_here_iff)
    then have "reads_as (c # cs) (Lit c # read_pieces cs)" using False 2 by (intro reads_as.character) simp_all
    then show ?thesis by (simp only: read_pieces.simps Let_def False if_False)
  qed
qed

lemma reads_as_unique: "reads_as s ps \<Longrightarrow> ps = read_pieces s"
proof (induction rule: reads_as.induct)
  case nothing
  show ?case by simp
next
  case (placeholder n s ps)
  then show ?case using takeWhile_name [of n s] by (simp add: bracket_def Let_def)
next
  case (character c s ps)
  then show ?case by (simp add: match_here_iff Let_def)
qed

text \<open>
  What a piece becomes for an element \<open>m\<close> at a path: a character and a loop marker stay; a placeholder
  becomes the value of a scalar entry whose key, after the path, is the name in capital letters and
  without \<open>FGT_\<close>; if there is none, it stays with the suffix \<open>u\<close> in its name.
\<close>

definition entry_for :: "string \<Rightarrow> string \<Rightarrow> string \<times> json \<Rightarrow> bool" where
  "entry_for path n kv \<longleftrightarrow> is_scalar (snd kv) \<and>
     (if path = [] then fst kv else path @ ''_'' @ fst kv) = ToUpper (TrimPrefix n ''FGT_'')"

fun becomes :: "obj \<Rightarrow> string \<Rightarrow> string \<Rightarrow> piece \<Rightarrow> string \<Rightarrow> bool" where
  "becomes m path u (Lit c) r \<longleftrightarrow> r = [c]"
| "becomes m path u (Var n) r \<longleftrightarrow>
     (if n = ''FGT_FOR_END'' \<or> prefix ''FGT_FOR_STR'' n then r = bracket n
      else if list_ex (entry_for path n) m then \<exists>kv \<in> set m. entry_for path n kv \<and> r = Sprintf_v (snd kv)
      else r = bracket (n @ u))"

lemma resolveTag_entry:
  "case resolveTag m path n of
     None \<Rightarrow> \<not> list_ex (entry_for path n) m
   | Some s \<Rightarrow> \<exists>kv \<in> set m. entry_for path n kv \<and> s = Sprintf_v (snd kv)"
  unfolding resolveTag_def
proof (induction m)
  case Nil
  show ?case by simp
next
  case (Cons kv m)
  then show ?case
    by (cases "findVariable m path (ToUpper (TrimPrefix n ''FGT_''))") (auto simp: entry_for_def expectedPath_def)
qed

lemma becomes_subst:
  "becomes m path u p (subst_piece (\<lambda>n. if loop_marker n then bracket n
     else (case resolveTag m path n of Some s \<Rightarrow> s | None \<Rightarrow> bracket (n @ u))) p)"
proof (cases p)
  case (Lit c)
  then show ?thesis by simp
next
  case (Var n)
  have "loop_marker n \<longleftrightarrow> n = ''FGT_FOR_END'' \<or> prefix ''FGT_FOR_STR'' n"
    by (auto simp: loop_marker_def HasPrefix_def)
  then show ?thesis
    using resolveTag_entry [where m = m and path = path and n = n] Var by (auto simp: list_ex_iff split: option.splits)
qed

lemma becomes_all: "list_all2 (becomes m path u) ps (map (subst_piece (\<lambda>n. if loop_marker n then bracket n
     else (case resolveTag m path n of Some s \<Rightarrow> s | None \<Rightarrow> bracket (n @ u)))) ps)"
  by (simp add: list.rel_map becomes_subst list.rel_refl)

text \<open>C23: substitution in any text. Every text has exactly one reading as characters and bracketed
  placeholders, placeholders being the leftmost matches of \<open><([^>]+)>\<close>, and printed it is the text.
  \<open>processVariables\<close> and \<open>processVariablesNoSuffix\<close> give, piece by piece, what the pieces of this
  reading become: characters and loop markers stay, a placeholder becomes the value of a scalar entry
  of the current element with its name, or, if there is none, itself with, or without, the index of
  the element; nothing they put in is read again.\<close>

theorem substitution_by_reading:
  "\<exists>ps. (\<forall>qs. reads_as text qs \<longleftrightarrow> qs = ps) \<and> print_pieces ps = text \<and>
     (\<exists>rs. list_all2 (becomes m path (''_'' @ Itoa index)) ps rs \<and> processVariables text index m path = concat rs) \<and>
     (\<exists>rs. list_all2 (becomes m path []) ps rs \<and> processVariablesNoSuffix text m path = concat rs)"
proof (intro exI [of _ "read_pieces text"] conjI)
  let ?f = "\<lambda>u. subst_piece (\<lambda>n. if loop_marker n then bracket n
     else (case resolveTag m path n of Some s \<Rightarrow> s | None \<Rightarrow> bracket (n @ u)))"
  show "\<forall>qs. reads_as text qs \<longleftrightarrow> qs = read_pieces text" using reads_as_read reads_as_unique by blast
  show "print_pieces (read_pieces text) = text" by (rule print_read_pieces)
  have "processVariables text index m path = concat (map (?f (''_'' @ Itoa index)) (read_pieces text))"
    by (simp only: processVariables_def ReplaceTags_read)
  with becomes_all show "\<exists>rs. list_all2 (becomes m path (''_'' @ Itoa index)) (read_pieces text) rs \<and>
      processVariables text index m path = concat rs" by blast
  have "processVariablesNoSuffix text m path = concat (map (?f []) (read_pieces text))"
    by (simp only: processVariablesNoSuffix_def ReplaceTags_read append_Nil2)
  with becomes_all show "\<exists>rs. list_all2 (becomes m path []) (read_pieces text) rs \<and>
      processVariablesNoSuffix text m path = concat rs" by blast
qed

text \<open>C32: a template rendered in place. When \<open>smartNestedProcess\<close> succeeds on a template that does
  not open with a loop, the text under the final name is the expansion of the template against the
  resource, the template itself is gone (unless it is the final file), and no other file has
  changed.\<close>

theorem inline_template_effect:
  assumes "smartNestedProcess f cfg s = (Inr (), s')"
    and "content_at s f = Some c" and "buildSpecMap cfg = Inr m"
    and "findTopLevelLoops (TrimSpace c) = Inr blocks"
    and "blocks = [] \<or> lb_start (hd blocks) \<noteq> 0"
  shows "\<exists>out. renderInPlace (TrimSpace c) blocks m = Inr out \<and>
    content_at s' q = (if q = finalName f then Some out else if q = f then None else content_at s q)"
  using assms by (rule smartNestedProcess_inline)

definition demo_plain_fs :: fs where
  "demo_plain_fs = demo_fs\<lparr>files := [(''/w/p.tf.tmpl'', \<lparr>f_content = ''x <OPERATORRULE> <Y>'', f_perm = 420\<rparr>)]\<rparr>"

theorem inline_template_effect_witness:
  "content_at (snd (smartNestedProcess ''/w/p.tf.tmpl'' demo_cfg demo_plain_fs)) ''/w/p.tf'' = Some ''x vip <Y>''"
proof -
  define s' where "s' = snd (smartNestedProcess ''/w/p.tf.tmpl'' demo_cfg demo_plain_fs)"
  have run: "smartNestedProcess ''/w/p.tf.tmpl'' demo_cfg demo_plain_fs = (Inr (), s')"
    unfolding s'_def by (simp add: prod_eq_iff) code_simp
  have c: "content_at demo_plain_fs ''/w/p.tf.tmpl'' = Some ''x <OPERATORRULE> <Y>''" by code_simp
  have m: "buildSpecMap demo_cfg = Inr (projr (buildSpecMap demo_cfg))" by code_simp
  have b: "findTopLevelLoops (TrimSpace ''x <OPERATORRULE> <Y>'') = Inr []" by code_simp
  have "renderInPlace (TrimSpace ''x <OPERATORRULE> <Y>'') [] (projr (buildSpecMap demo_cfg)) = Inr ''x vip <Y>''"
    by code_simp
  moreover have "finalName ''/w/p.tf.tmpl'' = ''/w/p.tf''" by code_simp
  ultimately show ?thesis
    using inline_template_effect [OF run c m b, of "''/w/p.tf''"] unfolding s'_def by simp
qed

text \<open>C33: splitting writes only its own files. Whether \<open>splitIntoFiles\<close> succeeds or stops at an
  error, a file other than the template and the indexed files of the elements of the list has the
  same content afterwards. In particular a file written for an element that the list no longer has
  stays in the directory.\<close>

theorem split_frame:
  assumes "splitIntoFiles content f blocks m s = (r, s')"
    and "q \<noteq> f" and "\<And>listData j. resolveListPath m (lb_tag (hd blocks)) = Some listData \<Longrightarrow>
      j < length listData \<Longrightarrow> resolveItem (listData ! j) \<noteq> None \<Longrightarrow> q \<noteq> IndexedResourceFile f j"
  shows "content_at s' q = content_at s q"
  using assms by (rule splitIntoFiles_frame)

definition demo_stale_fs :: fs where
  "demo_stale_fs = demo_fs\<lparr>files := (''/w/t_3.tf'', \<lparr>f_content = ''old'', f_perm = 420\<rparr>) # files demo_fs\<rparr>"

theorem split_frame_witness:
  "content_at (snd (splitIntoFiles demo_tmpl ''/w/t.tf''
     [\<lparr>lb_tag = ''EXTRAITEMS'', lb_body = drop 25 (take 57 demo_tmpl), lb_start = 0, lb_end = 70\<rparr>]
     [(''EXTRAITEMS'', JArr [JStr ''a'', JStr ''b''])] demo_stale_fs)) ''/w/t_3.tf'' = Some ''old''"
proof -
  let ?r = "splitIntoFiles demo_tmpl ''/w/t.tf''
     [\<lparr>lb_tag = ''EXTRAITEMS'', lb_body = drop 25 (take 57 demo_tmpl), lb_start = 0, lb_end = 70\<rparr>]
     [(''EXTRAITEMS'', JArr [JStr ''a'', JStr ''b''])] demo_stale_fs"
  have "?r = (fst ?r, snd ?r)" by simp
  then have "content_at (snd ?r) ''/w/t_3.tf'' = content_at demo_stale_fs ''/w/t_3.tf''"
  proof (rule split_frame)
    show "''/w/t_3.tf'' \<noteq> ''/w/t.tf''" by simp
    fix listData j
    assume "resolveListPath [(''EXTRAITEMS'', JArr [JStr ''a'', JStr ''b''])]
        (lb_tag (hd [\<lparr>lb_tag = ''EXTRAITEMS'', lb_body = drop 25 (take 57 demo_tmpl), lb_start = 0, lb_end = 70\<rparr>])) =
        Some listData"
    then have "listData = [JStr ''a'', JStr ''b'']" by (simp add: resolveListPath_def)
    moreover assume "j < length listData"
    ultimately have "j < 2" by simp
    moreover have "''/w/t_3.tf'' = IndexedResourceFile ''/w/t.tf'' 2" by code_simp
    ultimately show "''/w/t_3.tf'' \<noteq> IndexedResourceFile ''/w/t.tf'' j"
      using IndexedResourceFile_inj [of "''/w/t.tf''" 2 j] by auto
  qed
  moreover have "content_at demo_stale_fs ''/w/t_3.tf'' = Some ''old''" by code_simp
  ultimately show ?thesis by simp
qed

text \<open>C18: a successful split produces the file of every element that is not null, with the text
  rendered for it, and consumes the template.\<close>

theorem split_files:
  assumes "splitIntoFiles content f blocks m s = (Inr (), s')"
    and "resolveListPath m (lb_tag (hd blocks)) = Some listData"
    and "j < length listData" and "resolveItem (listData ! j) = Some im"
    and "findTopLevelLoops (drop (lb_end (hd blocks)) content) = Inr siblings"
    and "findTopLevelLoops (lb_body (hd blocks)) = Inr nested"
  shows "content_at s' f = None \<and>
    (\<exists>c. renderSplitItem (hd blocks) nested (drop (lb_end (hd blocks)) content) siblings m (j + 1) im = Inr c \<and>
       content_at s' (IndexedResourceFile f j) = Some c)"
  using splitIntoFiles_ok [OF assms] splitIntoFiles_removes [OF assms(1)] by blast

theorem split_files_witness:
  "content_at (snd (splitIntoFiles demo_tmpl ''/w/t.tf''
     [\<lparr>lb_tag = ''EXTRAITEMS'', lb_body = ''<VALUE>!'', lb_start = 0, lb_end = length demo_tmpl\<rparr>]
     [(''EXTRAITEMS'', JArr [JNull, JStr ''b''])] demo_fs)) ''/w/t_2.tf'' = Some ''<VALUE_2>!''"
proof -
  let ?b = "\<lparr>lb_tag = ''EXTRAITEMS'', lb_body = ''<VALUE>!'', lb_start = 0, lb_end = length demo_tmpl\<rparr> :: loopBlock"
  let ?m = "[(''EXTRAITEMS'', JArr [JNull, JStr ''b''])]"
  let ?s = "snd (splitIntoFiles demo_tmpl ''/w/t.tf'' [?b] ?m demo_fs)"
  have run: "splitIntoFiles demo_tmpl ''/w/t.tf'' [?b] ?m demo_fs = (Inr (), ?s)"
    by (simp add: prod_eq_iff) code_simp
  have l: "resolveListPath ?m (lb_tag (hd [?b])) = Some [JNull, JStr ''b'']" by code_simp
  have s: "findTopLevelLoops (drop (lb_end (hd [?b])) demo_tmpl) = Inr []" by code_simp
  have n: "findTopLevelLoops (lb_body (hd [?b])) = Inr []" by code_simp
  have "renderSplitItem (hd [?b]) [] (drop (lb_end (hd [?b])) demo_tmpl) [] ?m (1 + 1) [(''VALUE'', JStr ''b'')] =
      Inr ''<VALUE_2>!''" by code_simp
  moreover have "IndexedResourceFile ''/w/t.tf'' 1 = ''/w/t_2.tf''" by code_simp
  ultimately show ?thesis using split_files [OF run l, of 1 "[(''VALUE'', JStr ''b'')]", OF _ _ s n] by auto
qed

text \<open>A template with a broken loop changes nothing. When the loops of the template cannot be
  read, \<open>smartNestedProcess\<close> reports that error and leaves the file system exactly as it was.\<close>

theorem broken_template_untouched:
  assumes "content_at s f = Some c" and "findTopLevelLoops (TrimSpace c) = Inl e" and "\<not> refused s f"
  shows "smartNestedProcess f cfg s = (Inl e, s)"
  using assms by (rule smartNestedProcess_parse_error)

definition demo_broken_fs :: fs where
  "demo_broken_fs = demo_fs\<lparr>files := [(''/w/b.tf'', \<lparr>f_content = ''<FGT_FOR_STR><A>x'', f_perm = 420\<rparr>)]\<rparr>"

theorem broken_template_untouched_witness:
  "smartNestedProcess ''/w/b.tf'' demo_cfg demo_broken_fs =
     (Inl (Errorf ''%s mancante per il blocco <%s>'' [endTag, ''A'']), demo_broken_fs)"
proof (rule broken_template_untouched)
  show "content_at demo_broken_fs ''/w/b.tf'' = Some ''<FGT_FOR_STR><A>x''" by code_simp
  show "findTopLevelLoops (TrimSpace ''<FGT_FOR_STR><A>x'') =
      Inl (Errorf ''%s mancante per il blocco <%s>'' [endTag, ''A''])" by code_simp
  show "\<not> refused demo_broken_fs ''/w/b.tf''" by (simp add: demo_broken_fs_def demo_fs_def)
qed

text \<open>C40: key normalisation gives the engine what it looks for. The normalised value has only
  upper-case keys and no key twice, at every depth, even when keys of the resource differ only in
  case.\<close>

theorem normalised_keys:
  "upper_keys (normalizzaMappaInMaiuscolo v) \<and> wf_json (normalizzaMappaInMaiuscolo v)"
  using upper_keys_normalizza wf_normalizza by simp

end
