(* ===== verification/Numbers.thy ===== *)
theory Numbers
  imports Json GoNet
begin

text \<open>
  Integers of a custom resource on their way to the \<open>int\<close> check: the JSON number is a
  \<open>float64\<close>, \<open>lookupPath\<close> prints it with \<open>%v\<close>, \<open>checkType\<close> reads the text with
  \<open>strconv.Atoi\<close>.  Below a million the text is the decimal numeral; from a million on it is in
  scientific notation, which \<open>Atoi\<close> does not read.
\<close>

lemma strip_zeros_split: "\<exists>k. ds = strip_zeros ds @ replicate k 0 \<and> k + length (strip_zeros ds) = length ds"
proof -
  let ?k = "length (takeWhile (\<lambda>d. d = 0) (rev ds))"
  have "takeWhile (\<lambda>d. d = (0::nat)) (rev ds) = replicate ?k 0"
    by (intro replicate_eqI) (auto dest: set_takeWhileD)
  then have "rev ds = replicate ?k 0 @ dropWhile (\<lambda>d. d = 0) (rev ds)"
    by (metis takeWhile_dropWhile_id)
  then have "rev (rev ds) = strip_zeros ds @ replicate ?k 0"
    unfolding strip_zeros_def by (metis rev_append rev_replicate)
  then have "ds = strip_zeros ds @ replicate ?k 0" by simp
  moreover from this have "?k + length (strip_zeros ds) = length ds"
    by (metis add.commute length_append length_replicate)
  ultimately show ?thesis by blast
qed

lemma digits_text_Itoa: "digits_text (map digit_val (Itoa n)) = Itoa n"
  using Itoa_digits [of _ n] by (auto simp: digits_text_def digit_char_of_val intro!: map_idI)

lemma length_Itoa: "0 < k \<Longrightarrow> length (Itoa n) \<le> k \<longleftrightarrow> n < 10 ^ k"
proof (induction k arbitrary: n)
  case 0
  then show ?case by simp
next
  case (Suc k)
  show ?case
  proof (cases "n < 10")
    case True
    moreover have "(10::nat) \<le> 10 ^ Suc k" by simp
    ultimately have "n < 10 ^ Suc k" by linarith
    with True show ?thesis by (subst Itoa.simps) simp
  next
    case False
    then have len: "length (Itoa n) = Suc (length (Itoa (n div 10)))" by (subst Itoa.simps) simp
    show ?thesis
    proof (cases "k = 0")
      case True
      with False len show ?thesis by simp
    next
      case k: False
      with Suc.IH [of "n div 10"] len show ?thesis by (simp add: div_less_iff_less_mult mult.commute)
    qed
  qed
qed

lemma digit_char_0: "digit_char 0 = CHR ''0''"
  by code_simp

definition decimal :: "int \<Rightarrow> string" where
  "decimal n = (if n < 0 then CHR ''-'' # Itoa (nat \<bar>n\<bar>) else Itoa (nat n))"

lemma Atoi_decimal: "\<bar>n\<bar> < 2 ^ 63 \<Longrightarrow> Atoi (decimal n) = Some n"
proof (cases "n < 0")
  case True
  assume n: "\<bar>n\<bar> < 2 ^ 63"
  have "list_all is_digit (Itoa (nat \<bar>n\<bar>))" by (auto simp: list_all_iff dest: Itoa_digits)
  with True n show ?thesis by (simp add: decimal_def Atoi_def HasPrefix_def Let_def)
next
  case False
  assume "\<bar>n\<bar> < 2 ^ 63"
  with False Atoi_Itoa [of "nat n"] show ?thesis by (simp add: decimal_def nat_less_iff)
qed

lemma Sprintf_small:
  assumes "\<bar>n\<bar> < 10 ^ 6"
  shows "Sprintf_v (num_of_int n) = decimal n"
proof (cases "n = 0")
  case True
  then show ?thesis by (simp add: num_of_int_def fmtG_def fmtF_def digits_text_def decimal_def Itoa_0)
next
  case False
  let ?s = "Itoa (nat \<bar>n\<bar>)"
  let ?ds = "map digit_val ?s"
  obtain k where k: "?ds = strip_zeros ?ds @ replicate k 0" "k + length (strip_zeros ?ds) = length ?s"
    using strip_zeros_split [of ?ds] by auto
  have "nat \<bar>n\<bar> < 10 ^ 6" using assms by (simp add: nat_less_iff)
  then have len: "length ?s \<le> 6" using length_Itoa [of 6 "nat \<bar>n\<bar>"] by simp
  have pos: "0 < length ?s" by simp
  have "digits_text (strip_zeros ?ds) @ replicate k (CHR ''0'') = digits_text ?ds"
    by (subst (2) k(1)) (simp add: digits_text_def digit_char_0)
  moreover have "length ?s - length (strip_zeros ?ds) = k" using k(2) by simp
  ultimately have "fmtF (strip_zeros ?ds) (int (length ?s)) = ?s"
    using k(2) pos by (simp add: fmtF_def digits_text_Itoa)
  with False len pos show ?thesis
    by (simp add: num_of_int_def Let_def fmtG_def decimal_def)
qed

lemma Sprintf_large:
  assumes "10 ^ 6 \<le> \<bar>n\<bar>"
  shows "Atoi (Sprintf_v (num_of_int n)) = None"
proof (rule Atoi_non_digit [of "CHR ''e''"])
  let ?s = "Itoa (nat \<bar>n\<bar>)"
  have n0: "n \<noteq> 0" using assms by auto
  have "\<not> nat \<bar>n\<bar> < 10 ^ 6" using assms by (simp add: nat_less_iff)
  then have "6 < length ?s" using length_Itoa [of 6 "nat \<bar>n\<bar>"] by simp
  with n0 have "Sprintf_v (num_of_int n) = (if n < 0 then ''-'' else []) @
      fmtE (strip_zeros (map digit_val ?s)) (int (length ?s))"
    by (simp add: num_of_int_def Let_def fmtG_def)
  then show "CHR ''e'' \<in> set (tl (Sprintf_v (num_of_int n)))"
    by (auto simp: fmtE_def split: list.splits)
  show "\<not> is_digit (CHR ''e'')" by (simp add: is_digit_def)
qed

end
