(* ===== verification/Schedule.thy ===== *)
theory Schedule
  imports Api
begin

text \<open>
  The admission webhook for \<open>FortigateBackup\<close> (\<open>internal/webhook/v1/backup_schedule.go\<close>,
  \<open>fortigatebackup_webhook.go\<close>): which combinations of frequency, time and day are accepted, and
  all the problems of a rejected one, in the order of the checks.
\<close>

datatype field_error =
    Forbidden string string
  | Required string string
  | Invalid string string

definition ValidateFortigateBackupSpec :: "FortigateBackupSpec \<Rightarrow> string \<Rightarrow> field_error list" where
  "ValidateFortigateBackupSpec spec fldPath =
     (let atPath = fldPath @ ''.at'';
          dayOfWeekPath = fldPath @ ''.dayOfWeek'';
          dayOfMonthPath = fldPath @ ''.dayOfMonth'';
          F = fbs_Frequency spec
      in if F = ''Hourly'' then
           (if fbs_At spec \<noteq> [] then [Forbidden atPath F] else [])
         else if F = ''Daily'' then
           (if fbs_At spec = [] then [Required atPath F] else []) @
           (if fbs_DayOfWeek spec \<noteq> [] then [Forbidden dayOfWeekPath F] else []) @
           (if fbs_DayOfMonth spec \<noteq> 0 then [Forbidden dayOfMonthPath F] else [])
         else if F = ''Weekly'' then
           (if fbs_At spec = [] then [Required atPath F] else []) @
           (if fbs_DayOfWeek spec = [] then [Required dayOfWeekPath F] else []) @
           (if fbs_DayOfMonth spec \<noteq> 0 then [Forbidden dayOfMonthPath F] else [])
         else if F = ''Monthly'' then
           (if fbs_At spec = [] then [Required atPath F] else []) @
           (if fbs_DayOfMonth spec = 0 then [Required dayOfMonthPath F] else []) @
           (if fbs_DayOfWeek spec \<noteq> [] then [Forbidden dayOfWeekPath F] else [])
         else [Invalid (fldPath @ ''.frequency'') F])"

definition validateFortigateBackup :: "FortigateBackup \<Rightarrow> field_error list option" where
  "validateFortigateBackup backup =
     (let errs = ValidateFortigateBackupSpec (fb_Spec backup) ''spec''
      in if errs = [] then None else Some errs)"

definition ValidateCreate :: "FortigateBackup \<Rightarrow> field_error list option" where
  "ValidateCreate obj = validateFortigateBackup obj"

definition ValidateUpdate :: "FortigateBackup \<Rightarrow> FortigateBackup \<Rightarrow> field_error list option" where
  "ValidateUpdate oldObj newObj = validateFortigateBackup newObj"

definition ValidateDelete :: "FortigateBackup \<Rightarrow> field_error list option" where
  "ValidateDelete obj = None"

section \<open>The schedules that are accepted\<close>

text \<open>
  An accepted spec names one schedule: the table of the comment above
  \<open>ValidateFortigateBackupSpec\<close>, as a datatype.  The day fields of an hourly schedule are not
  looked at.
\<close>

datatype schedule =
    Hourly
  | Daily string
  | Weekly string string
  | Monthly string int

fun matches :: "schedule \<Rightarrow> FortigateBackupSpec \<Rightarrow> bool" where
  "matches Hourly sp = (fbs_Frequency sp = ''Hourly'' \<and> fbs_At sp = [])"
| "matches (Daily at) sp =
     (fbs_Frequency sp = ''Daily'' \<and> fbs_At sp = at \<and> at \<noteq> [] \<and>
      fbs_DayOfWeek sp = [] \<and> fbs_DayOfMonth sp = 0)"
| "matches (Weekly at d) sp =
     (fbs_Frequency sp = ''Weekly'' \<and> fbs_At sp = at \<and> at \<noteq> [] \<and>
      fbs_DayOfWeek sp = d \<and> d \<noteq> [] \<and> fbs_DayOfMonth sp = 0)"
| "matches (Monthly at n) sp =
     (fbs_Frequency sp = ''Monthly'' \<and> fbs_At sp = at \<and> at \<noteq> [] \<and>
      fbs_DayOfMonth sp = n \<and> n \<noteq> 0 \<and> fbs_DayOfWeek sp = [])"

lemma Validate_unknown:
  "fbs_Frequency sp \<notin> {''Hourly'', ''Daily'', ''Weekly'', ''Monthly''} \<Longrightarrow>
     ValidateFortigateBackupSpec sp p = [Invalid (p @ ''.frequency'') (fbs_Frequency sp)]"
  by (simp add: ValidateFortigateBackupSpec_def Let_def)

lemma matches_unknown:
  "fbs_Frequency sp \<notin> {''Hourly'', ''Daily'', ''Weekly'', ''Monthly''} \<Longrightarrow> \<not> matches c sp"
  by (cases c) auto

lemma Validate_accepts_iff: "ValidateFortigateBackupSpec sp p = [] \<longleftrightarrow> (\<exists>c. matches c sp)"
proof -
  consider "fbs_Frequency sp = ''Hourly''" | "fbs_Frequency sp = ''Daily''"
    | "fbs_Frequency sp = ''Weekly''" | "fbs_Frequency sp = ''Monthly''"
    | "fbs_Frequency sp \<notin> {''Hourly'', ''Daily'', ''Weekly'', ''Monthly''}" by blast
  then show ?thesis
  proof cases
    case 1
    have "(\<exists>c. matches c sp) \<longleftrightarrow> matches Hourly sp"
    proof
      assume "\<exists>c. matches c sp"
      then obtain c where "matches c sp" by blast
      with 1 show "matches Hourly sp" by (cases c) simp_all
    qed blast
    with 1 show ?thesis by (simp add: ValidateFortigateBackupSpec_def Let_def)
  next
    case 2
    have "(\<exists>c. matches c sp) \<longleftrightarrow> matches (Daily (fbs_At sp)) sp"
    proof
      assume "\<exists>c. matches c sp"
      then obtain c where "matches c sp" by blast
      with 2 show "matches (Daily (fbs_At sp)) sp" by (cases c) simp_all
    qed blast
    with 2 show ?thesis by (simp add: ValidateFortigateBackupSpec_def Let_def)
  next
    case 3
    have "(\<exists>c. matches c sp) \<longleftrightarrow> matches (Weekly (fbs_At sp) (fbs_DayOfWeek sp)) sp"
    proof
      assume "\<exists>c. matches c sp"
      then obtain c where "matches c sp" by blast
      with 3 show "matches (Weekly (fbs_At sp) (fbs_DayOfWeek sp)) sp" by (cases c) simp_all
    qed blast
    with 3 show ?thesis by (simp add: ValidateFortigateBackupSpec_def Let_def)
  next
    case 4
    have "(\<exists>c. matches c sp) \<longleftrightarrow> matches (Monthly (fbs_At sp) (fbs_DayOfMonth sp)) sp"
    proof
      assume "\<exists>c. matches c sp"
      then obtain c where "matches c sp" by blast
      with 4 show "matches (Monthly (fbs_At sp) (fbs_DayOfMonth sp)) sp" by (cases c) simp_all
    qed blast
    with 4 show ?thesis by (simp add: ValidateFortigateBackupSpec_def Let_def)
  next
    case 5
    with Validate_unknown [OF 5, of p] matches_unknown [OF 5] show ?thesis by simp
  qed
qed

lemma schedule_unique: "matches c sp \<Longrightarrow> matches c' sp \<Longrightarrow> c = c'"
  by (cases c; cases c'; simp)

end
