(* ===== verification/Rules_Properties.thy ===== *)
theory Rules_Properties
  imports Examples Numbers Schedule
begin

text \<open>
  Properties of the configuration-driven rules and of the values they accept: validation before
  any write, the effect of a rule on the files, independence of the order of Go maps, loading and
  merging of rules, and the backup schedules the webhook accepts.
\<close>

section \<open>Applying a rule\<close>

text \<open>C15: validation before any write. If one element of the list of a list rule has a value the
  rule does not accept, the rule fails and the file system is exactly what it was: no file, not
  even those of the valid elements before it, has been touched.\<close>

theorem invalid_element_writes_nothing:
  assumes "rc_ListField rc \<noteq> []"
    and "lookupRawPath (spec_fields (fc_Spec cfg)) (rc_ListField rc) = Some (JArr items)"
    and "JObj im \<in> set items" and "(tag, rule) \<in> set (rc_Validate rc)"
    and "map_of (rc_ItemMappings rc) tag = Some path"
    and "\<not> field_ok re (om_Name (fc_Meta cfg)) im path rule"
  shows "\<exists>e. applyConfigDrivenRule re rc cfg f s = (Inl e, s)"
proof -
  let ?n = "om_Name (fc_Meta cfg)"
  have "validateFields re (rc_Validate rc) (rc_ItemMappings rc) ?n im [] \<noteq> Inr ()"
    using assms(4,5,6) unfolding validateFields_ok by fast
  then have "validateItems re rc ?n 0 items \<noteq> Inr ()"
    using assms(3) unfolding validateItems_ok by blast
  then obtain e where e: "validateItems re rc ?n 0 items = Inl e"
    by (cases "validateItems re rc ?n 0 items") auto
  show ?thesis
    using assms(1,2) e
    by (cases "validateEngineLists re (rc_ValidateLists rc) ?n (spec_fields (fc_Spec cfg))")
      (auto simp: applyConfigDrivenRule_def specToMap_def andThen_def wrapErr_def)
qed

definition demo_bad_cfg :: FortigateConfig where
  "demo_bad_cfg = demo_cfg\<lparr>fc_Spec := (fc_Spec demo_cfg)\<lparr>fcs_ExtraItems :=
     [JObj demo_item1, JObj [(''name'', JStr ''dns''), (''port'', JStr ''dns'')]]\<rparr>\<rparr>"

theorem invalid_element_writes_nothing_witness:
  "\<exists>e. applyConfigDrivenRule demo_re demo_rule demo_bad_cfg ''/w/t.tf'' demo_fs = (Inl e, demo_fs)"
proof (rule invalid_element_writes_nothing)
  show "rc_ListField demo_rule \<noteq> []" by code_simp
  show "lookupRawPath (spec_fields (fc_Spec demo_bad_cfg)) (rc_ListField demo_rule) =
      Some (JArr [JObj demo_item1, JObj [(''name'', JStr ''dns''), (''port'', JStr ''dns'')]])" by code_simp
  show "JObj [(''name'', JStr ''dns''), (''port'', JStr ''dns'')] \<in>
      set [JObj demo_item1, JObj [(''name'', JStr ''dns''), (''port'', JStr ''dns'')]]" by simp
  show "(''FGT_PORT'', \<lparr>fv_Required = True, fv_Type = ''int'', fv_Enum = [], fv_Pattern = []\<rparr>) \<in>
      set (rc_Validate demo_rule)" by (simp add: demo_rule_def)
  show "map_of (rc_ItemMappings demo_rule) ''FGT_PORT'' = Some ''port''" by code_simp
  show "\<not> field_ok demo_re (om_Name (fc_Meta demo_bad_cfg)) [(''name'', JStr ''dns''), (''port'', JStr ''dns'')]
      ''port'' \<lparr>fv_Required = True, fv_Type = ''int'', fv_Enum = [], fv_Pattern = []\<rparr>" by code_simp
qed

text \<open>C27: the effect of a list rule. When a list rule succeeds, every element was valid; the file of
  each element that is an object has the substitutions of that element applied to what it was, and
  every file that belongs to no element is unchanged.\<close>

theorem list_rule_effect:
  assumes "applyConfigDrivenRule re rc cfg f s = (Inr (), s')" and "rc_ListField rc \<noteq> []"
    and "lookupRawPath (spec_fields (fc_Spec cfg)) (rc_ListField rc) = Some (JArr items)"
  shows "(\<forall>im. JObj im \<in> set items \<longrightarrow>
            validateFields re (rc_Validate rc) (rc_ItemMappings rc) (om_Name (fc_Meta cfg)) im [] = Inr ()) \<and>
    (\<forall>j < length items. \<forall>im. items ! j = JObj im \<longrightarrow>
       (\<exists>c. content_at s (IndexedResourceFile f j) = Some c \<and>
          content_at s' (IndexedResourceFile f j) = Some (replace_mods c
            (buildMods (rc_ItemMappings rc) (om_Name (fc_Meta cfg)) im (item_suffix j))))) \<and>
    (\<forall>q. (\<forall>j < length items. q \<noteq> IndexedResourceFile f j) \<longrightarrow> content_at s' q = content_at s q)"
proof -
  obtain items' where i: "lookupRawPath (spec_fields (fc_Spec cfg)) (rc_ListField rc) = Some (JArr items')"
    and v: "validateItems re rc (om_Name (fc_Meta cfg)) 0 items' = Inr ()"
    and a: "applyItems rc (om_Name (fc_Meta cfg)) f 0 items' s = (Inr (), s')"
    by (rule applyConfigDrivenRule_list_ok [OF assms(1,2)]) blast
  have eq: "items' = items" using i assms(3) by simp
  have "content_at s' q = content_at s q" if "\<forall>j < length items. q \<noteq> IndexedResourceFile f j" for q
    using applyItems_frame [OF a, of q] that eq by simp
  with v a show ?thesis
    unfolding eq validateItems_ok using applyItems_ok [of rc "om_Name (fc_Meta cfg)" f 0 items s "()" s']
    by simp
qed

definition demo_split_fs :: fs where
  "demo_split_fs = demo_fs\<lparr>files := [(''/w/t_1.tf'', \<lparr>f_content = ''p <FGT_PORT_1>'', f_perm = 420\<rparr>),
     (''/w/t_2.tf'', \<lparr>f_content = ''q <FGT_PORT_2> <FGT_PORT>'', f_perm = 420\<rparr>),
     (''/w/other'', \<lparr>f_content = ''<FGT_PORT_1>'', f_perm = 420\<rparr>)]\<rparr>"

theorem list_rule_effect_witness:
  "content_at (snd (applyConfigDrivenRule demo_re demo_rule demo_cfg ''/w/t.tf'' demo_split_fs)) ''/w/t_2.tf'' =
     Some ''q 53 <FGT_PORT>''"
proof -
  let ?s = "snd (applyConfigDrivenRule demo_re demo_rule demo_cfg ''/w/t.tf'' demo_split_fs)"
  have "fst (applyConfigDrivenRule demo_re demo_rule demo_cfg ''/w/t.tf'' demo_split_fs) = Inr ()" by code_simp
  then have run: "applyConfigDrivenRule demo_re demo_rule demo_cfg ''/w/t.tf'' demo_split_fs = (Inr (), ?s)"
    by (simp add: prod_eq_iff)
  have l: "rc_ListField demo_rule \<noteq> []" by code_simp
  have i: "lookupRawPath (spec_fields (fc_Spec demo_cfg)) (rc_ListField demo_rule) =
      Some (JArr [JObj demo_item1, JObj demo_item2])" by code_simp
  have "\<exists>c. content_at demo_split_fs (IndexedResourceFile ''/w/t.tf'' 1) = Some c \<and>
     content_at ?s (IndexedResourceFile ''/w/t.tf'' 1) = Some (replace_mods c
       (buildMods (rc_ItemMappings demo_rule) (om_Name (fc_Meta demo_cfg)) demo_item2 (item_suffix 1)))"
    using list_rule_effect [OF run l i] by simp
  moreover have "IndexedResourceFile ''/w/t.tf'' 1 = ''/w/t_2.tf''" by code_simp
  moreover have "content_at demo_split_fs ''/w/t_2.tf'' = Some ''q <FGT_PORT_2> <FGT_PORT>''" by code_simp
  moreover have "replace_mods ''q <FGT_PORT_2> <FGT_PORT>'' (buildMods (rc_ItemMappings demo_rule)
     (om_Name (fc_Meta demo_cfg)) demo_item2 (item_suffix 1)) = ''q 53 <FGT_PORT>''" by code_simp
  ultimately show ?thesis by simp
qed

text \<open>C36: the effect of a rule on a single resource. When it succeeds, all its fields were valid,
  the base file has the substitutions of the rule applied, with its permissions kept, and every
  other file is unchanged.\<close>

theorem single_rule_effect:
  assumes "applyConfigDrivenRule re rc cfg f s = (Inr (), s')" and "rc_ListField rc = []"
  shows "validateFields re (rc_Validate rc) (rc_Mappings rc) (om_Name (fc_Meta cfg))
           (spec_fields (fc_Spec cfg)) [] = Inr () \<and>
    (\<exists>o'. file_at s f = Some o' \<and>
       (\<forall>q. file_at s' q = (if q = f then Some (o'\<lparr>f_content := replace_mods (f_content o')
          (buildMods (rc_Mappings rc) (om_Name (fc_Meta cfg)) (spec_fields (fc_Spec cfg)) [])\<rparr>)
        else file_at s q)))"
proof -
  let ?m = "buildMods (rc_Mappings rc) (om_Name (fc_Meta cfg)) (spec_fields (fc_Spec cfg)) []"
  have v: "validateFields re (rc_Validate rc) (rc_Mappings rc) (om_Name (fc_Meta cfg))
           (spec_fields (fc_Spec cfg)) [] = Inr ()"
    using assms by (auto simp: applyConfigDrivenRule_def specToMap_def andThen_ok wrapErr_ok Let_def)
  have "modifyFileValue f ?m s = (Inr (), s')"
    using applyConfigDrivenRule_single_ok [OF assms] applyMods_ok by blast
  with v modifyFileValue_ok [of f ?m s "()" s'] show ?thesis by (metis option.inject)
qed

definition demo_single_rule :: RuleMappingConfig where
  "demo_single_rule = demo_rule\<lparr>rc_ListField := [], rc_Mappings := [(''FGT_N'', ''$cr.name'')]\<rparr>"

theorem single_rule_effect_witness:
  "file_at (snd (applyConfigDrivenRule demo_re demo_single_rule demo_cfg ''/w/x'' 
     (demo_fs\<lparr>files := [(''/w/x'', \<lparr>f_content = ''a<FGT_N>'', f_perm = 384\<rparr>)]\<rparr>))) ''/w/x'' =
     Some \<lparr>f_content = ''acr1'', f_perm = 384\<rparr>"
proof -
  let ?s = "demo_fs\<lparr>files := [(''/w/x'', \<lparr>f_content = ''a<FGT_N>'', f_perm = 384\<rparr>)]\<rparr>"
  let ?r = "applyConfigDrivenRule demo_re demo_single_rule demo_cfg ''/w/x'' ?s"
  have "fst ?r = Inr ()" by code_simp
  then have run: "?r = (Inr (), snd ?r)" by (simp add: prod_eq_iff)
  have l: "rc_ListField demo_single_rule = []" by code_simp
  have "file_at ?s ''/w/x'' = Some \<lparr>f_content = ''a<FGT_N>'', f_perm = 384\<rparr>" by code_simp
  moreover have "replace_mods ''a<FGT_N>'' (buildMods (rc_Mappings demo_single_rule) (om_Name (fc_Meta demo_cfg))
      (spec_fields (fc_Spec demo_cfg)) []) = ''acr1''" by code_simp
  ultimately show ?thesis using single_rule_effect [OF run l] by auto
qed

section \<open>Order of Go maps\<close>

lemma map_of_mapping_perm:
  assumes "mset ms = mset ms'" "wf_map ms"
  shows "map_of ms = map_of ms'"
proof -
  have "distinct (map fst ms')"
    using assms mset_eq_imp_distinct_iff [of "map fst ms" "map fst ms'"] by (simp add: wf_map_def)
  then show ?thesis using assms mset_eq_setD [OF assms(1)] map_of_eqI
    by (metis map_of_inject_set wf_map_def)
qed

lemma fill_cong: "map_of tvs = map_of tvs' \<Longrightarrow> fill tvs = fill tvs'"
  by (simp add: fill_def fun_eq_iff split: piece.splits)

text \<open>C35: when substitution does not depend on the order of the mappings. Go iterates over the
  mappings of a rule in any order. For a text whose brackets are placeholders with plain names, mappings
  with distinct tags that are plain names, and values without an opening bracket, the resulting text is
  the same for every order, and it is the simultaneous substitution. Without the condition on the
  values it depends on the order, see \<open>order_of_mappings_matters\<close>.\<close>

theorem substitution_order_irrelevant:
  assumes "mset mappings = mset mappings'" and "wf_map mappings" and "list_all wf_piece ps"
    and "list_all (\<lambda>(t, v). wf_name t \<and> CHR ''<'' \<notin> set v) (mapping_values mappings cfgName m sfx)"
  shows "replace_mods (print_pieces ps) (buildMods mappings cfgName m sfx) =
           replace_mods (print_pieces ps) (buildMods mappings' cfgName m sfx) \<and>
         replace_mods (print_pieces ps) (buildMods mappings cfgName m sfx) =
           print_pieces (concat (map (fill (mapping_values mappings cfgName m sfx)) ps))"
proof -
  let ?v = "\<lambda>ms. mapping_values ms cfgName m sfx"
  have ms: "mset (?v mappings) = mset (?v mappings')"
    using assms(1) by (simp add: mapping_values_def)
  have "list_all (\<lambda>(t, v). wf_name t \<and> CHR ''<'' \<notin> set v) (?v mappings')"
    using assms(4) mset_eq_setD [OF ms] by (simp add: list_all_iff)
  moreover have "inj (\<lambda>t :: string. t @ sfx)" by (simp add: inj_def)
  then have "wf_map (?v mappings)"
    using assms(2) unfolding wf_map_def mapping_values_def
    by (simp add: o_def case_prod_beta' distinct_map comp_inj_on inj_on_def)
  then have "fill (?v mappings) = fill (?v mappings')"
    by (intro fill_cong map_of_mapping_perm ms)
  ultimately show ?thesis
    using replace_mods_pieces [OF assms(3,4)] replace_mods_pieces [OF assms(3), of "?v mappings'"]
    by (simp add: buildMods_tags)
qed

lemma order_of_mappings_matters:
  "replace_mods ''<A>'' (buildMods [(''A'', ''x''), (''B'', ''y'')] ''n'' [(''x'', JStr ''<B>''), (''y'', JStr ''2'')] []) = ''2''"
  "replace_mods ''<A>'' (buildMods [(''B'', ''y''), (''A'', ''x'')] ''n'' [(''x'', JStr ''<B>''), (''y'', JStr ''2'')] []) = ''<B>''"
  by code_simp+

theorem substitution_order_irrelevant_witness:
  "replace_mods ''<A>-<B>'' (buildMods [(''A'', ''x''), (''B'', ''y'')] ''n'' [(''x'', JStr ''1''), (''y'', JStr ''2'')] []) =
   replace_mods ''<A>-<B>'' (buildMods [(''B'', ''y''), (''A'', ''x'')] ''n'' [(''x'', JStr ''1''), (''y'', JStr ''2'')] [])"
proof -
  have "print_pieces [Var ''A'', Lit (CHR ''-''), Var ''B''] = ''<A>-<B>''" by code_simp
  moreover have "mset [(''A'', ''x''), (''B'', ''y'')] = mset [(''B'', ''y''), (''A'', ''x'')]" by simp
  moreover have "wf_map [(''A'', ''x''), (''B'', ''y'')]" by code_simp
  moreover have "list_all wf_piece [Var ''A'', Lit (CHR ''-''), Var ''B'']" by code_simp
  moreover have "list_all (\<lambda>(t, v). wf_name t \<and> CHR ''<'' \<notin> set v)
     (mapping_values [(''A'', ''x''), (''B'', ''y'')] ''n'' [(''x'', JStr ''1''), (''y'', JStr ''2'')] [])" by code_simp
  ultimately show ?thesis using substitution_order_irrelevant by metis
qed

end
