(* ===== verification/Startup.thy ===== *)
theory Startup
  imports World
begin

text \<open>
  The life of the package variables: their initial values, the part of \<open>main\<close> (\<open>cmd/main.go\<close>)
  that loads the rules and the configuration before any controller runs, and the steps by which
  the exported functions change them afterwards.
\<close>

section \<open>Initial values and start\<close>

definition initialRegistry :: registry where
  "initialRegistry =
     \<lparr>operatorRuleRegistry = [], activeCommonMappings = defaultCommonMappings,
      activeOperatorConfig = DefaultOperatorConfig\<rparr>"

definition Getenv :: "string \<Rightarrow> world \<Rightarrow> string" where
  "Getenv k w = (case map_of (w_environ w) k of Some v \<Rightarrow> v | None \<Rightarrow> [])"

definition env_or :: "string \<Rightarrow> string \<Rightarrow> world \<Rightarrow> string" where
  "env_or k d w = (if Getenv k w = [] then d else Getenv k w)"

definition rulesLabelSelectorStr :: "world \<Rightarrow> string" where
  "rulesLabelSelectorStr =
     env_or ''FGT_OPERATOR_RULES_LABEL_SELECTOR'' ''app.kubernetes.io/component=fgt-operator-rule''"

definition operatorConfigPath :: "world \<Rightarrow> string" where
  "operatorConfigPath = env_or ''FGT_OPERATOR_CONFIG_FILE'' ''/etc/fgt-operator-config/operator-config.json''"

text \<open>
  An error ends the process with status 1.  Outside: the parser of label selectors \<open>parse\<close>, the
  list call \<open>listed\<close> with namespace and selector, the two JSON decoders.
\<close>

definition startRules :: "regexp \<Rightarrow> (string \<Rightarrow> RulesFile res) \<Rightarrow> (string \<Rightarrow> 'l res) \<Rightarrow>
    (call list \<Rightarrow> string \<Rightarrow> 'l \<Rightarrow> configMapRuleSource list res) \<Rightarrow> (world, unit) op" where
  "startRules re dec parse listed w =
     andThen (liftRes (parse (rulesLabelSelectorStr w))) (\<lambda>sel.
     andThen (ask (KList ''ConfigMap'') (\<lambda>h. Inr (listed h ''default'' sel))) (\<lambda>items.
     onReg (LoadOperatorRulesFromConfigMaps re dec items))) w"

definition startConfig :: "(string \<Rightarrow> OperatorConfig \<Rightarrow> OperatorConfig res) \<Rightarrow> (world, unit) op" where
  "startConfig decCfg w =
     andThen (onFs (LoadOperatorConfigFromFile decCfg (operatorConfigPath w))) (\<lambda>opCfg.
     onReg (\<lambda>g. (Inr (), SetOperatorConfig opCfg g))) w"

definition startup :: "regexp \<Rightarrow> (string \<Rightarrow> RulesFile res) \<Rightarrow> (string \<Rightarrow> OperatorConfig \<Rightarrow> OperatorConfig res) \<Rightarrow>
    (string \<Rightarrow> 'l res) \<Rightarrow> (call list \<Rightarrow> string \<Rightarrow> 'l \<Rightarrow> configMapRuleSource list res) \<Rightarrow> (world, unit) op" where
  "startup re dec decCfg parse listed =
     andThen (startRules re dec parse listed) (\<lambda>_. startConfig decCfg)"

section \<open>What a successful start leaves behind\<close>

lemma onReg_ok: "onReg m w = (Inr x, w') \<longleftrightarrow> (\<exists>g. m (w_reg w) = (Inr x, g) \<and> w' = w\<lparr>w_reg := g\<rparr>)"
  by (auto simp: onReg_def split: prod.splits)

lemma onFs_ok: "onFs m w = (Inr x, w') \<longleftrightarrow> (\<exists>f. m (w_fs w) = (Inr x, f) \<and> w' = w\<lparr>w_fs := f\<rparr>)"
  by (auto simp: onFs_def split: prod.splits)

lemma LoadOperatorConfigFromFile_ok:
  "LoadOperatorConfigFromFile dec p s = (Inr cfg, s') \<longleftrightarrow>
     s' = s \<and> \<not> refused s p \<and> (\<exists>data. content_at s p = Some data \<and> dec data DefaultOperatorConfig = Inr cfg)"
  by (auto simp: LoadOperatorConfigFromFile_def andThen_ok wrapErr_ok ReadFile_ok)

lemma LoadOperatorRulesFromConfigMaps_ok:
  "LoadOperatorRulesFromConfigMaps re dec listed g = (Inr (), g') \<longleftrightarrow>
     (\<exists>srcs rf. listed = Inr srcs \<and> mergeConfigMapRuleSources dec srcs = Inr rf \<and>
        applyRulesFile re rf g = (Inr (), g'))"
  by (auto simp: LoadOperatorRulesFromConfigMaps_def andThen_ok wrapErr_ok)

lemma startup_ok:
  assumes "startup re dec decCfg parse listed w = (Inr (), w')" and "w_reg w = initialRegistry"
  obtains sel srcs rf data cfg where
    "parse (rulesLabelSelectorStr w) = Inr sel" "listed (w_log w) ''default'' sel = Inr srcs"
    "mergeConfigMapRuleSources dec srcs = Inr rf"
    "content_at (w_fs w) (operatorConfigPath w) = Some data" "decCfg data DefaultOperatorConfig = Inr cfg"
    "[] \<notin> fst ` set (rf_Rules rf)"
    "w_reg w' = \<lparr>operatorRuleRegistry = map (\<lambda>(n, rc). (n, applyConfigDrivenRule re rc)) (rf_Rules rf),
       activeCommonMappings = (if cm_Mappings (rf_Common rf) = [] then defaultCommonMappings
                               else cm_Mappings (rf_Common rf)),
       activeOperatorConfig = cfg\<rparr>"
    "w_fs w' = w_fs w"
proof -
  from assms(1) obtain w1 where s1: "startRules re dec parse listed w = (Inr (), w1)"
    and s2: "startConfig decCfg w1 = (Inr (), w')"
    by (auto simp: startup_def andThen_ok)
  from s1 obtain sel srcs rf g where 1: "parse (rulesLabelSelectorStr w) = Inr sel"
    "listed (w_log w) ''default'' sel = Inr srcs" "mergeConfigMapRuleSources dec srcs = Inr rf"
    "applyRulesFile re rf initialRegistry = (Inr (), g)"
    "w1 = w\<lparr>w_log := w_log w @ [KList ''ConfigMap''], w_reg := g\<rparr>"
    by (auto simp: startRules_def andThen_ok ask_def onReg_ok LoadOperatorRulesFromConfigMaps_ok assms(2))
  have path: "operatorConfigPath w1 = operatorConfigPath w" and fs: "w_fs w1 = w_fs w" and reg: "w_reg w1 = g"
    using 1(5) by (simp_all add: operatorConfigPath_def env_or_def Getenv_def)
  from s2 obtain data cfg where 2: "content_at (w_fs w) (operatorConfigPath w) = Some data"
    "decCfg data DefaultOperatorConfig = Inr cfg" "w_reg w' = SetOperatorConfig cfg g" "w_fs w' = w_fs w"
    by (auto simp: startConfig_def andThen_ok onFs_ok onReg_ok LoadOperatorConfigFromFile_ok path fs reg)
  from 1(4) have 3: "[] \<notin> fst ` set (rf_Rules rf)"
    "g = (SetCommonConfig (rf_Common rf) initialRegistry)\<lparr>operatorRuleRegistry :=
       map (\<lambda>(n, rc). (n, applyConfigDrivenRule re rc)) (rf_Rules rf)\<rparr>"
    by (auto simp: applyRulesFile_ok initialRegistry_def)
  show ?thesis
    by (rule that [OF 1(1-3) 2(1,2) 3(1) _ 2(4)])
      (simp add: 2(3) 3(2) SetOperatorConfig_def SetCommonConfig_def initialRegistry_def)
qed

section \<open>The manager\<close>

text \<open>The command line, with the defaults of \<open>main\<close>.\<close>

record flags =
  fl_metricsAddr :: string
  fl_probeAddr :: string
  fl_enableLeaderElection :: bool
  fl_secureMetrics :: bool
  fl_webhookCertPath :: string
  fl_webhookCertName :: string
  fl_webhookCertKey :: string
  fl_metricsCertPath :: string
  fl_metricsCertName :: string
  fl_metricsCertKey :: string
  fl_operatorRulesPath :: string
  fl_enableHTTP2 :: bool

definition defaultFlags :: flags where
  "defaultFlags =
     \<lparr>fl_metricsAddr = ''0'', fl_probeAddr = '':8081'', fl_enableLeaderElection = False,
      fl_secureMetrics = True, fl_webhookCertPath = [], fl_webhookCertName = ''tls.crt'',
      fl_webhookCertKey = ''tls.key'', fl_metricsCertPath = [], fl_metricsCertName = ''tls.crt'',
      fl_metricsCertKey = ''tls.key'', fl_operatorRulesPath = ''/etc/fgt-operator/rules.json'',
      fl_enableHTTP2 = False\<rparr>"

text \<open>Of a TLS configuration, the protocols \<open>NextProtos\<close>.\<close>

type_synonym tlsConfig = "string list"

definition disableHTTP2 :: "tlsConfig \<Rightarrow> tlsConfig" where
  "disableHTTP2 c = [''http/1.1'']"

definition tlsOpts :: "flags \<Rightarrow> (tlsConfig \<Rightarrow> tlsConfig) list" where
  "tlsOpts fl = (if \<not> fl_enableHTTP2 fl then [disableHTTP2] else [])"

record serverOptions =
  so_TLSOpts :: "(tlsConfig \<Rightarrow> tlsConfig) list"
  so_CertDir :: string
  so_CertName :: string
  so_KeyName :: string

definition webhookServerOptions :: "flags \<Rightarrow> serverOptions" where
  "webhookServerOptions fl =
     (let o1 = \<lparr>so_TLSOpts = tlsOpts fl, so_CertDir = [], so_CertName = [], so_KeyName = []\<rparr> in
      if fl_webhookCertPath fl \<noteq> []
      then o1\<lparr>so_CertDir := fl_webhookCertPath fl, so_CertName := fl_webhookCertName fl,
              so_KeyName := fl_webhookCertKey fl\<rparr>
      else o1)"

record metricsOptions =
  mo_BindAddress :: string
  mo_SecureServing :: bool
  mo_Authenticated :: bool
  mo_Server :: serverOptions

definition metricsServerOptions :: "flags \<Rightarrow> metricsOptions" where
  "metricsServerOptions fl =
     \<lparr>mo_BindAddress = fl_metricsAddr fl, mo_SecureServing = fl_secureMetrics fl,
      mo_Authenticated = fl_secureMetrics fl,
      mo_Server = (let o1 = \<lparr>so_TLSOpts = tlsOpts fl, so_CertDir = [], so_CertName = [], so_KeyName = []\<rparr> in
        if fl_metricsCertPath fl \<noteq> []
        then o1\<lparr>so_CertDir := fl_metricsCertPath fl, so_CertName := fl_metricsCertName fl,
                so_KeyName := fl_metricsCertKey fl\<rparr>
        else o1)\<rparr>"

record managerOptions =
  mg_Metrics :: metricsOptions
  mg_WebhookServer :: serverOptions
  mg_HealthProbeBindAddress :: string
  mg_LeaderElection :: bool
  mg_LeaderElectionID :: string

definition manager_options :: "flags \<Rightarrow> managerOptions" where
  "manager_options fl =
     \<lparr>mg_Metrics = metricsServerOptions fl, mg_WebhookServer = webhookServerOptions fl,
      mg_HealthProbeBindAddress = fl_probeAddr fl, mg_LeaderElection = fl_enableLeaderElection fl,
      mg_LeaderElectionID = ''75b06372.k8s.dinova.one''\<rparr>"

text \<open>
  A controller as its \<open>SetupWithManager\<close> builds it: the kind whose objects it is for, the predicates
  its events have to pass, its name.
\<close>

datatype predicate' = GenerationChangedPredicate

record controller =
  ct_For :: string
  ct_Predicates :: "predicate' list"
  ct_Named :: string

datatype request =
    IndexField string string
  | Controller controller
  | WebhookManagedBy string
  | AddHealthzCheck string
  | AddReadyzCheck string
  | Start

text \<open>\<open>asked q\<close> is the call by which the request \<open>q\<close> shows in the log.\<close>

primrec request_name :: "request \<Rightarrow> string" where
  "request_name (IndexField kind field) = ''index '' @ field"
| "request_name (Controller c) = ct_Named c"
| "request_name (WebhookManagedBy kind) = kind @ '' webhook''"
| "request_name (AddHealthzCheck name) = name"
| "request_name (AddReadyzCheck name) = name"
| "request_name Start = ''Start''"

definition asked :: "request \<Rightarrow> call" where
  "asked q = Manager (request_name q)"

text \<open>The methods \<open>SetupWithManager\<close> of the reconcilers.\<close>

definition SetupFortigateFirewall :: request where
  "SetupFortigateFirewall = Controller \<lparr>ct_For = ''FortigateFirewall'',
     ct_Predicates = [GenerationChangedPredicate], ct_Named = ''fortigatefirewall''\<rparr>"

definition SetupFortigateConfig :: request where
  "SetupFortigateConfig = Controller \<lparr>ct_For = ''FortigateConfig'',
     ct_Predicates = [GenerationChangedPredicate], ct_Named = ''fortigateconfig''\<rparr>"

definition SetupFortigateUpdate :: request where
  "SetupFortigateUpdate = Controller \<lparr>ct_For = ''FortigateUpdate'',
     ct_Predicates = [GenerationChangedPredicate], ct_Named = ''fortigateupdate''\<rparr>"

definition SetupFortigateUpdatePath :: request where
  "SetupFortigateUpdatePath = Controller \<lparr>ct_For = ''FortigateUpdatePath'',
     ct_Predicates = [GenerationChangedPredicate], ct_Named = ''fortigateupdatepath''\<rparr>"

definition SetupFortigateBackup :: request where
  "SetupFortigateBackup = Controller \<lparr>ct_For = ''FortigateBackup'', ct_Predicates = [], ct_Named = ''fortigatebackup''\<rparr>"

definition SetupFirewall :: request where
  "SetupFirewall = Controller \<lparr>ct_For = ''Firewall'', ct_Predicates = [], ct_Named = ''firewall''\<rparr>"

definition SetupFortigateBackupWebhookWithManager :: request where
  "SetupFortigateBackupWebhookWithManager = WebhookManagedBy ''FortigateBackup''"

text \<open>
  The controller manager is outside: \<open>m_new\<close> creates it, \<open>m_do\<close> answers the other requests, among
  them \<open>Start\<close>, which returns when the process is told to stop.
\<close>

record manager_api =
  m_new :: "call list \<Rightarrow> managerOptions \<Rightarrow> unit res"
  m_do :: "call list \<Rightarrow> request \<Rightarrow> unit res"

primrec setupAll :: "manager_api \<Rightarrow> request list \<Rightarrow> (world, unit) op" where
  "setupAll mgr [] = ret ()"
| "setupAll mgr (q # qs) = andThen (ask (asked q) (\<lambda>h. m_do mgr h q)) (\<lambda>_. setupAll mgr qs)"

definition webhooks :: "manager_api \<Rightarrow> (world, unit) op" where
  "webhooks mgr w =
     (if Getenv ''ENABLE_WEBHOOKS'' w \<noteq> ''false'' then setupAll mgr [SetupFortigateBackupWebhookWithManager] w
      else ret () w)"

definition main_process :: "manager_api \<Rightarrow> regexp \<Rightarrow> (string \<Rightarrow> RulesFile res) \<Rightarrow>
    (string \<Rightarrow> OperatorConfig \<Rightarrow> OperatorConfig res) \<Rightarrow> (string \<Rightarrow> 'l res) \<Rightarrow>
    (call list \<Rightarrow> string \<Rightarrow> 'l \<Rightarrow> configMapRuleSource list res) \<Rightarrow> flags \<Rightarrow> (world, unit) op" where
  "main_process mgr re dec decCfg parse listed fl =
     andThen (ask (Manager ''NewManager'') (\<lambda>h. m_new mgr h (manager_options fl))) (\<lambda>_.
     andThen (startup re dec decCfg parse listed) (\<lambda>_.
     andThen (setupAll mgr [IndexField ''FortigateUpdatePath'' ''spec.model'', SetupFortigateFirewall, SetupFortigateConfig,
        SetupFortigateUpdate, SetupFortigateUpdatePath, SetupFortigateBackup]) (\<lambda>_.
     andThen (webhooks mgr) (\<lambda>_.
     andThen (setupAll mgr [SetupFirewall, AddHealthzCheck ''healthz'', AddReadyzCheck ''readyz'']) (\<lambda>_.
     setupAll mgr [Start])))))"

lemma asked_simps [simp]:
  "asked (IndexField kind field) = Manager (''index '' @ field)" "asked SetupFortigateFirewall = Manager ''fortigatefirewall''"
  "asked SetupFortigateConfig = Manager ''fortigateconfig''" "asked SetupFortigateUpdate = Manager ''fortigateupdate''"
  "asked SetupFortigateUpdatePath = Manager ''fortigateupdatepath''" "asked SetupFortigateBackup = Manager ''fortigatebackup''"
  "asked SetupFirewall = Manager ''firewall''" "asked (AddHealthzCheck name) = Manager name"
  "asked (AddReadyzCheck name) = Manager name" "asked Start = Manager ''Start''"
  "asked SetupFortigateBackupWebhookWithManager = Manager ''FortigateBackup webhook''"
  by (simp_all add: asked_def SetupFortigateFirewall_def SetupFortigateConfig_def SetupFortigateUpdate_def
      SetupFortigateUpdatePath_def SetupFortigateBackup_def SetupFirewall_def SetupFortigateBackupWebhookWithManager_def)

lemma quiet_setupAll: "(\<And>x. x \<in> set xs \<Longrightarrow> \<not> P (asked x)) \<Longrightarrow> quiet P (setupAll mgr xs)"
  by (induction xs) (auto intro!: quiet_intros simp: quiet_ask simp del: op_simps)

lemma quiet_webhooks: "\<not> P (asked SetupFortigateBackupWebhookWithManager) \<Longrightarrow> quiet P (webhooks mgr)"
proof (rule quietI)
  fix w
  assume "\<not> P (asked SetupFortigateBackupWebhookWithManager)"
  then have q: "quiet P (setupAll mgr [SetupFortigateBackupWebhookWithManager])" by (intro quiet_setupAll) simp
  show "\<exists>cs. w_log (snd (webhooks mgr w)) = w_log w @ cs \<and> (\<forall>c \<in> set cs. \<not> P c)"
    using quietE [OF q, of w] by (simp add: webhooks_def del: setupAll.simps)
qed

lemma quiet_startup:
  assumes "\<not> P (KList ''ConfigMap'')"
  shows "quiet P (startup re dec decCfg parse listed)"
proof -
  have r: "quiet P (startRules re dec parse listed)"
  proof (rule quietI)
    fix w :: world
    let ?m = "andThen (liftRes (parse (rulesLabelSelectorStr w))) (\<lambda>sel.
       andThen (ask (KList ''ConfigMap'') (\<lambda>h. Inr (listed h ''default'' sel))) (\<lambda>items.
       onReg (LoadOperatorRulesFromConfigMaps re dec items)))"
    have "quiet P ?m" by (auto intro!: quiet_intros simp: quiet_ask assms simp del: op_simps)
    from quietE [OF this, of w] show "\<exists>cs. w_log (snd (startRules re dec parse listed w)) = w_log w @ cs \<and>
      (\<forall>c \<in> set cs. \<not> P c)" unfolding startRules_def .
  qed
  have c: "quiet P (startConfig decCfg)"
  proof (rule quietI)
    fix w :: world
    let ?m = "andThen (onFs (LoadOperatorConfigFromFile decCfg (operatorConfigPath w))) (\<lambda>opCfg.
       onReg (\<lambda>g. (Inr (), SetOperatorConfig opCfg g)))"
    have "quiet P ?m" by (intro quiet_intros)
    from quietE [OF this, of w] show "\<exists>cs. w_log (snd (startConfig decCfg w)) = w_log w @ cs \<and>
      (\<forall>c \<in> set cs. \<not> P c)" unfolding startConfig_def .
  qed
  show ?thesis unfolding startup_def by (intro quiet_andThen r c)
qed

lemma startup_log:
  assumes "startup re dec decCfg parse listed w = (Inr (), w')"
  shows "w_log w' = w_log w @ [KList ''ConfigMap''] \<and> w_environ w' = w_environ w"
  using assms
  by (auto simp: startup_def startRules_def startConfig_def andThen_ok ask_def onReg_ok onFs_ok)

text \<open>
  The requests \<open>xs\<close> were made one after the other from the log \<open>h\<close>, and each was answered without
  error.
\<close>

definition all_set_up :: "manager_api \<Rightarrow> call list \<Rightarrow> request list \<Rightarrow> bool" where
  "all_set_up mgr h xs = (\<forall>i < length xs. m_do mgr (h @ map asked (take i xs)) (xs ! i) = Inr ())"

lemma all_set_up_Cons:
  "all_set_up mgr h (x # xs) \<longleftrightarrow> m_do mgr h x = Inr () \<and> all_set_up mgr (h @ [asked x]) xs"
  by (auto simp: all_set_up_def less_Suc_eq_0_disj)

lemma all_set_up_append:
  "all_set_up mgr h (xs @ ys) \<longleftrightarrow> all_set_up mgr h xs \<and> all_set_up mgr (h @ map asked xs) ys"
  by (induction xs arbitrary: h) (simp_all add: all_set_up_Cons, simp add: all_set_up_def)

lemma setupAll_ok:
  "setupAll mgr xs w = (Inr (), w') \<longleftrightarrow>
     all_set_up mgr (w_log w) xs \<and> w' = w\<lparr>w_log := w_log w @ map asked xs\<rparr>"
  by (induction xs arbitrary: w)
    (auto simp: andThen_ok ask_def all_set_up_Cons, auto simp: all_set_up_def)

text \<open>What is registered with the manager, in order.\<close>

definition hooks :: "world \<Rightarrow> request list" where
  "hooks w = (if Getenv ''ENABLE_WEBHOOKS'' w \<noteq> ''false'' then [SetupFortigateBackupWebhookWithManager] else [])"

definition registrations :: "world \<Rightarrow> request list" where
  "registrations w =
     [IndexField ''FortigateUpdatePath'' ''spec.model'', SetupFortigateFirewall, SetupFortigateConfig,
      SetupFortigateUpdate, SetupFortigateUpdatePath, SetupFortigateBackup] @ hooks w @
     [SetupFirewall, AddHealthzCheck ''healthz'', AddReadyzCheck ''readyz'']"

lemma webhooks_ok:
  "webhooks mgr w = (Inr (), w') \<longleftrightarrow>
     all_set_up mgr (w_log w) (hooks w) \<and> w' = w\<lparr>w_log := w_log w @ map asked (hooks w)\<rparr>"
proof (cases "Getenv ''ENABLE_WEBHOOKS'' w = ''false''")
  case True
  then have "hooks w = []" "webhooks mgr w = (Inr (), w)" by (simp_all add: hooks_def webhooks_def)
  then show ?thesis by (auto simp: all_set_up_def)
next
  case False
  then have "hooks w = [SetupFortigateBackupWebhookWithManager]" "webhooks mgr w = setupAll mgr (hooks w) w"
    unfolding hooks_def webhooks_def by simp_all
  then show ?thesis by (simp only: setupAll_ok)
qed

section \<open>The package variables over time\<close>

text \<open>One call of an exported function that changes a package variable, whatever its outcome.\<close>

inductive package_step :: "registry \<Rightarrow> registry \<Rightarrow> bool" where
  register: "RegisterOperatorRule name h g = (r, g') \<Longrightarrow> package_step g g'"
| common: "package_step g (SetCommonConfig c g)"
| config: "package_step g (SetOperatorConfig cfg g)"

inductive_cases package_stepE: "package_step g g'"

text \<open>The loaders are sequences of such calls.\<close>

lemma registerAll_steps: "registerAll re ncs g = (r, g') \<Longrightarrow> rtranclp package_step g g'"
proof (induction ncs arbitrary: g)
  case Nil
  then show ?case by simp
next
  case (Cons nc ncs)
  obtain r1 g1 where reg: "RegisterOperatorRule (fst nc) (applyConfigDrivenRule re (snd nc)) g = (r1, g1)"
    by (cases "RegisterOperatorRule (fst nc) (applyConfigDrivenRule re (snd nc)) g")
  have step: "package_step g g1" by (rule package_step.register [OF reg])
  show ?case
  proof (cases r1)
    case (Inl e)
    with reg Cons.prems step show ?thesis by (auto simp: andThen_Inl)
  next
    case (Inr u)
    with reg Cons.prems have "registerAll re ncs g1 = (r, g')" by (simp add: andThen_Inr)
    from Cons.IH [OF this] step show ?thesis by (rule converse_rtranclp_into_rtranclp [rotated])
  qed
qed

lemma applyRulesFile_steps: "applyRulesFile re rf g = (r, g') \<Longrightarrow> rtranclp package_step g g'"
  unfolding applyRulesFile_def
  by (rule converse_rtranclp_into_rtranclp [OF package_step.common registerAll_steps])

lemma LoadOperatorRulesFromConfigMaps_steps:
  "LoadOperatorRulesFromConfigMaps re dec listed g = (r, g') \<Longrightarrow> rtranclp package_step g g'"
  by (auto simp: LoadOperatorRulesFromConfigMaps_def andThen_def wrapErr_def
      split: sum.splits dest: applyRulesFile_steps)

lemma LoadOperatorRulesFromBytes_steps:
  "LoadOperatorRulesFromBytes re dec data g = (r, g') \<Longrightarrow> rtranclp package_step g g'"
  by (auto simp: LoadOperatorRulesFromBytes_def andThen_def wrapErr_def
      split: sum.splits dest: applyRulesFile_steps)

lemma package_step_inv:
  assumes "package_step g g'" and "registry_ok g \<and> activeCommonMappings g \<noteq> []"
  shows "registry_ok g' \<and> activeCommonMappings g' \<noteq> [] \<and>
    (lookupOperatorRule g n = Some h \<longrightarrow> lookupOperatorRule g' n = Some h)"
  using assms(1)
proof (rule package_stepE)
  fix name k r
  assume run: "RegisterOperatorRule name k g = (r, g')"
  have "registry_ok g'" using RegisterOperatorRule_inv [OF run] assms(2) by simp
  moreover have "activeCommonMappings g' = activeCommonMappings g \<and>
      (lookupOperatorRule g n = Some h \<longrightarrow> lookupOperatorRule g' n = Some h)"
  proof (cases r)
    case (Inl e)
    with run show ?thesis by (auto simp: RegisterOperatorRule_panic)
  next
    case (Inr u)
    with run show ?thesis by (auto simp: RegisterOperatorRule_ok lookupOperatorRule_def map_add_def)
  qed
  ultimately show ?thesis using assms(2) by simp
qed (use assms(2) in \<open>auto simp: SetCommonConfig_def SetOperatorConfig_def registry_ok_def
       lookupOperatorRule_def defaultCommonMappings_def\<close>)

lemma package_steps_inv:
  assumes "rtranclp package_step g g'" and "registry_ok g \<and> activeCommonMappings g \<noteq> []"
  shows "registry_ok g' \<and> activeCommonMappings g' \<noteq> [] \<and>
    (lookupOperatorRule g n = Some h \<longrightarrow> lookupOperatorRule g' n = Some h)"
  using assms by (induction rule: rtranclp_induct) (use package_step_inv in blast)+

lemma initialRegistry_ok: "registry_ok initialRegistry \<and> activeCommonMappings initialRegistry \<noteq> []"
  by (simp add: initialRegistry_def registry_ok_def defaultCommonMappings_def)

end
