(* ===== verification/Loading_Properties.thy ===== *)
theory Loading_Properties
  imports Startup Examples Numbers Schedule
begin

text \<open>
  Properties of what the operator accepts and loads: the values of a resource, the rule files and
  their merge, the package variables over time, the start of the process, and the backup schedules
  of the webhook.
\<close>

section \<open>Values\<close>

text \<open>C16: validation is exact. \<open>validateFields\<close> accepts exactly when every rule whose placeholder is
  mapped finds an acceptable value at the mapped path, \<open>validateEngineLists\<close> exactly when every
  listed path that exists is a list whose objects are acceptable, field by field. The label under
  which problems are reported has no influence.\<close>

theorem validation_exact:
  "(validateFields re rules mappings cfgName m sfx = Inr () \<longleftrightarrow>
      list_all (\<lambda>(tag, rule). case map_of mappings tag of
          None \<Rightarrow> True
        | Some path \<Rightarrow> field_ok re cfgName m path rule) rules) \<and>
   (validateEngineLists re lvs cfgName m = Inr () \<longleftrightarrow>
      list_all (\<lambda>(lp, rules). case lookupRawPath m lp of
          None \<Rightarrow> True
        | Some (JArr items) \<Rightarrow> list_all (item_ok re cfgName rules) items
        | Some v \<Rightarrow> False) lvs)"
proof -
  have "(\<forall>path. map_of mappings t = Some path \<longrightarrow> field_ok re cfgName m path r) \<longleftrightarrow>
      (case map_of mappings t of None \<Rightarrow> True | Some path \<Rightarrow> field_ok re cfgName m path r)" for t r
    by (cases "map_of mappings t") simp_all
  moreover have "(\<forall>v. lookupRawPath m lp = Some v \<longrightarrow>
        (\<exists>items. v = JArr items \<and> list_all (item_ok re cfgName rs) items)) \<longleftrightarrow>
      (case lookupRawPath m lp of None \<Rightarrow> True
        | Some (JArr items) \<Rightarrow> list_all (item_ok re cfgName rs) items | Some v \<Rightarrow> False)" for lp rs
    by (simp split: option.split json.split)
  ultimately show ?thesis unfolding validateFields_ok validateEngineLists_ok list_all_iff by simp
qed

text \<open>C38: integers survive the way from a resource to the \<open>int\<close> check below a million only. The
  JSON number is a float, printed with \<open>%v\<close> and read back with \<open>Atoi\<close>: the text gives the same
  integer for less than 10^6 in absolute value, and from there on the check refuses it.\<close>

theorem integer_check_bound:
  "Atoi (Sprintf_v (num_of_int n)) = (if \<bar>n\<bar> < 10 ^ 6 then Some n else None) \<and>
   (checkFormat (Sprintf_v (num_of_int n)) (rule\<lparr>fv_Type := ''int''\<rparr>) = Inr () \<longleftrightarrow> \<bar>n\<bar> < 10 ^ 6)"
proof -
  have a: "Atoi (Sprintf_v (num_of_int n)) = (if \<bar>n\<bar> < 10 ^ 6 then Some n else None)"
    using Sprintf_small [of n] Sprintf_large [of n] Atoi_decimal [of n] by (auto simp: not_less)
  then show ?thesis by (simp add: checkFormat_ok format_ok_def)
qed

lemma ipv4_first_separator:
  assumes "is_ipv4 s"
  shows "addr_bits s = Some 32"
proof -
  obtain os where os: "length os = 4" "list_all (\<lambda>n. n \<le> 255) os" "s = quad os"
    using assms is_ipv4_iff by blast
  then show ?thesis using addr_bits_quad [of os] by simp
qed

lemma addr_bits_no_colon: "CHR '':'' \<notin> set s \<Longrightarrow> addr_bits s = (if is_ipv4 s then Some 32 else None)"
proof (cases "is_ipv4 s")
  case True
  then show ?thesis by (simp add: ipv4_first_separator)
next
  case False
  assume nc: "CHR '':'' \<notin> set s"
  let ?P = "\<lambda>c. c \<noteq> CHR ''.'' \<and> c \<noteq> CHR '':'' \<and> c \<noteq> CHR ''%''"
  show ?thesis
  proof (cases "dropWhile ?P s")
    case Nil
    then have "addr_bits s = None" unfolding addr_bits_def by (simp only: list.case)
    with False show ?thesis by simp
  next
    case (Cons c r)
    then have "c \<in> set s" by (metis list.set_intros(1) set_dropWhileD)
    with nc have "c \<noteq> CHR '':''" by auto
    with Cons False show ?thesis by (simp add: addr_bits_def)
  qed
qed

lemma Index_quad: "Index (quad os @ ''/'' @ plen) ''/'' = Some (length (quad os))"
proof -
  have q: "CHR ''/'' \<notin> set (quad os)" using digits_quad [of "CHR ''/''" os] by (auto simp: is_digit_def)
  have "Index (t @ ''/'' @ r) ''/'' = Some (length t)" if "CHR ''/'' \<notin> set t" for t r
    using that by (induction t) auto
  from this [OF q] show ?thesis .
qed

text \<open>C39: what the \<open>ip\<close> and \<open>cidr\<close> checks accept among the texts without a colon, that is of IPv4
  addresses: exactly the four decimal octets up to 255 without leading zeros, and those followed by a
  slash and a prefix length up to 32. Of the texts with a colon, which the checks accept when they are
  IPv6 addresses (with a prefix length up to 128), nothing is said.\<close>

theorem address_checks:
  assumes "CHR '':'' \<notin> set s"
  shows "(checkFormat s (rule\<lparr>fv_Type := ''ip''\<rparr>) = Inr () \<longleftrightarrow>
      (\<exists>os. length os = 4 \<and> list_all (\<lambda>n. n \<le> 255) os \<and> s = quad os)) \<and>
    (checkFormat s (rule\<lparr>fv_Type := ''cidr''\<rparr>) = Inr () \<longleftrightarrow>
      (\<exists>os plen. length os = 4 \<and> list_all (\<lambda>n. n \<le> 255) os \<and> s = quad os @ ''/'' @ plen \<and>
         plen \<noteq> [] \<and> list_all is_digit plen \<and> dec_val plen \<le> 32))"
proof -
  have cidr: "ParseCIDR s \<longleftrightarrow> (\<exists>os plen. length os = 4 \<and> list_all (\<lambda>n. n \<le> 255) os \<and>
      s = quad os @ ''/'' @ plen \<and> plen \<noteq> [] \<and> list_all is_digit plen \<and> dec_val plen \<le> 32)"
  proof
    assume c: "ParseCIDR s"
    then obtain i where i: "Index s ''/'' = Some i" by (auto simp: ParseCIDR_def split: option.splits)
    then have s: "s = take i s @ ''/'' @ drop (i + 1) s" using Index_Some_split [OF i] by simp
    have "CHR '':'' \<notin> set (take i s)" using assms set_take_subset [of i s] by blast
    from addr_bits_no_colon [OF this] c i have "is_ipv4 (take i s)"
      and m: "drop (i + 1) s \<noteq> []" "list_all is_digit (drop (i + 1) s)" "dec_val (drop (i + 1) s) \<le> 32"
      by (auto simp: ParseCIDR_def Let_def split: if_splits)
    then obtain os where "length os = 4" "list_all (\<lambda>n. n \<le> 255) os" "take i s = quad os"
      using is_ipv4_iff by blast
    with s m show "\<exists>os plen. length os = 4 \<and> list_all (\<lambda>n. n \<le> 255) os \<and> s = quad os @ ''/'' @ plen \<and>
        plen \<noteq> [] \<and> list_all is_digit plen \<and> dec_val plen \<le> 32" by metis
  next
    assume "\<exists>os plen. length os = 4 \<and> list_all (\<lambda>n. n \<le> 255) os \<and> s = quad os @ ''/'' @ plen \<and>
        plen \<noteq> [] \<and> list_all is_digit plen \<and> dec_val plen \<le> 32"
    then obtain os plen where os: "length os = 4" "list_all (\<lambda>n. n \<le> 255) os"
      and s: "s = quad os @ ''/'' @ plen" and m: "plen \<noteq> []" "list_all is_digit plen" "dec_val plen \<le> 32"
      by blast
    show "ParseCIDR s"
      unfolding s ParseCIDR_def Index_quad using os m addr_bits_quad [OF os(1)] by simp
  qed
  have ip: "ParseIP s \<longleftrightarrow> is_ipv4 s" using addr_bits_no_colon [OF assms] by (simp add: ParseIP_def)
  show ?thesis using cidr ip is_ipv4_iff [of s] by (simp add: checkFormat_ok format_ok_def)
qed

definition demo_int :: FieldValidation where
  "demo_int = \<lparr>fv_Required = True, fv_Type = ''int'', fv_Enum = [], fv_Pattern = []\<rparr>"

theorem address_checks_witness:
  "checkFormat ''10.0.0.1/24'' (demo_int\<lparr>fv_Type := ''cidr''\<rparr>) = Inr ()"
proof -
  have "CHR '':'' \<notin> set ''10.0.0.1/24''" by code_simp
  from address_checks [OF this, of demo_int] show ?thesis
  proof (elim conjE iffD2)
    have "length [10, 0, 0, 1 :: nat] = 4 \<and> list_all (\<lambda>n. n \<le> 255) [10, 0, 0, 1 :: nat] \<and>
        ''10.0.0.1/24'' = quad [10, 0, 0, 1] @ ''/'' @ ''24'' \<and>
        ''24'' \<noteq> [] \<and> list_all is_digit ''24'' \<and> dec_val ''24'' \<le> 32" by code_simp
    then show "\<exists>os plen. length os = 4 \<and> list_all (\<lambda>n. n \<le> 255) os \<and>
        ''10.0.0.1/24'' = quad os @ ''/'' @ plen \<and>
        plen \<noteq> [] \<and> list_all is_digit plen \<and> dec_val plen \<le> 32" by (intro exI)
  qed
qed

section \<open>Rule files\<close>

text \<open>C21: what a merge accepts and gives. The merge of rule ConfigMaps succeeds exactly when every
  source with rules can be decoded, no rule name occurs twice anywhere, and at most one source has
  common mappings; the result has all the rules of all sources and that one common section.\<close>

theorem merge_exact:
  "mergeConfigMapRuleSources dec srcs = Inr rf \<longleftrightarrow>
     (\<exists>ips. source_parts dec srcs = Some ips \<and> distinct (map fst (all_rules ips)) \<and>
        rf_Rules rf = all_rules ips \<and>
        (if commons ips = [] then rf_Common rf = \<lparr>cm_Mappings = []\<rparr> else commons ips = [rf_Common rf]))"
  using mergeConfigMapRuleSources_ok by (simp only: wf_map_def)

text \<open>C34: the order in which the API lists the ConfigMaps does not matter. Sources in another order
  are accepted or refused alike, and when accepted give every rule name the same rule and the same
  common mappings.\<close>

theorem merge_order_irrelevant:
  assumes "mset srcs = mset srcs'"
  shows "map_sum (\<lambda>e. ()) (\<lambda>rf. (map_of (rf_Rules rf), rf_Common rf)) (mergeConfigMapRuleSources dec srcs) =
    map_sum (\<lambda>e. ()) (\<lambda>rf. (map_of (rf_Rules rf), rf_Common rf)) (mergeConfigMapRuleSources dec srcs')"
proof (cases "mergeConfigMapRuleSources dec srcs")
  case (Inr rf)
  from mergeConfigMapRuleSources_perm [OF assms this] Inr show ?thesis by auto
next
  case (Inl e)
  show ?thesis
  proof (cases "mergeConfigMapRuleSources dec srcs'")
    case (Inr rf)
    from mergeConfigMapRuleSources_perm [OF assms [symmetric] this] Inl show ?thesis by auto
  next
    case (Inl e')
    with \<open>mergeConfigMapRuleSources dec srcs = Inl e\<close> show ?thesis by simp
  qed
qed

definition demo_dec :: "string \<Rightarrow> RulesFile res" where
  "demo_dec t =
     (if t = ''vip'' then Inr \<lparr>rf_Common = \<lparr>cm_Mappings = []\<rparr>, rf_Rules = [(''vip'', demo_rule)]\<rparr>
      else if t = ''nat'' then
        Inr \<lparr>rf_Common = \<lparr>cm_Mappings = [(''IP'', ''fortiIP'')]\<rparr>, rf_Rules = [(''nat'', demo_rule)]\<rparr>
      else Inl (Sentinel ''json''))"

definition demo_source :: "string \<Rightarrow> configMapRuleSource" where
  "demo_source n = \<lparr>cs_Namespace = ''default'', cs_Name = n, cs_Data = [(ruleJSONKey, n)]\<rparr>"

theorem merge_order_irrelevant_witness:
  "map_sum (\<lambda>e. ()) (\<lambda>rf. (map_of (rf_Rules rf), rf_Common rf))
     (mergeConfigMapRuleSources demo_dec [demo_source ''nat'', demo_source ''vip'']) =
   Inr ([''vip'' \<mapsto> demo_rule, ''nat'' \<mapsto> demo_rule], \<lparr>cm_Mappings = [(''IP'', ''fortiIP'')]\<rparr>)"
proof -
  have p: "mset [demo_source ''nat'', demo_source ''vip''] = mset [demo_source ''vip'', demo_source ''nat'']" by simp
  have "mergeConfigMapRuleSources demo_dec [demo_source ''vip'', demo_source ''nat''] =
      Inr \<lparr>rf_Common = \<lparr>cm_Mappings = [(''IP'', ''fortiIP'')]\<rparr>,
           rf_Rules = [(''vip'', demo_rule), (''nat'', demo_rule)]\<rparr>" by code_simp
  then show ?thesis unfolding merge_order_irrelevant [OF p] by (simp add: fun_upd_twist)
qed

text \<open>C20: the package variables at any time. Whatever sequence of registrations, loads and changes
  of configuration has happened since the start, failed ones included, no rule name is registered
  twice, no rule has an empty name, there are common mappings, and a rule once registered is never
  replaced or lost.\<close>

theorem package_variables_invariant:
  assumes "rtranclp package_step initialRegistry g" and "rtranclp package_step g g'"
  shows "registry_ok g' \<and> CurrentCommonMappings g' \<noteq> [] \<and> lookupOperatorRule g \<subseteq>\<^sub>m lookupOperatorRule g'"
proof -
  have g: "registry_ok g \<and> activeCommonMappings g \<noteq> []"
    using package_steps_inv [OF assms(1) initialRegistry_ok] by blast
  show ?thesis
    using package_steps_inv [OF assms(2) g]
    by (auto simp: CurrentCommonMappings_def map_le_def dom_def)
qed

theorem package_variables_invariant_witness:
  "lookupOperatorRule (snd (RegisterOperatorRule ''vip'' (applyConfigDrivenRule demo_re demo_rule) initialRegistry))
     \<subseteq>\<^sub>m lookupOperatorRule (SetCommonConfig \<lparr>cm_Mappings = []\<rparr>
       (snd (RegisterOperatorRule ''vip'' (applyConfigDrivenRule demo_re demo_rule) initialRegistry)))"
proof -
  let ?g = "snd (RegisterOperatorRule ''vip'' (applyConfigDrivenRule demo_re demo_rule) initialRegistry)"
  have "package_step initialRegistry ?g"
    by (rule package_step.register [of _ _ _ "fst (RegisterOperatorRule ''vip'' (applyConfigDrivenRule demo_re demo_rule) initialRegistry)"]) simp
  moreover have "package_step ?g (SetCommonConfig \<lparr>cm_Mappings = []\<rparr> ?g)" by (rule package_step.common)
  ultimately show ?thesis using package_variables_invariant by blast
qed

text \<open>C37: rules cannot be loaded again. Once a rule file has been applied, applying any file that
  has one of its rule names panics, after it has already replaced the common mappings.\<close>

theorem reload_panics:
  assumes "applyRulesFile re rf g = (Inr (), g1)"
    and "name \<in> fst ` set (rf_Rules rf)" and "name \<in> fst ` set (rf_Rules rf')"
  shows "\<exists>m g2. applyRulesFile re rf' g1 = (Inl (Panic m), g2) \<and>
    CurrentCommonMappings g2 = CurrentCommonMappings (SetCommonConfig (rf_Common rf') g1)"
proof -
  have reg: "operatorRuleRegistry g1 = operatorRuleRegistry g @
      map (\<lambda>(n, rc). (n, applyConfigDrivenRule re rc)) (rf_Rules rf)"
    using assms(1) by (simp add: applyRulesFile_ok)
  have "name \<in> fst ` set (operatorRuleRegistry g1)"
    using assms(2) unfolding reg by force
  then have "\<not> (\<exists>g2. applyRulesFile re rf' g1 = (Inr (), g2))"
    using assms(3) by (auto simp: applyRulesFile_ok)
  then obtain e g2 where run: "applyRulesFile re rf' g1 = (Inl e, g2)"
    by (metis old.unit.exhaust prod.exhaust sum.exhaust)
  have common: "activeCommonMappings g' = activeCommonMappings h" if "registerAll re ncs h = (r, g')" for ncs h r g'
    using that
    by (induction ncs arbitrary: h)
      (auto simp: andThen_def RegisterOperatorRule_def split: sum.splits if_splits prod.splits)
  from run obtain m where "e = Panic m" using applyRulesFile_panics by blast
  with run common [of "rf_Rules rf'" "SetCommonConfig (rf_Common rf') g1"] show ?thesis
    by (auto simp: applyRulesFile_def CurrentCommonMappings_def)
qed

theorem reload_panics_witness:
  "\<exists>m g2. applyRulesFile demo_re (projr (demo_dec ''vip''))
     (snd (applyRulesFile demo_re (projr (demo_dec ''vip'')) initialRegistry)) = (Inl (Panic m), g2)"
proof -
  let ?rf = "projr (demo_dec ''vip'')"
  let ?g1 = "snd (applyRulesFile demo_re ?rf initialRegistry)"
  have rf: "?rf = \<lparr>rf_Common = \<lparr>cm_Mappings = []\<rparr>, rf_Rules = [(''vip'', demo_rule)]\<rparr>"
    by (simp add: demo_dec_def)
  have "\<exists>g1. applyRulesFile demo_re ?rf initialRegistry = (Inr (), g1)"
    unfolding applyRulesFile_ok rf by (simp add: wf_map_def initialRegistry_def)
  then have "applyRulesFile demo_re ?rf initialRegistry = (Inr (), ?g1)" by auto
  from reload_panics [OF this, of "''vip''" ?rf] show ?thesis unfolding rf by auto
qed

text \<open>C28: what the manager starts from. If \<open>main\<close> gets as far as starting the controller manager, then
  the label selector was valid, the ConfigMaps in the default namespace could be listed and merged
  and the configuration file read, and the calls made are exactly: the new manager, one list call,
  the field index, the controllers, with the webhook unless it is switched off, the health checks,
  each answered without error, and the start. The registered rules are then those of the merge, each
  as a configuration-driven rule, the common mappings those of the merge or else the default ones,
  the configuration the file's over the defaults, and no file has changed.\<close>

theorem manager_started:
  assumes "Manager ''Start'' \<in> set (made (main_process mgr re dec decCfg parse listed fl) w)"
    and "w_reg w = initialRegistry"
  shows "\<exists>sel srcs rf data cfg w'. snd (main_process mgr re dec decCfg parse listed fl w) = w' \<and>
    m_new mgr (w_log w) (manager_options fl) = Inr () \<and>
    parse (rulesLabelSelectorStr w) = Inr sel \<and>
    listed (w_log w @ [Manager ''NewManager'']) ''default'' sel = Inr srcs \<and>
    mergeConfigMapRuleSources dec srcs = Inr rf \<and>
    content_at (w_fs w) (operatorConfigPath w) = Some data \<and> decCfg data DefaultOperatorConfig = Inr cfg \<and>
    all_set_up mgr (w_log w @ [Manager ''NewManager'', KList ''ConfigMap'']) (registrations w) \<and>
    w_log w' = w_log w @ [Manager ''NewManager'', KList ''ConfigMap''] @ map asked (registrations w) @
      [Manager ''Start''] \<and>
    (\<forall>name. lookupOperatorRule (w_reg w') name =
       map_option (applyConfigDrivenRule re) (map_of (rf_Rules rf) name)) \<and>
    CurrentCommonMappings (w_reg w') =
      (if cm_Mappings (rf_Common rf) = [] then defaultCommonMappings else cm_Mappings (rf_Common rf)) \<and>
    CurrentOperatorConfig (w_reg w') = cfg \<and> w_fs w' = w_fs w"
proof -
  let ?P = "\<lambda>c. c = Manager ''Start''" and ?c = "Manager ''Start''"
  let ?xs = "[IndexField ''FortigateUpdatePath'' ''spec.model'', SetupFortigateFirewall, SetupFortigateConfig,
        SetupFortigateUpdate, SetupFortigateUpdatePath, SetupFortigateBackup]"
  let ?ys = "[SetupFirewall, AddHealthzCheck ''healthz'', AddReadyzCheck ''readyz'']"
  let ?s = "setupAll mgr [Start]"
  let ?k3 = "andThen (setupAll mgr ?ys) (\<lambda>_. ?s)"
  let ?k2 = "andThen (webhooks mgr) (\<lambda>_. ?k3)"
  let ?k1 = "andThen (setupAll mgr ?xs) (\<lambda>_. ?k2)"
  let ?k0 = "andThen (startup re dec decCfg parse listed) (\<lambda>_. ?k1)"
  have ls: "quiet (\<lambda>_. False) ?s" by (rule quiet_setupAll) simp
  have l3: "quiet (\<lambda>_. False) ?k3" by (intro quiet_andThen quiet_setupAll ls) simp
  have l2: "quiet (\<lambda>_. False) ?k2" by (intro quiet_andThen quiet_webhooks l3) simp
  have l1: "quiet (\<lambda>_. False) ?k1" by (intro quiet_andThen quiet_setupAll l2) simp
  have l0: "quiet (\<lambda>_. False) ?k0" by (intro quiet_andThen quiet_startup l1) simp
  have qx: "quiet ?P (setupAll mgr ?xs)" "quiet ?P (setupAll mgr ?ys)" by (rule quiet_setupAll; auto)+
  have qw: "quiet ?P (webhooks mgr)" by (rule quiet_webhooks) simp
  have qs: "quiet ?P (startup re dec decCfg parse listed)" by (rule quiet_startup) simp
  have main: "main_process mgr re dec decCfg parse listed fl =
      andThen (ask (Manager ''NewManager'') (\<lambda>h. m_new mgr h (manager_options fl))) (\<lambda>_. ?k0)"
    unfolding main_process_def by (rule refl)
  obtain w0 where 0: "m_new mgr (w_log w) (manager_options fl) = Inr ()"
    "w0 = w\<lparr>w_log := w_log w @ [Manager ''NewManager'']\<rparr>" and c0: "?c \<in> set (made ?k0 w0)"
    by (rule call_after [where P = ?P, OF assms(1) [unfolded main] _ _ logsI [OF l0]])
      (auto simp: quiet_ask ask_def)
  obtain w1 where 1: "startup re dec decCfg parse listed w0 = (Inr (), w1)" and c1: "?c \<in> set (made ?k1 w1)"
    by (rule call_after [where P = ?P, OF c0 refl qs logsI [OF l1]]) auto
  obtain w2 where 2: "setupAll mgr ?xs w1 = (Inr (), w2)" and c2: "?c \<in> set (made ?k2 w2)"
    by (rule call_after [where P = ?P, OF c1 refl qx(1) logsI [OF l2]]) auto
  obtain w3 where 3: "webhooks mgr w2 = (Inr (), w3)" and c3: "?c \<in> set (made ?k3 w3)"
    by (rule call_after [where P = ?P, OF c2 refl qw logsI [OF l3]]) auto
  obtain w4 where 4: "setupAll mgr ?ys w3 = (Inr (), w4)"
    by (rule call_after [where P = ?P, OF c3 refl qx(2) logsI [OF ls]]) auto
  have w2: "all_set_up mgr (w_log w1) ?xs" "w2 = w1\<lparr>w_log := w_log w1 @ map asked ?xs\<rparr>"
    using 2 unfolding setupAll_ok by blast+
  have w3: "all_set_up mgr (w_log w2) (hooks w2)" "w3 = w2\<lparr>w_log := w_log w2 @ map asked (hooks w2)\<rparr>"
    using 3 unfolding webhooks_ok by blast+
  have w4: "all_set_up mgr (w_log w3) ?ys" "w4 = w3\<lparr>w_log := w_log w3 @ map asked ?ys\<rparr>"
    using 4 unfolding setupAll_ok by blast+
  have log1: "w_log w1 = w_log w @ [Manager ''NewManager'', KList ''ConfigMap'']" "w_environ w1 = w_environ w"
    using startup_log [OF 1] 0(2) by simp_all
  have hk: "hooks w2 = hooks w" using w2(2) log1(2) by (simp add: hooks_def Getenv_def)
  have log2: "w_log w2 = w_log w1 @ map asked ?xs" and log3: "w_log w3 = w_log w2 @ map asked (hooks w)"
    and log4: "w_log w4 = w_log w3 @ map asked ?ys"
    using w2(2) w3(2) w4(2) hk by simp_all
  have set: "all_set_up mgr (w_log w1) (registrations w)"
    unfolding registrations_def all_set_up_append
    using w2(1) w3(1) w4(1) unfolding log2 log3 hk by simp
  have log: "w_log w4 = w_log w @ [Manager ''NewManager'', KList ''ConfigMap''] @ map asked (registrations w)"
    unfolding log4 log3 log2 log1 registrations_def by simp
  have same: "w_reg w4 = w_reg w1" "w_fs w4 = w_fs w1" using w2(2) w3(2) w4(2) by simp_all
  have run: "main_process mgr re dec decCfg parse listed fl w = ?s w4"
    unfolding main by (simp add: andThen_def ask_def 0(1) 0(2) [symmetric] 1 2 3 4 del: setupAll.simps)
  have fin: "snd (?s w4) = w4\<lparr>w_log := w_log w4 @ [Manager ''Start'']\<rparr>"
    by (simp add: andThen_def ask_def split: sum.splits)
  have start: "rulesLabelSelectorStr w0 = rulesLabelSelectorStr w" "operatorConfigPath w0 = operatorConfigPath w"
    "w_fs w0 = w_fs w" "w_log w0 = w_log w @ [Manager ''NewManager'']" "w_reg w0 = initialRegistry"
    using 0(2) assms(2) by (simp_all add: rulesLabelSelectorStr_def operatorConfigPath_def env_or_def Getenv_def)
  have l: "map_of (map (\<lambda>(n, rc). (n, applyConfigDrivenRule re rc)) xs) name =
      map_option (applyConfigDrivenRule re) (map_of xs name)" for xs name
    by (induction xs) auto
  show ?thesis unfolding run fin
    by (rule startup_ok [OF 1 start(5)])
      (auto simp: start lookupOperatorRule_def CurrentCommonMappings_def CurrentOperatorConfig_def l
        same 0(1) set [unfolded log1] log
        split del: if_split)
qed

definition demo_config_fs :: fs where
  "demo_config_fs = demo_fs\<lparr>files := [(''/c.json'', \<lparr>f_content = ''{}'', f_perm = 420\<rparr>)]\<rparr>"

definition demo_start :: world where
  "demo_start = \<lparr>w_fs = demo_config_fs, w_environ = [(''FGT_OPERATOR_CONFIG_FILE'', ''/c.json'')],
     w_reg = initialRegistry, w_log = []\<rparr>"

definition demo_manager :: manager_api where
  "demo_manager = \<lparr>m_new = (\<lambda>h o'. Inr ()), m_do = (\<lambda>h what. Inr ())\<rparr>"

theorem manager_started_witness:
  "\<exists>w'. snd (main_process demo_manager demo_re demo_dec (\<lambda>t d. Inr d) (\<lambda>s. Inr s) (\<lambda>h ns sel. Inr [demo_source ''nat''])
         defaultFlags demo_start) = w' \<and>
     Manager ''FortigateBackup webhook'' \<in> set (w_log w') \<and>
     lookupOperatorRule (w_reg w') ''vip'' = None \<and> CurrentOperatorConfig (w_reg w') = DefaultOperatorConfig"
proof -
  let ?r = "main_process demo_manager demo_re demo_dec (\<lambda>t d. Inr d) (\<lambda>s. Inr s) (\<lambda>h ns sel. Inr [demo_source ''nat''])
         defaultFlags"
  have c: "Manager ''Start'' \<in> set (made ?r demo_start)" by code_simp
  have init: "w_reg demo_start = initialRegistry" by (simp add: demo_start_def)
  have m: "mergeConfigMapRuleSources demo_dec [demo_source ''nat''] =
      Inr \<lparr>rf_Common = \<lparr>cm_Mappings = [(''IP'', ''fortiIP'')]\<rparr>, rf_Rules = [(''nat'', demo_rule)]\<rparr>" by code_simp
  have h: "hooks demo_start = [SetupFortigateBackupWebhookWithManager]" by code_simp
  show ?thesis
    using manager_started [OF c init] m by (auto simp: registrations_def h)
qed

section \<open>Backup schedules\<close>

text \<open>C29: what the webhook admits. A \<open>FortigateBackup\<close> is admitted on creation and on update exactly
  when its fields name one schedule of the table (hourly; daily at a time; weekly on a day at a
  time; monthly on a day at a time), and then they name only that one; a deletion is always
  admitted. In particular an hourly schedule with a time is refused. The type and the custom resource
  definition say that the time is ignored then, and give it the default 02:00, which the API server
  fills in before the webhook sees the object: so the code refuses every hourly schedule.\<close>

theorem schedule_exact:
  "(ValidateCreate b = None \<longleftrightarrow> (\<exists>!c. matches c (fb_Spec b))) \<and>
   (ValidateUpdate old b = None \<longleftrightarrow> (\<exists>!c. matches c (fb_Spec b))) \<and>
   ValidateDelete b = None \<and>
   \<not> (fbs_Frequency (fb_Spec b) = ''Hourly'' \<and> fbs_At (fb_Spec b) \<noteq> [] \<and>
     (ValidateCreate b = None \<or> ValidateUpdate old b = None))"
proof -
  have "(\<exists>c. matches c (fb_Spec b)) \<longleftrightarrow> (\<exists>!c. matches c (fb_Spec b))"
    using schedule_unique by blast
  moreover have "fbs_At (fb_Spec b) = []" if "matches c (fb_Spec b)" "fbs_Frequency (fb_Spec b) = ''Hourly''" for c
    using that by (cases c) simp_all
  ultimately show ?thesis
    by (auto simp: ValidateCreate_def ValidateUpdate_def ValidateDelete_def validateFortigateBackup_def
        Let_def Validate_accepts_iff)
qed

end
