(* ===== verification/Tofu_Properties.thy ===== *)
theory Tofu_Properties
  imports Examples
begin

text \<open>
  Properties of a run of OpenTofu for one \<open>FortigateConfig\<close>: what must have happened before a
  command runs, which commands a run makes, what a destroy removes, and the separation of the
  working directories.
\<close>

section \<open>The part of a run after the rule\<close>

definition after_rule :: "external \<Rightarrow> string \<Rightarrow> string \<Rightarrow> string \<Rightarrow> FortigateConfig \<Rightarrow> FortigateFirewall \<Rightarrow>
    s3access \<Rightarrow> string \<Rightarrow> bool \<Rightarrow> OperatorConfig \<Rightarrow> string \<Rightarrow> (world, unit) op" where
  "after_rule ext dir token ip cfg fw acc uuid cu oc tf =
     (if cu then wrapErr (Wrapf ''esecuzione di Terraform fallita'') (execTerraform ext tf cfg fw acc uuid)
      else
        andThen (wrapErr (Wrapf ''cancellazione delle risorse Terraform fallita'')
                   (deleteTerraform ext tf cfg fw acc uuid)) (\<lambda>_.
        wrapErr (Wrapf ''cancellazione della directory S3 fallita'')
          (deleteS3Dir ext (ffs_S3BucketName (ff_Spec fw)) (fwName fw @ ''/'' @ uuid) acc)))"

definition common_file :: "string \<Rightarrow> FortigateFirewall \<Rightarrow> OperatorConfig \<Rightarrow> string" where
  "common_file dir fw oc = dir @ ''/'' @ fwName fw @ ''_'' @ oc_CommonTemplateSuffix oc"

definition state_key :: "FortigateConfig \<Rightarrow> FortigateFirewall \<Rightarrow> string \<Rightarrow> OperatorConfig \<Rightarrow> string" where
  "state_key cfg fw uuid oc =
     fwName fw @ ''/'' @ uuid @ ''/'' @ fcName cfg @ ''/'' @ oc_TerraformStateFileName oc"

definition common_step :: "string \<Rightarrow> string \<Rightarrow> string \<Rightarrow> FortigateConfig \<Rightarrow> FortigateFirewall \<Rightarrow>
    s3access \<Rightarrow> string \<Rightarrow> OperatorConfig \<Rightarrow> (world, modification list) op" where
  "common_step dir token ip cfg fw acc uuid oc =
     wrapErr (Wrapf ''creazione delle modifiche comuni fallita'')
       (tfCommon token ip (ffs_S3BucketName (ff_Spec fw)) (state_key cfg fw uuid oc) (a_s3Url acc)
          (common_file dir fw oc))"

lemma selectOperatorRule_alt:
  "selectOperatorRule ext t dir token ip cfg fw acc uuid cu =
     andThen (applyRule ext t dir cfg fw) (\<lambda>tf.
     andThen (getReg CurrentOperatorConfig) (\<lambda>oc.
     andThen (common_step dir token ip cfg fw acc uuid oc) (\<lambda>_.
     after_rule ext dir token ip cfg fw acc uuid cu oc tf)))"
  unfolding selectOperatorRule_def after_rule_def common_step_def common_file_def state_key_def Let_def
  by (rule refl)

lemma logs_execTerraform: "quiet (\<lambda>_. False) (execTerraform ext tf cfg fw acc uuid)"
  unfolding execTerraform_def
  by (intro quiet_intros quiet_initTerraform quiet_applyTerraform) simp_all

lemma logs_deleteTerraform: "quiet (\<lambda>_. False) (deleteTerraform ext tf cfg fw acc uuid)"
  unfolding deleteTerraform_def
  by (intro quiet_intros quiet_initTerraform) (simp_all add: quiet_tofu)

lemma quiet_deleteS3Dir:
  "(\<And>u i s r. \<not> P (S3Config u i s r)) \<Longrightarrow> \<not> P (S3List b d) \<Longrightarrow> (\<And>ks. \<not> P (S3Delete b ks)) \<Longrightarrow> quiet P (deleteS3Dir ext b d acc)"
  unfolding deleteS3Dir_def createS3Client_def
  by (intro quiet_intros quiet_deletePages) (simp_all add: quiet_ask)

lemma logs_after_rule: "quiet (\<lambda>_. False) (after_rule ext dir token ip cfg fw acc uuid cu oc tf)"
  unfolding after_rule_def
  by (intro quiet_intros logs_execTerraform logs_deleteTerraform quiet_deleteS3Dir) simp_all

lemma quiet_common_step: "quiet P (common_step dir token ip cfg fw acc uuid oc)"
  unfolding common_step_def by (intro quiet_wrapErr quiet_tfCommon)

lemma reached_after_rule:
  assumes c: "c \<in> set (made (selectOperatorRule ext t dir token ip cfg fw acc uuid cu) w)"
    and P: "P c" "\<not> P (LookPath ''tofu'')" "\<not> P (NewTerraform dir)"
  obtains tf w1 mods w2 where "applyRule ext t dir cfg fw w = (Inr tf, w1)"
    "common_step dir token ip cfg fw acc uuid (CurrentOperatorConfig (w_reg w1)) w1 = (Inr mods, w2)"
    "c \<in> set (made (after_rule ext dir token ip cfg fw acc uuid cu (CurrentOperatorConfig (w_reg w1)) tf) w2)"
proof -
  have l3: "logs (andThen (common_step dir token ip cfg fw acc uuid oc)
      (\<lambda>_. after_rule ext dir token ip cfg fw acc uuid cu oc tf))" for oc tf
    by (intro logsI quiet_andThen quiet_common_step logs_after_rule)
  have l2: "logs (andThen (getReg CurrentOperatorConfig) (\<lambda>oc.
      andThen (common_step dir token ip cfg fw acc uuid oc)
      (\<lambda>_. after_rule ext dir token ip cfg fw acc uuid cu oc tf)))" for tf
    by (intro logsI quiet_andThen quiet_basic quiet_common_step logs_after_rule)
  from call_after [where P = P, OF c [unfolded selectOperatorRule_alt] P(1) quiet_applyRule_gen [OF P(2,3)] l2]
  obtain tf w1 where 1: "applyRule ext t dir cfg fw w = (Inr tf, w1)"
    and c1: "c \<in> set (made (andThen (getReg CurrentOperatorConfig) (\<lambda>oc.
      andThen (common_step dir token ip cfg fw acc uuid oc)
      (\<lambda>_. after_rule ext dir token ip cfg fw acc uuid cu oc tf))) w1)" by blast
  let ?oc = "CurrentOperatorConfig (w_reg w1)"
  from c1 have c2: "c \<in> set (made (andThen (common_step dir token ip cfg fw acc uuid ?oc)
      (\<lambda>_. after_rule ext dir token ip cfg fw acc uuid cu ?oc tf)) w1)"
    by (simp add: made_def andThen_def getReg_def)
  from call_after [where P = P, OF c2 P(1) quiet_common_step logsI [OF logs_after_rule]]
  obtain mods w2 where "common_step dir token ip cfg fw acc uuid ?oc w1 = (Inr mods, w2)"
    "c \<in> set (made (after_rule ext dir token ip cfg fw acc uuid cu ?oc tf) w2)" by blast
  with 1 that show ?thesis by blast
qed

text \<open>C17: OpenTofu only sees a finished configuration. If \<open>selectOperatorRule\<close> runs any OpenTofu
  command, then before that the template was copied and rendered, the rule named by the resource
  is registered and was applied without error to the rendered files, and the common file has been
  filled in.\<close>

theorem tofu_after_rule:
  assumes "c \<in> set (made (selectOperatorRule ext t dir token ip cfg fw acc uuid cu) w)" and "is_tofu c"
  shows "\<exists>tf w0 w1 h f0 mods w2.
    copyTerraformFiles ext fw dir t w = (Inr tf, w0) \<and>
    smartNestedProcess (dir @ ''/'' @ fwName fw @ ''_'' @ t) cfg (w_fs w0) = (Inr (), f0) \<and>
    lookupOperatorRule (w_reg w0) (fcs_OperatorRule (fc_Spec cfg)) = Some h \<and>
    h cfg (finalName (dir @ ''/'' @ fwName fw @ ''_'' @ t)) f0 = (Inr (), w_fs w1) \<and>
    tfCommon token ip (ffs_S3BucketName (ff_Spec fw))
      (state_key cfg fw uuid (CurrentOperatorConfig (w_reg w1))) (a_s3Url acc)
      (common_file dir fw (CurrentOperatorConfig (w_reg w1))) w1 = (Inr mods, w2) \<and>
    prefix (w_log w2) (w_log (snd (selectOperatorRule ext t dir token ip cfg fw acc uuid cu w))) \<and>
    c \<in> set (drop (length (w_log w2)) (w_log (snd (selectOperatorRule ext t dir token ip cfg fw acc uuid cu w))))"
proof -
  obtain tf w1 mods w2 where a: "applyRule ext t dir cfg fw w = (Inr tf, w1)"
    and m: "common_step dir token ip cfg fw acc uuid (CurrentOperatorConfig (w_reg w1)) w1 = (Inr mods, w2)"
    and c: "c \<in> set (made (after_rule ext dir token ip cfg fw acc uuid cu (CurrentOperatorConfig (w_reg w1)) tf) w2)"
    by (rule reached_after_rule [where P = is_tofu, OF assms]) (simp_all add: is_tofu_def)
  have run: "selectOperatorRule ext t dir token ip cfg fw acc uuid cu w =
      after_rule ext dir token ip cfg fw acc uuid cu (CurrentOperatorConfig (w_reg w1)) tf w2"
    unfolding selectOperatorRule_alt by (simp add: andThen_def a m getReg_def)
  have "prefix (w_log w2) (w_log (snd (selectOperatorRule ext t dir token ip cfg fw acc uuid cu w)))"
    unfolding run using logsI [OF logs_after_rule] by (simp add: logs_def)
  moreover have "c \<in> set (drop (length (w_log w2))
      (w_log (snd (selectOperatorRule ext t dir token ip cfg fw acc uuid cu w))))"
    using c unfolding run made_def .
  moreover have "tfCommon token ip (ffs_S3BucketName (ff_Spec fw))
      (state_key cfg fw uuid (CurrentOperatorConfig (w_reg w1))) (a_s3Url acc)
      (common_file dir fw (CurrentOperatorConfig (w_reg w1))) w1 = (Inr mods, w2)"
    using m by (simp add: common_step_def wrapErr_ok)
  ultimately show ?thesis using applyRule_ok [OF a] by metis
qed

theorem tofu_after_rule_witness:
  "\<exists>h. lookupOperatorRule (w_reg (snd (copyTerraformFiles demo_ext demo_fw ''/w'' ''vip.tf'' demo_world))) ''vip'' = Some h"
proof -
  have "TofuApply ''/w'' \<in> set (made (selectOperatorRule demo_ext ''vip.tf'' ''/w'' ''tok'' ''ip'' demo_cfg demo_fw
      demo_access ''u1'' True) demo_world)" by code_simp
  from tofu_after_rule [OF this] obtain tf w0 h where
    "copyTerraformFiles demo_ext demo_fw ''/w'' ''vip.tf'' demo_world = (Inr tf, w0)"
    "lookupOperatorRule (w_reg w0) (fcs_OperatorRule (fc_Spec demo_cfg)) = Some h"
    by (auto simp: is_tofu_def)
  then show ?thesis by (simp add: demo_cfg_def)
qed

section \<open>The commands of a run\<close>

text \<open>C19: the exact commands of a run. \<open>execTerraform\<close> initialises the directory exactly when it has
  no lock file; a lock file that exists, aligned or not with the required providers, prevents it.
  If that went well one plan is made, and the plan is applied exactly when it was made without error
  and has changes. Nothing else is run.\<close>

theorem exec_commands:
  "made (execTerraform ext tf cfg fw acc uuid) w =
     (if file_at (w_fs w) (lockFile cfg fw uuid) = None \<and> \<not> is_dir (w_fs w) (lockFile cfg fw uuid)
      then [TofuInit tf] else []) @
     (case initTerraform ext tf cfg uuid fw acc w of
        (Inl e, w1) \<Rightarrow> []
      | (Inr tf', w1) \<Rightarrow>
        if fst (tofu ext (TofuPlan tf) w1) = Inr True then [TofuPlan tf, TofuApply tf] else [TofuPlan tf])"
proof -
  obtain r w1 where i: "initTerraform ext tf cfg uuid fw acc w = (r, w1)"
    by (cases "initTerraform ext tf cfg uuid fw acc w")
  note li = initTerraform_log [OF i]
  show ?thesis
  proof (cases r)
    case (Inl e)
    with i li show ?thesis by (simp add: made_def execTerraform_def andThen_Inl)
  next
    case (Inr tf')
    have tf: "tf' = tf" by (rule initTerraform_result [OF i [unfolded Inr]])
    obtain a w2 where a: "applyTerraform ext tf w1 = (a, w2)" by (cases "applyTerraform ext tf w1")
    have "execTerraform ext tf cfg fw acc uuid w = (a, w2)"
      unfolding execTerraform_def using i Inr tf a by (simp add: andThen_Inr)
    with i Inr li applyTerraform_log [OF a] show ?thesis by (simp add: made_def)
  qed
qed

text \<open>The two modes exclude each other. A run that creates or updates never destroys resources
  nor deletes objects from S3, and a run that destroys never plans nor applies.\<close>

theorem modes_exclusive:
  "list_all (\<lambda>c. case c of TofuDestroy d \<Rightarrow> False | S3Delete b ks \<Rightarrow> False | _ \<Rightarrow> True)
     (made (selectOperatorRule ext t dir token ip cfg fw acc uuid True) w) \<and>
   list_all (\<lambda>c. case c of TofuPlan d \<Rightarrow> False | TofuApply d \<Rightarrow> False | _ \<Rightarrow> True)
     (made (selectOperatorRule ext t dir token ip cfg fw acc uuid False) w)"
proof -
  let ?P = "\<lambda>c. \<not> (case c of TofuDestroy d \<Rightarrow> False | S3Delete b ks \<Rightarrow> False | _ \<Rightarrow> True)"
  let ?Q = "\<lambda>c. \<not> (case c of TofuPlan d \<Rightarrow> False | TofuApply d \<Rightarrow> False | _ \<Rightarrow> True)"
  have "quiet ?P (selectOperatorRule ext t dir token ip cfg fw acc uuid True)"
    unfolding selectOperatorRule_alt after_rule_def execTerraform_def if_True
    by (intro quiet_intros quiet_applyRule_gen quiet_common_step quiet_initTerraform quiet_applyTerraform) simp_all
  moreover have "quiet ?Q (selectOperatorRule ext t dir token ip cfg fw acc uuid False)"
    unfolding selectOperatorRule_alt after_rule_def deleteTerraform_def if_False
    by (intro quiet_intros quiet_applyRule_gen quiet_common_step quiet_initTerraform quiet_deleteS3Dir)
      (simp_all add: quiet_tofu)
  ultimately show ?thesis unfolding quiet_def list_all_iff by blast
qed

lemma deletePages_pages:
  "S3Delete b' ks \<in> set (made (deletePages ext b pages) w) \<Longrightarrow> b' = b \<and> Inr ks \<in> set pages"
proof (induction pages arbitrary: w)
  case Nil
  then show ?case by (simp add: made_def)
next
  case (Cons page pages)
  show ?case
  proof (cases page)
    case (Inl e)
    with Cons.prems show ?thesis by (simp add: made_def andThen_def wrapErr_def)
  next
    case (Inr keys)
    show ?thesis
    proof (cases "keys = []")
      case True
      with Inr Cons.prems have "S3Delete b' ks \<in> set (made (deletePages ext b pages) w)"
        by (simp add: made_def andThen_def wrapErr_def)
      with Cons.IH show ?thesis by auto
    next
      case False
      let ?del = "wrapErr (Wrapf ''errore durante la cancellazione di massa'')
                  (ask (S3Delete b keys) (\<lambda>h. x_s3_delete ext h b keys))"
      let ?k = "\<lambda>errors. if errors \<noteq> [] then fail (Errorf ''alcuni oggetti non sono stati cancellati: %v'' [hd errors])
           else deletePages ext b pages"
      have lk: "logs (?k errors)" for errors
        by (intro logsI quiet_if quiet_basic quiet_deletePages) simp
      have ld: "logs ?del" by (intro logsI quiet_wrapErr) (simp add: quiet_ask)
      have "deletePages ext b (page # pages) w = andThen ?del ?k w"
        using Inr False by (simp add: andThen_def wrapErr_def)
      then have c: "S3Delete b' ks \<in> set (made (andThen ?del ?k) w)"
        using Cons.prems by (simp add: made_def)
      obtain r w1 where r: "?del w = (r, w1)" by (cases "?del w")
      have md: "made ?del w = [S3Delete b keys]" by simp
      show ?thesis
      proof (cases r)
        case (Inl e)
        with c made_andThen_Inl [of ?del w e w1 ?k] r md Inr show ?thesis by simp
      next
        case (Inr errors)
        with made_andThen_Inr [of ?del ?k errors w w1] ld lk r
        have "made (andThen ?del ?k) w = [S3Delete b keys] @ made (?k errors) w1"
          by (simp only: md)
        with c consider "b' = b \<and> ks = keys" | "S3Delete b' ks \<in> set (made (?k errors) w1)" by auto
        then show ?thesis
        proof cases
          case 1
          with \<open>page = Inr keys\<close> show ?thesis by simp
        next
          case 2
          then have "S3Delete b' ks \<in> set (made (deletePages ext b pages) w1)"
            by (cases "errors = []") (simp_all add: made_def)
          with Cons.IH show ?thesis by auto
        qed
      qed
    qed
  qed
qed

lemma deleteS3Dir_pages:
  assumes "S3Delete b' ks \<in> set (made (deleteS3Dir ext b d acc) w)"
  shows "b' = b \<and> (\<exists>h. Inr ks \<in> set (x_s3_pages ext h b d))"
proof -
  let ?P = "\<lambda>c. \<exists>b ks. c = S3Delete b ks"
  have l1: "logs (deletePages ext b pages)" for pages by (intro logsI quiet_deletePages) simp
  have l2: "logs (andThen (ask (S3List b d) (\<lambda>h. Inr (x_s3_pages ext h b d))) (deletePages ext b))"
    by (intro logsI quiet_andThen quiet_deletePages) (simp_all add: quiet_ask)
  have q: "quiet ?P (wrapErr (Wrapf ''failed to create S3 client'') (createS3Client ext acc))"
    by (intro quiet_wrapErr quiet_createS3Client) simp
  from call_after [where P = ?P, OF assms [unfolded deleteS3Dir_def] _ q l2]
  obtain w1 where "S3Delete b' ks \<in> set (made (andThen (ask (S3List b d)
      (\<lambda>h. Inr (x_s3_pages ext h b d))) (deletePages ext b)) w1)" by blast
  then obtain pages w2 where
    "ask (S3List b d) (\<lambda>h. Inr (x_s3_pages ext h b d)) w1 = (Inr pages, w2)"
    "S3Delete b' ks \<in> set (made (deletePages ext b pages) w2)"
    by (rule call_after [where P = ?P, OF _ _ _ l1]) (auto simp: quiet_ask)
  then have "pages = x_s3_pages ext (w_log w1) b d" "b' = b \<and> Inr ks \<in> set pages"
    using deletePages_pages [of b' ks ext b pages w2] by (simp_all add: ask_def)
  then show ?thesis by blast
qed

lemma deleteTerraform_last:
  assumes "deleteTerraform ext tf cfg fw acc uuid w = (Inr u, w')"
  shows "last (w_log w') = TofuDestroy tf"
proof -
  from assms obtain tf' w1 x where i: "initTerraform ext tf cfg uuid fw acc w = (Inr tf', w1)"
    and d: "tofu ext (TofuDestroy tf') w1 = (Inr x, w')"
    by (auto simp: deleteTerraform_def andThen_ok)
  from tofu_log [OF d] initTerraform_result [OF i] show ?thesis by simp
qed

text \<open>C14: the state goes last. If a run deletes objects from S3, then OpenTofu had destroyed the
  resources before, without error, and nothing had been deleted until then; what is deleted are
  pages listed below the directory of the firewall and the resource.\<close>

theorem state_deleted_last:
  assumes "S3Delete b ks \<in> set (made (selectOperatorRule ext t dir token ip cfg fw acc uuid cu) w)"
  shows "\<not> cu \<and> b = ffs_S3BucketName (ff_Spec fw) \<and>
    (\<exists>h. Inr ks \<in> set (x_s3_pages ext h b (fwName fw @ ''/'' @ uuid))) \<and>
    (\<exists>tf w1 mods w2 w3. applyRule ext t dir cfg fw w = (Inr tf, w1) \<and>
       common_step dir token ip cfg fw acc uuid (CurrentOperatorConfig (w_reg w1)) w1 = (Inr mods, w2) \<and>
       deleteTerraform ext tf cfg fw acc uuid w2 = (Inr (), w3) \<and> last (w_log w3) = TofuDestroy tf \<and>
       prefix (w_log w3) (w_log (snd (selectOperatorRule ext t dir token ip cfg fw acc uuid cu w))) \<and>
       S3Delete b ks \<notin> set (drop (length (w_log w)) (w_log w3)))"
proof -
  let ?P = "\<lambda>c. \<exists>b ks. c = S3Delete b ks"
  obtain tf w1 mods w2 where a: "applyRule ext t dir cfg fw w = (Inr tf, w1)"
    and m: "common_step dir token ip cfg fw acc uuid (CurrentOperatorConfig (w_reg w1)) w1 = (Inr mods, w2)"
    and c: "S3Delete b ks \<in> set (made (after_rule ext dir token ip cfg fw acc uuid cu
      (CurrentOperatorConfig (w_reg w1)) tf) w2)"
    by (rule reached_after_rule [where P = ?P, OF assms]) auto
  have "quiet ?P (execTerraform ext tf cfg fw acc uuid)"
    unfolding execTerraform_def by (intro quiet_andThen quiet_initTerraform quiet_applyTerraform) auto
  then have "S3Delete b ks \<notin> set (made (execTerraform ext tf cfg fw acc uuid) w2)"
    unfolding quiet_def by blast
  then have cu: "\<not> cu" using c by (auto simp: after_rule_def)
  let ?dir = "deleteS3Dir ext (ffs_S3BucketName (ff_Spec fw)) (fwName fw @ ''/'' @ uuid) acc"
  have qd: "quiet ?P (deleteTerraform ext tf cfg fw acc uuid)"
    unfolding deleteTerraform_def
    by (intro quiet_andThen quiet_initTerraform quiet_basic) (auto simp: quiet_tofu)
  have lq: "logs (wrapErr (Wrapf ''cancellazione della directory S3 fallita'') ?dir)"
    by (intro logsI quiet_wrapErr quiet_deleteS3Dir) simp_all
  from c cu have "S3Delete b ks \<in> set (made (andThen
      (wrapErr (Wrapf ''cancellazione delle risorse Terraform fallita'') (deleteTerraform ext tf cfg fw acc uuid))
      (\<lambda>_. wrapErr (Wrapf ''cancellazione della directory S3 fallita'') ?dir)) w2)"
    by (simp add: after_rule_def)
  then obtain u w3 where d: "wrapErr (Wrapf ''cancellazione delle risorse Terraform fallita'')
      (deleteTerraform ext tf cfg fw acc uuid) w2 = (Inr u, w3)"
    and s3: "S3Delete b ks \<in> set (made (wrapErr (Wrapf ''cancellazione della directory S3 fallita'') ?dir) w3)"
    by (rule call_after [where P = ?P, OF _ _ quiet_wrapErr [OF qd] lq]) auto
  have d': "deleteTerraform ext tf cfg fw acc uuid w2 = (Inr (), w3)" using d by (simp add: wrapErr_ok)
  have run: "selectOperatorRule ext t dir token ip cfg fw acc uuid cu w =
      wrapErr (Wrapf ''cancellazione della directory S3 fallita'') ?dir w3"
    unfolding selectOperatorRule_alt after_rule_def using cu by (simp add: andThen_def a m getReg_def d)
  have pre: "prefix (w_log w3) (w_log (snd (selectOperatorRule ext t dir token ip cfg fw acc uuid cu w)))"
    unfolding run using lq by (simp add: logs_def)
  obtain a1 where 1: "w_log w1 = w_log w @ a1" "\<forall>c \<in> set a1. \<not> ?P c"
    using quietE [OF quiet_applyRule_gen, of ?P dir ext t cfg fw w] a by auto
  obtain a2 where 2: "w_log w2 = w_log w1 @ a2" "\<forall>c \<in> set a2. \<not> ?P c"
    using quietE [OF quiet_common_step [of ?P], of dir token ip cfg fw acc uuid "CurrentOperatorConfig (w_reg w1)" w1] m
    by auto
  obtain a3 where 3: "w_log w3 = w_log w2 @ a3" "\<forall>c \<in> set a3. \<not> ?P c"
    using quietE [OF qd, of w2] d' by auto
  have none: "S3Delete b ks \<notin> set (drop (length (w_log w)) (w_log w3))"
    using 1 2 3 by auto
  have pages: "b = ffs_S3BucketName (ff_Spec fw) \<and>
      (\<exists>h. Inr ks \<in> set (x_s3_pages ext h (ffs_S3BucketName (ff_Spec fw)) (fwName fw @ ''/'' @ uuid)))"
    using deleteS3Dir_pages [of b ks] s3 by simp
  with cu a m d' deleteTerraform_last [OF d'] pre none show ?thesis by blast
qed

theorem state_deleted_last_witness:
  "last (w_log (snd (deleteTerraform demo_ext ''/w'' demo_cfg demo_fw demo_access ''u1''
     (snd (common_step ''/w'' ''tok'' ''ip'' demo_cfg demo_fw demo_access ''u1'' DefaultOperatorConfig
       (snd (applyRule demo_ext ''vip.tf'' ''/w'' demo_cfg demo_fw demo_world))))))) = TofuDestroy ''/w''"
proof -
  have c: "S3Delete ''bkt'' [''fw/u1/a''] \<in> set (made (selectOperatorRule demo_ext ''vip.tf'' ''/w'' ''tok'' ''ip''
      demo_cfg demo_fw demo_access ''u1'' False) demo_world)" by code_simp
  have reg: "CurrentOperatorConfig (w_reg (snd (applyRule demo_ext ''vip.tf'' ''/w'' demo_cfg demo_fw demo_world))) =
      DefaultOperatorConfig" by code_simp
  have tf: "fst (applyRule demo_ext ''vip.tf'' ''/w'' demo_cfg demo_fw demo_world) = Inr ''/w''" by code_simp
  from state_deleted_last [OF c] reg tf show ?thesis by auto
qed

section \<open>Versions, files and directories\<close>

text \<open>When the providers count as aligned. \<open>isAligned\<close> answers yes exactly when every required
  provider has a lock whose source ends in its own source, and all such locks have exactly the
  required version; it compares version texts, no constraint is interpreted.\<close>

theorem providers_aligned:
  "isAligned ext main lock s = (Inr True, s') \<longleftrightarrow>
     (\<exists>required locked s1. parseRequiredProviders ext main s = (Inr required, s1) \<and>
        parseLockFile ext lock s1 = (Inr locked, s') \<and>
        list_all (\<lambda>(n, r). locks_for r locked \<noteq> [] \<and>
          list_all (\<lambda>(src, l). pl_Version l = rp_Version r) (locks_for r locked)) required)"
proof -
  have "alignedWith locked required \<longleftrightarrow> list_all (\<lambda>(n, r). locks_for r locked \<noteq> [] \<and>
      list_all (\<lambda>(src, l). pl_Version l = rp_Version r) (locks_for r locked)) required" for locked required
    by (simp add: alignedWith_iff list_all_iff case_prod_beta')
  then show ?thesis
    by (auto simp: isAligned_def andThen_ok wrapErr_ok)
qed

lemma slash_split:
  assumes "CHR ''/'' \<notin> set a" "CHR ''/'' \<notin> set b" "a @ CHR ''/'' # x = b @ CHR ''/'' # y"
  shows "a = b \<and> x = y"
proof -
  have "takeWhile (\<lambda>c. c \<noteq> CHR ''/'') (n @ CHR ''/'' # z) = n" if "CHR ''/'' \<notin> set n" for n z
    using that by (induction n) auto
  from this [OF assms(1), of x] this [OF assms(2), of y] assms(3) show ?thesis by simp
qed

lemma below_base_dir:
  assumes "below (base_dir cfg fw uuid) p" "CHR ''/'' \<notin> set uuid" "uuid \<noteq> []"
  obtains z where "p @ ''/'' = ''/tmp/'' @ fwName fw @ CHR ''/'' # fcName cfg @ CHR ''/'' # uuid @ CHR ''/'' # z"
proof -
  have "\<not> HasSuffix (base_dir cfg fw uuid) ''/''"
  proof
    assume "HasSuffix (base_dir cfg fw uuid) ''/''"
    then obtain x where "(''/tmp/'' @ fwName fw @ ''/'' @ fcName cfg @ ''/'') @ uuid = x @ ''/''"
      by (auto simp: HasSuffix_iff base_dir_def)
    then have "last uuid = CHR ''/''" using assms(3) by (metis last_appendR last_snoc)
    with assms(2,3) last_in_set show False by metis
  qed
  with assms(1) consider "p = base_dir cfg fw uuid" | z where "p = base_dir cfg fw uuid @ CHR ''/'' # z"
    by (auto simp: below_def HasPrefix_def prefix_def)
  then show ?thesis
  proof cases
    case 1
    then show ?thesis by (intro that [of "[]"]) (simp add: base_dir_def)
  next
    case 2
    then show ?thesis by (intro that [of "z @ ''/''"]) (simp add: base_dir_def)
  qed
qed

text \<open>The working directories of different resources share no file. Names in Kubernetes have no
  slash; for such names a path below the directories of two runs shows that firewall, resource and
  identifier are the same.\<close>

theorem working_dirs_disjoint:
  assumes "CHR ''/'' \<notin> set (fwName fw) \<union> set (fcName cfg) \<union> set uuid"
    and "CHR ''/'' \<notin> set (fwName fw') \<union> set (fcName cfg') \<union> set uuid'"
    and "uuid \<noteq> []" "uuid' \<noteq> []"
    and "below (base_dir cfg fw uuid) p" "below (base_dir cfg' fw' uuid') p"
  shows "fwName fw = fwName fw' \<and> fcName cfg = fcName cfg' \<and> uuid = uuid'"
proof -
  have n: "CHR ''/'' \<notin> set (fwName fw)" "CHR ''/'' \<notin> set (fcName cfg)" "CHR ''/'' \<notin> set uuid"
    "CHR ''/'' \<notin> set (fwName fw')" "CHR ''/'' \<notin> set (fcName cfg')" "CHR ''/'' \<notin> set uuid'"
    using assms(1,2) by auto
  obtain z where z: "p @ ''/'' = ''/tmp/'' @ fwName fw @ CHR ''/'' # fcName cfg @ CHR ''/'' # uuid @ CHR ''/'' # z"
    using below_base_dir [OF assms(5) n(3) assms(3)] by blast
  obtain z' where z': "p @ ''/'' = ''/tmp/'' @ fwName fw' @ CHR ''/'' # fcName cfg' @ CHR ''/'' # uuid' @ CHR ''/'' # z'"
    using below_base_dir [OF assms(6) n(6) assms(4)] by blast
  from z z' have 1: "fwName fw @ CHR ''/'' # (fcName cfg @ CHR ''/'' # uuid @ CHR ''/'' # z) =
      fwName fw' @ CHR ''/'' # (fcName cfg' @ CHR ''/'' # uuid' @ CHR ''/'' # z')" by simp
  note 2 = slash_split [OF n(1,4) 1]
  note 3 = slash_split [OF n(2,5) conjunct2 [OF 2]]
  note 4 = slash_split [OF n(3,6) conjunct2 [OF 3]]
  from 2 3 4 show ?thesis by blast
qed

theorem working_dirs_disjoint_witness:
  "fcName demo_cfg = fcName demo_cfg \<and> ''u1'' = ''u1'' \<and> below (base_dir demo_cfg demo_fw ''u1'') ''/tmp/fw/cr1/u1/a.tf''"
proof -
  have "CHR ''/'' \<notin> set (fwName demo_fw) \<union> set (fcName demo_cfg) \<union> set ''u1''" by code_simp
  moreover have "below (base_dir demo_cfg demo_fw ''u1'') ''/tmp/fw/cr1/u1/a.tf''" by code_simp
  ultimately show ?thesis
    using working_dirs_disjoint [of demo_fw demo_cfg "''u1''" demo_fw demo_cfg "''u1''" "''/tmp/fw/cr1/u1/a.tf''"]
    by simp
qed

text \<open>What filling in the common file does. When \<open>tfCommon\<close> succeeds, the values of the active
  common mappings have been substituted in the text of the common file, the result is under its
  final name (a template suffix is gone), and no other file has changed; nothing is called.\<close>

theorem common_file_effect:
  assumes "tfCommon token ip bucket stateKey url f w = (Inr mods, w')"
  shows "mods = buildCommonMods (w_reg w) token ip bucket stateKey url \<and> w_log w' = w_log w \<and>
    (\<exists>c. content_at (w_fs w) f = Some c \<and>
       (\<forall>q. content_at (w_fs w') q =
          (if q = finalName f then Some (replace_mods c mods)
           else if q = f then None else content_at (w_fs w) q)))"
proof -
  let ?mods = "buildCommonMods (w_reg w) token ip bucket stateKey url"
  obtain base ext where be: "splitTerraformExt f = (base, ext)" by (cases "splitTerraformExt f")
  have final: "finalName f = base @ ext" by (simp add: finalName_def be)
  from assms obtain s1 where m: "modifyFileValue f ?mods (w_fs w) = (Inr (), s1)"
    and rest: "(if base @ ext \<noteq> f then
         andThen (wrapErr (Wrapf (''rinomina di '' @ f @ '' fallita'')) (onFs (Rename f (base @ ext)))) (\<lambda>_. ret ?mods)
       else ret ?mods) (w\<lparr>w_fs := s1\<rparr>) = (Inr mods, w')"
    unfolding tfCommon_def Let_def be
    by (auto simp: andThen_ok wrapErr_ok getReg_def onFs_def split: prod.splits)
  obtain c where c: "content_at (w_fs w) f = Some c" using modifyFileValue_content [OF m, of f] by blast
  have s1: "content_at s1 q = (if q = f then Some (replace_mods c ?mods) else content_at (w_fs w) q)" for q
    using modifyFileValue_content [OF m, of q] c by auto
  show ?thesis
  proof (cases "base @ ext = f")
    case True
    with rest s1 c final show ?thesis by auto
  next
    case False
    with rest obtain s2 where r: "Rename f (base @ ext) s1 = (Inr (), s2)" and w': "w' = w\<lparr>w_fs := s2\<rparr>"
      and mods: "mods = ?mods"
      by (auto simp: andThen_ok wrapErr_ok onFs_def split: prod.splits)
    have "content_at s2 q = (if q = base @ ext then content_at s1 f else if q = f then None else content_at s1 q)" for q
      using r False
      by (auto simp: Rename_def content_at_def file_at_def update_conv' delete_conv' split: if_splits option.splits)
    with s1 c w' mods final False show ?thesis by auto
  qed
qed

theorem common_file_effect_witness:
  "content_at (w_fs (snd (tfCommon ''tok'' ''10.0.0.1'' ''bkt'' ''key'' ''url'' ''/w/rules-templates/00_common.tf''
     demo_world))) ''/w/rules-templates/00_common.tf'' = Some ''ip=10.0.0.1''"
proof -
  let ?r = "tfCommon ''tok'' ''10.0.0.1'' ''bkt'' ''key'' ''url'' ''/w/rules-templates/00_common.tf'' demo_world"
  let ?mods = "buildCommonMods (w_reg demo_world) ''tok'' ''10.0.0.1'' ''bkt'' ''key'' ''url''"
  have "fst ?r = Inr ?mods" by code_simp
  then have run: "?r = (Inr ?mods, snd ?r)" by (simp add: prod_eq_iff)
  have "content_at (w_fs demo_world) ''/w/rules-templates/00_common.tf'' = Some ''ip=<FGT_IP_OR_NAME>''" by code_simp
  moreover have "finalName ''/w/rules-templates/00_common.tf'' = ''/w/rules-templates/00_common.tf''" by code_simp
  moreover have "replace_mods ''ip=<FGT_IP_OR_NAME>'' ?mods = ''ip=10.0.0.1''" by code_simp
  ultimately show ?thesis using common_file_effect [OF run] by auto
qed

end
