(* ===== verification/Example_Runs.thy ===== *)
theory Example_Runs
  imports Examples
begin

text \<open>
  Runs of the example installation, in steps: a reconcile with its loops is too much to evaluate in
  one go, so each step is run on any log and the witnesses put them together.
\<close>

section \<open>A firewall is created\<close>

definition demo_ready_world :: world where
  "demo_ready_world = demo_world\<lparr>w_fs := (w_fs demo_world)\<lparr>files := (''/terraform-templates/vip.tf'',
     \<lparr>f_content = demo_tmpl, f_perm = 420\<rparr>) # files (w_fs demo_world), dirs := [''/terraform-templates'']\<rparr>\<rparr>"

lemma ex_log: "\<exists>cs. w\<lparr>w_log := w_log w @ xs\<rparr> = w\<lparr>w_log := w_log w @ cs\<rparr>"
  by blast

lemma ex_log_in:
  "c \<in> set xs \<Longrightarrow> \<exists>cs. w\<lparr>w_log := w_log w @ xs\<rparr> = w\<lparr>w_log := w_log w @ cs\<rparr> \<and> c \<in> set cs"
  by blast

lemma demo_ready:
  assumes "file_at (w_fs w) ''/ssh/id_rsa'' = Some k" and "refused (w_fs w) = (\<lambda>_. False)"
  shows "\<exists>cs. GetFirewallReady demo_cluster demo_ssh ''ns'' demo_fw w = (Inr True, w\<lparr>w_log := w_log w @ cs\<rparr>)"
proof -
  have l: "license_status ''License Status: Valid'' = Some ''Valid''" by code_simp
  have "\<exists>cs. DoSSHOperations demo_cluster demo_ssh ''ns'' FIREWALLREADY demo_fw w =
      (Inr ''License Status: Valid'', w\<lparr>w_log := w_log w @ cs\<rparr>)"
    using assms l
    by (auto simp: DoSSHOperations_def Let_def executeFirewallReadyCommand_def andThen_def onFs_def ReadFile_def
      ssh_step_def ssh_type_def ask_def demo_ssh_def ex_log)
  then show ?thesis
    by (auto simp: GetFirewallReady_def waitFirewallReady_def waitReady.simps [of _ _ _ _ _ 0] orElse_def)
qed

lemma demo_created:
  "\<exists>cs. CreateNewFortigateFirewallPVC 1 demo_cluster ''fw'' ''7.2.0'' ''ns'' ''std'' ''fortigate'' w =
     (Inr (), w\<lparr>w_log := w_log w @ cs\<rparr>)"
  "\<exists>cs. createFortigateFirewall demo_cluster ''fw'' ''7.2.0'' ''ns'' (ff_Spec demo_fw) w = (Inr (), w\<lparr>w_log := w_log w @ cs\<rparr>)"
  "\<exists>cs. createFortigateService demo_cluster demo_fw w = (Inr (), w\<lparr>w_log := w_log w @ cs\<rparr>)"
  "getSecretValues demo_cluster ''ns'' ''aws'' s3_keys w = (Inr demo_secret, w\<lparr>w_log := w_log w @ [KGet ''Secret'' ''ns'' ''aws'']\<rparr>)"
proof -
  have "stops demo_missing = False" by (simp add: stops_def demo_missing_def)
  moreover have "goldenImages ''fortigate'' ''7.2.0'' = Inr (''fortigate-7.2.0-fgt'', ''fortigate-7.2.0-cloud-init'')" by code_simp
  ultimately show "\<exists>cs. CreateNewFortigateFirewallPVC 1 demo_cluster ''fw'' ''7.2.0'' ''ns'' ''std'' ''fortigate'' w =
     (Inr (), w\<lparr>w_log := w_log w @ cs\<rparr>)"
    by (simp add: CreateNewFortigateFirewallPVC_def createPVC_def clonePVC_def CheckFirewallPVC_def clientset_def
      pvcOriginalSize_def orElse_def andThen_def ignoreErr_def kget_run kdo_run ask_def demo_cluster_def ex_log)
  show "\<exists>cs. createFortigateFirewall demo_cluster ''fw'' ''7.2.0'' ''ns'' (ff_Spec demo_fw) w = (Inr (), w\<lparr>w_log := w_log w @ cs\<rparr>)"
    by (simp add: createFortigateFirewall_def orElse_def kget_run kdo_run demo_cluster_def stops_def demo_missing_def ex_log)
  show "\<exists>cs. createFortigateService demo_cluster demo_fw w = (Inr (), w\<lparr>w_log := w_log w @ cs\<rparr>)"
    by (simp add: createFortigateService_def kdo_run demo_cluster_def ex_log)
  have "pickKeys demo_secret s3_keys [] = Inr demo_secret" by code_simp
  then show "getSecretValues demo_cluster ''ns'' ''aws'' s3_keys w = (Inr demo_secret, w\<lparr>w_log := w_log w @ [KGet ''Secret'' ''ns'' ''aws'']\<rparr>)"
    by (simp add: getSecretValues_def andThen_def wrapErr_def kget_run demo_cluster_def)
qed

lemma demo_reconciled:
  assumes "file_at (w_fs w) ''/ssh/id_rsa'' = Some k" and "refused (w_fs w) = (\<lambda>_. False)"
  shows "\<exists>cs. doReconcileFirewall 1 demo_cluster demo_ssh ''ns'' demo_fw w =
     (Inr \<lparr>ffst_Conditions = [], ffst_Token = ''tok''\<rparr>, w\<lparr>w_log := w_log w @ cs\<rparr>)"
proof -
  have d: "fwName demo_fw = ''fw''" "ffs_FortigateVersion (ff_Spec demo_fw) = ''7.2.0''"
    "om_Namespace (ff_Meta demo_fw) = ''ns''" "ffs_PVCStorageClass (ff_Spec demo_fw) = ''std''"
    "ffs_LicenseType (ff_Spec demo_fw) = ''none''" "ffst_Token (ff_Status demo_fw) = ''tok''"
    by (simp_all add: demo_fw_def fwName_def demo_meta_def)
  obtain c1 where 1: "CreateNewFortigateFirewallPVC 1 demo_cluster ''fw'' ''7.2.0'' ''ns'' ''std'' ''fortigate'' w =
     (Inr (), w\<lparr>w_log := w_log w @ c1\<rparr>)" using demo_created(1) by blast
  let ?w1 = "w\<lparr>w_log := w_log w @ c1\<rparr>"
  obtain c2 where 2: "createFortigateFirewall demo_cluster ''fw'' ''7.2.0'' ''ns'' (ff_Spec demo_fw) ?w1 =
     (Inr (), ?w1\<lparr>w_log := w_log ?w1 @ c2\<rparr>)" using demo_created(2) by blast
  let ?w2 = "?w1\<lparr>w_log := w_log ?w1 @ c2\<rparr>"
  obtain c3 where 3: "createFortigateService demo_cluster demo_fw ?w2 = (Inr (), ?w2\<lparr>w_log := w_log ?w2 @ c3\<rparr>)"
    using demo_created(3) by blast
  let ?w3 = "?w2\<lparr>w_log := w_log ?w2 @ c3\<rparr>"
  obtain c4 where 4: "GetFirewallReady demo_cluster demo_ssh ''ns'' demo_fw ?w3 = (Inr True, ?w3\<lparr>w_log := w_log ?w3 @ c4\<rparr>)"
    using demo_ready [of ?w3 k] assms by auto
  show ?thesis
    using 1 2 3 4 unfolding doReconcileFirewall_def Let_def d
    by (simp add: andThen_def licensed_def tokenFor_def d ex_log)
qed
lemma demo_synced:
  assumes "w_fs w = w_fs demo_ready_world"
  shows "\<exists>w'. syncTerraformS3Bucket demo_ext acc ''bkt'' w = (Inr (), w')"
proof -
  have "fst (listAllFilesInDir ''/terraform-templates'' (w_fs demo_ready_world)) =
      Inr [''/terraform-templates/vip.tf'']" by code_simp
  then have "listAllFilesInDir ''/terraform-templates'' (w_fs demo_ready_world) =
      (Inr [''/terraform-templates/vip.tf''], w_fs demo_ready_world)"
    using file_state_ops(5) [of "filepath_Clean ''/terraform-templates''" "w_fs demo_ready_world"]
    by (simp add: listAllFilesInDir_def prod_eq_iff)
  moreover have "readFileContent ''/terraform-templates/vip.tf'' (w_fs demo_ready_world) =
      (Inr demo_tmpl, w_fs demo_ready_world)"
    by (simp add: readFileContent_def ReadFile_def demo_ready_world_def demo_world_def file_at_def)
  ultimately show ?thesis using assms
    by (auto simp: syncTerraformS3Bucket_def andThen_def onFs_def writeS3File_def createS3Client_def getReg_def
        writeS3Data_def Let_def wrapErr_def ask_def demo_ext_def ex_log)
qed

section \<open>A firewall is upgraded\<close>

definition demo_img_fs :: fs where
  "demo_img_fs = \<lparr>files = [(''/firmwares/v7.2.8/a.out'', \<lparr>f_content = ''img1'', f_perm = 420\<rparr>),
                         (''/firmwares/v7.4.1/b.out'', \<lparr>f_content = ''img2'', f_perm = 420\<rparr>)],
     dirs = [''/firmwares/v7.2.8'', ''/firmwares/v7.4.1'', ''/tmp''],
     refused = (\<lambda>_. False), glob_meta = (\<lambda>_ _. None)\<rparr>"

lemma demo_asked:
  "SendCommandApiGet demo_ext acc demo_net n addr tok GETFWMODEL b i w =
     (Inr ''FGT'', w\<lparr>w_log := w_log w @ [Http ''GET'' (''https://'' @ addr @ ''/api/v2/monitor/system/status'')]\<rparr>)"
  "SendCommandApiGet demo_ext acc demo_net n addr tok GETFWVERSION b i w =
     (Inr ''7.2.0'', w\<lparr>w_log := w_log w @ [Http ''GET'' (''https://'' @ addr @ ''/api/v2/monitor/system/status'')]\<rparr>)"
  by (simp_all add: SendCommandApiGet_def newFortigateClient_def getFwModel_def getFwVersion_def getFwStatus_def
      prepareRequest_def sendRequest_def http_do_def asStatus_def andThen_def wrapErr_def ask_def Let_def demo_net_def)

lemma demo_path_found:
  "GetStatusByParams demo_cluster demo_net ns ''FGT'' ''7.4.1'' v w =
     (Inr (fup_Status demo_path), w\<lparr>w_log := w_log w @ [KList ''FortigateUpdatePath'']\<rparr>)"
proof -
  have "List.find (in_range demo_net 4) [demo_path] = Some demo_path" by code_simp
  moreover have "n_semver demo_net ''7.4.1'' = Some 4" by code_simp
  ultimately show ?thesis
    by (simp add: GetStatusByParams_def andThen_def wrapErr_def ask_def demo_cluster_def)
qed

lemma demo_status:
  "updateFortigateUpgradeStatus demo_cluster u st w =
     (Inr (u\<lparr>fu_Status := \<lparr>fust_Conditions = [available], fust_BackupName = fust_BackupName st\<rparr>\<rparr>),
      w\<lparr>w_log := w_log w @ [KStatus (OUpdateStatus (om_Name (fu_Meta u))
        \<lparr>fust_Conditions = [available], fust_BackupName = fust_BackupName st\<rparr>)]\<rparr>)"
  by (simp add: updateFortigateUpgradeStatus_def Let_def andThen_def kdo_run demo_cluster_def)

lemma demo_api_backup:
  "\<exists>cs. SendCommandApiGet demo_ext acc demo_net n addr tok BACKUP b (Some demo_update) w =
     (Inr (''upgrade-backup/'' @ n @ ''-now.conf''), w\<lparr>w_log := w_log w @ cs\<rparr>)"
proof -
  have e: "IsNotFound (External True ''404'')" "\<not> stops (External True ''404'')"
    by (simp_all add: IsNotFound_def stops_def)
  have u: "fust_BackupName (fu_Status demo_update) = []" by (simp add: demo_update_def)
  have d: "n_now demo_net h = ''now''" "n_newRequest demo_net url = Inr ()" "n_http demo_net h rq = Inr (200, ''body'')"
    "x_s3_config demo_ext h = Inr ()" "x_s3_head demo_ext h b k = Inl (External True ''404'')"
    "x_s3_put demo_ext h b k v = Inr ()" for h url rq b k v
    by (simp_all add: demo_net_def demo_ext_def)
  show ?thesis
    by (simp add: SendCommandApiGet_def newFortigateClient_def getFwBackup_def backupFortigateConfig_def u
      saveBackupToS3_def prepareRequest_def sendRequest_def http_do_def asApi_def andThen_def wrapErr_def ask_def
      createS3Client_def getReg_def writeS3Data_def orElse_def Let_def d e ex_log)
qed

lemma demo_snapshot:
  "\<exists>cs. triggerKubeVirtVMSnapshot demo_cluster ns vm s w = (Inr (), w\<lparr>w_log := w_log w @ cs\<rparr>)"
proof -
  have "IsNotFound demo_missing" "\<not> stops demo_missing" by (simp_all add: IsNotFound_def stops_def demo_missing_def)
  then show ?thesis
    by (simp add: triggerKubeVirtVMSnapshot_def orElse_def ask_def kdo_run demo_cluster_def ex_log)
qed

lemma demo_backed_up:
  "\<exists>i bk cs. backupForUpgradeFirewall demo_ext demo_cluster demo_net demo_fw demo_update (fu_Status demo_update) w =
     (Inr (i, bk, ''fw-7.2.0-7.4.1''), w\<lparr>w_log := w_log w @ cs\<rparr>)"
proof -
  have d: "ffs_FortigateVersion (ff_Spec demo_fw) = ''7.2.0''" "om_Namespace (fu_Meta demo_update) = ''ns''"
    "om_Name (ff_Meta demo_fw) = ''fw''" "ffs_AWSCredentialSecretName (ff_Spec demo_fw) = ''aws''"
    "fus_NewVersion (fu_Spec demo_update) = ''7.4.1''"
    by (simp_all add: demo_fw_def demo_update_def demo_meta_def)
  let ?w1 = "w\<lparr>w_log := w_log w @ [KGet ''Secret'' ''ns'' ''aws'']\<rparr>"
  let ?bk = "''upgrade-backup/'' @ ''fw'' @ ''-now.conf''"
  obtain c2 where 2: "SendCommandApiGet demo_ext (access_of demo_secret) demo_net ''fw'' (ssh_gui_host ''fw'' ''7.2.0'' ''ns'')
      (ffst_Token (ff_Status demo_fw)) BACKUP (ffs_S3BucketName (ff_Spec demo_fw)) (Some demo_update) ?w1 =
      (Inr ?bk, ?w1\<lparr>w_log := w_log ?w1 @ c2\<rparr>)" using demo_api_backup by blast
  let ?st = "KStatus (OUpdateStatus (om_Name (fu_Meta demo_update))
        \<lparr>fust_Conditions = [available], fust_BackupName = ?bk\<rparr>)"
  let ?w3 = "w\<lparr>w_log := w_log w @ KGet ''Secret'' ''ns'' ''aws'' # c2 @ [?st]\<rparr>"
  obtain c4 where 4: "triggerKubeVirtVMSnapshot demo_cluster ''ns'' ''fw'' ''fw-7.2.0-7.4.1'' ?w3 =
      (Inr (), ?w3\<lparr>w_log := w_log ?w3 @ c4\<rparr>)" using demo_snapshot by blast
  show ?thesis
    using 2 4 unfolding backupForUpgradeFirewall_def Let_def d
    by (simp add: andThen_def demo_created(4) demo_status ex_log)
qed

lemma demo_image_name:
  "fst (listAllFilesInDir ''/firmwares/v7.2.8/'' demo_img_fs) = Inr [''/firmwares/v7.2.8/a.out'']"
  "fst (listAllFilesInDir ''/firmwares/v7.4.1/'' demo_img_fs) = Inr [''/firmwares/v7.4.1/b.out'']"
  by code_simp+

text \<open>The image is uploaded from a temporary file, which is gone afterwards.\<close>

lemma demo_image:
  assumes fs: "w_fs w = demo_img_fs" and v: "(v, f) \<in> {(''7.2.8'', ''/firmwares/v7.2.8/a.out''), (''7.4.1'', ''/firmwares/v7.4.1/b.out'')}"
  shows "SendCommandApiPost demo_ext demo_net addr tok v UPGRADEFIRMWARE b acc w =
     (Inr ''success'', w\<lparr>w_log := w_log w @ [Http ''POST'' (upgrade_url addr)]\<rparr>)"
proof -
  let ?n = "getFirmwareNameFromVersion demo_ext (''v'' @ v) b acc"
  have name: "?n w = (Inr f, w)"
    using v demo_image_name unfolding getFirmwareNameFromVersion_def fs
    by (auto split: prod.splits)
  have d: "n_tempname demo_net h = ''/tmp/up''" "n_newRequest demo_net url = Inr ()"
    "n_http demo_net h rq = Inr (200, ''body'')" "n_multipart demo_net x y = y"
    "n_dec_api demo_net bd = Inr \<lparr>ar_Status = ''success'', ar_Serial = [], ar_Version = []\<rparr>" for h url rq bd x y
    by (simp_all add: demo_net_def)
  define img where "img = (if v = ''7.2.8'' then ''img1'' else ''img2'')"
  define up where "up c = demo_img_fs\<lparr>files := files demo_img_fs @ [(''/tmp/up'', \<lparr>f_content = c, f_perm = 384\<rparr>)]\<rparr>" for c
  have dir: "filepath_Dir ''/tmp/up'' = ''/tmp''" by code_simp
  have w1: "WriteFile ''/tmp/up'' [] 384 demo_img_fs = (Inr (), up [])"
    by (simp add: WriteFile_def file_at_def is_dir_def up_def demo_img_fs_def dir)
  have r: "ReadFile f (up []) = (Inr img, up [])"
    using v by (auto simp: ReadFile_def file_at_def is_dir_def up_def demo_img_fs_def img_def)
  have w2: "WriteFile ''/tmp/up'' img 384 (up []) = (Inr (), up img)"
    by (simp add: WriteFile_def file_at_def is_dir_def up_def demo_img_fs_def)
  have gone: "Remove ''/tmp/up'' (up img) = (Inr (), demo_img_fs)"
    by (simp add: Remove_def file_at_def is_dir_def up_def demo_img_fs_def AList.delete_eq)
  have same: "w\<lparr>w_fs := demo_img_fs\<rparr> = w" using fs by (cases w) simp
  have "upgradeFortigateFirmware demo_ext demo_net (newFortigateClient addr tok) v b acc w =
      (Inr \<lparr>ar_Status = ''success'', ar_Serial = [], ar_Version = []\<rparr>,
       w\<lparr>w_fs := demo_img_fs, w_log := w_log w @ [Http ''POST'' (upgrade_url addr)]\<rparr>)"
    using w1 r w2 gone fs name
    by (simp add: upgradeFortigateFirmware_alt withTemp_run sendImage_def newFortigateClient_def Let_def andThen_def
      wrapErr_def onFs_def sendRequest_def http_do_def ask_def asApi_def d)
  with same show ?thesis by (simp add: SendCommandApiPost_def andThen_def wrapErr_def)
qed

lemma demo_upgraded:
  assumes fs: "w_fs w = demo_img_fs"
  shows "\<exists>r cs. doReconcile demo_ext demo_cluster demo_net demo_update demo_fw (fu_Status demo_update) w =
      (Inr r, w\<lparr>w_log := w_log w @ cs\<rparr>) \<and> Http ''POST'' (upgrade_url (hostOf demo_fw)) \<in> set cs"
proof -
  have d: "fus_NewVersion (fu_Spec demo_update) = ''7.4.1''" "om_Namespace (fu_Meta demo_update) = ''ns''"
    "ffs_AWSCredentialSecretName (ff_Spec demo_fw) = ''aws''"
    by (simp_all add: demo_fw_def demo_update_def demo_meta_def)
  have steps: "tl (up_Steps (fupst_UpdatePath (fup_Status demo_path))) =
      [\<lparr>us_Version = ''7.2.8'', us_Build = ''1'', us_ReleaseType = ''GA''\<rparr>,
       \<lparr>us_Version = ''7.4.1'', us_Build = ''1'', us_ReleaseType = ''GA''\<rparr>]"
    by (simp add: demo_path_def)
  have del: "deleteKubeVirtVMSnapshot demo_cluster ns n w' =
      (Inr (), w'\<lparr>w_log := w_log w' @ [KDelete ''VirtualMachineSnapshot'' ns n]\<rparr>)" for ns n and w' :: world
    by (simp add: deleteKubeVirtVMSnapshot_def orElse_def kdo_run demo_cluster_def)
  let ?u = "''https://'' @ hostOf demo_fw @ ''/api/v2/monitor/system/status''"
  let ?w1 = "w\<lparr>w_log := w_log w @ [Http ''GET'' ?u, Http ''GET'' ?u, KList ''FortigateUpdatePath'']\<rparr>"
  obtain i bk c4 where 4: "backupForUpgradeFirewall demo_ext demo_cluster demo_net demo_fw demo_update (fu_Status demo_update) ?w1 =
     (Inr (i, bk, ''fw-7.2.0-7.4.1''), ?w1\<lparr>w_log := w_log ?w1 @ c4\<rparr>)" using demo_backed_up by blast
  have run: "doReconcile demo_ext demo_cluster demo_net demo_update demo_fw (fu_Status demo_update) w =
      upgradeAlong demo_ext demo_cluster demo_net demo_update demo_fw (fu_Status demo_update) (fup_Status demo_path) ?w1"
    by (simp add: doReconcile_alt withVersion_def andThen_def orElse_def demo_asked demo_path_found d)
  have "hostOf demo_fw = ssh_gui_host (om_Name (ff_Meta demo_fw)) (ffs_FortigateVersion (ff_Spec demo_fw))
      (om_Namespace (ff_Meta demo_fw))" by (simp add: hostOf_def fwName_def)
  then have img: "SendCommandApiPost demo_ext demo_net (ssh_gui_host (om_Name (ff_Meta demo_fw))
      (ffs_FortigateVersion (ff_Spec demo_fw)) (om_Namespace (ff_Meta demo_fw))) tok v UPGRADEFIRMWARE b acc w' =
      (Inr ''success'', w'\<lparr>w_log := w_log w' @ [Http ''POST'' (upgrade_url (hostOf demo_fw))]\<rparr>)"
    if "w_fs w' = demo_img_fs" "v = ''7.2.8'' \<or> v = ''7.4.1''" for tok v b acc and w' :: world
    using demo_image [OF that(1), of v "if v = ''7.2.8'' then ''/firmwares/v7.2.8/a.out'' else ''/firmwares/v7.4.1/b.out''"]
      that(2) by auto
  show ?thesis
    unfolding run upgradeAlong_def
    using 4 fs
    by (simp add: andThen_def demo_status demo_created(4) d steps img del) (rule ex_log_in, simp)
qed

definition demo_img_world :: world where
  "demo_img_world = demo_world\<lparr>w_fs := demo_img_fs\<rparr>"

end
