(* ===== verification/Cluster_Properties.thy ===== *)
theory Cluster_Properties
  imports Tofu_Properties Example_Runs
begin

text \<open>
  Properties of the reconcilers of \<open>FortigateFirewall\<close>, \<open>FortigateConfig\<close> and \<open>Firewall\<close>: the
  finalizer protocol over whole reconciles, the bounds of the waits, the claims of a machine, and
  when a firewall is reported available.
\<close>

section \<open>Finalizers\<close>

text \<open>On an object that is being deleted the continuation of the protocol plays no part.\<close>

lemma finalizing_deleted:
  assumes "om_Deleted m"
  shows "finalizing cl kind fin m cleanup k = finalizing cl kind fin m cleanup (ret 0)"
  using assms by (simp add: finalizing_def)

lemma logs_finalizing_deleted:
  assumes "om_Deleted m" and "logs cleanup"
  shows "logs (finalizing cl kind fin m cleanup k)"
proof -
  have "quiet (\<lambda>_. False) cleanup" using assms(2) by (simp add: logs_quiet)
  then have "quiet (\<lambda>_. False) (finalizing cl kind fin m cleanup (ret 0))"
    unfolding finalizing_def UpdateFinalizers_def by (intro quiet_intros) simp_all
  then show ?thesis
    unfolding finalizing_deleted [OF assms(1), of cl kind fin cleanup k] by (rule logsI)
qed

lemma finalizing_deleted_ok:
  assumes "om_Deleted m" "ContainsFinalizer m fin" "cleanup w = (Inr (), w1)"
  shows "w_log (snd (finalizing cl kind fin m cleanup k w)) =
    w_log w1 @ [KUpdate kind (om_Namespace m) (om_Name m) (removeAll fin (om_Finalizers m))]"
  using assms by (simp add: finalizing_def andThen_def UpdateFinalizers_def kdo_run split: sum.split)

definition was_read :: "world \<Rightarrow> string \<Rightarrow> string \<Rightarrow> string \<Rightarrow> world" where
  "was_read w kind ns name = w\<lparr>w_log := w_log w @ [KGet kind ns name]\<rparr>"

lemma reconcile_deleted_firewall:
  assumes "k_get_fgt cl (w_log w) ns name = Inr fw" and "om_Deleted (ff_Meta fw)"
  shows "ReconcileFortigateFirewall n cl ext sh ns name w =
    finalizing cl ''FortigateFirewall'' firewallFinalizer (ff_Meta fw) (deleteFirewallResources cl fw) (ret 0)
      (was_read w ''FortigateFirewall'' ns name)"
  using assms
  by (simp add: ReconcileFortigateFirewall_def orElse_def kget_run was_read_def
      finalizing_deleted [OF assms(2), of cl "''FortigateFirewall''" firewallFinalizer
        "deleteFirewallResources cl fw" "andThen X Y" for X Y])

lemma logs_deleteFirewallResources: "logs (deleteFirewallResources cl fw)"
  using quiet_logs [OF quiet_deleteFirewallResources] .

lemma made_after_read:
  assumes "m w = m' (was_read w kind ns name)" and "logs m'"
  shows "made m w = KGet kind ns name # made m' (was_read w kind ns name)"
proof -
  let ?w1 = "was_read w kind ns name"
  have "w_log (snd (m w)) = w_log w @ KGet kind ns name # made m' ?w1"
    using logs_after [OF assms(2), of ?w1] by (simp add: assms(1)) (simp add: was_read_def)
  then show ?thesis by (simp add: made_def [of m])
qed

text \<open>C10: a deleted FortiGate is released only after its clean-up. If reconciling a
  \<open>FortigateFirewall\<close> that is being deleted updates an object at all, the update takes the
  operator's finalizer off, nothing else is in the log than the read, the exact sequence of the
  clean-up (the machine, its instance, the service, and the claims \<open>name-version-fgt\<close> and
  \<open>name-version-cloud-init\<close>) and this update, and the clean-up ended without an error, so each of these
  deletions was answered without one. The disk claim \<open>name-version\<close>, which the operator creates, is not
  among them and is left behind.\<close>

theorem firewall_released_after_cleanup:
  assumes "k_get_fgt cl (w_log w) ns name = Inr fw" and "om_Deleted (ff_Meta fw)"
    and "c \<in> set (made (ReconcileFortigateFirewall n cl ext sh ns name) w)" and "is_KUpdate c"
  shows "ContainsFinalizer (ff_Meta fw) firewallFinalizer \<and>
    c = KUpdate ''FortigateFirewall'' (om_Namespace (ff_Meta fw)) (om_Name (ff_Meta fw))
          (removeAll firewallFinalizer (om_Finalizers (ff_Meta fw))) \<and>
    (\<exists>w1. deleteFirewallResources cl fw (was_read w ''FortigateFirewall'' ns name) = (Inr (), w1)) \<and>
    w_log (snd (ReconcileFortigateFirewall n cl ext sh ns name w)) =
      w_log w @ KGet ''FortigateFirewall'' ns name # deletion_calls fw @ [c]"
proof -
  let ?w1 = "was_read w ''FortigateFirewall'' ns name"
  let ?f = "finalizing cl ''FortigateFirewall'' firewallFinalizer (ff_Meta fw) (deleteFirewallResources cl fw) (ret 0)"
  note run = reconcile_deleted_firewall [OF assms(1,2), of n ext sh]
  have "c \<in> set (made ?f ?w1)"
    using assms(3,4) made_after_read [of "ReconcileFortigateFirewall n cl ext sh ns name" w ?f, OF run
        logs_finalizing_deleted [OF assms(2) logs_deleteFirewallResources]]
    by auto
  from fgt_cleanup.removed_after_cleanup [OF assms(2) this assms(4)] obtain w2 where
    fin: "ContainsFinalizer (ff_Meta fw) firewallFinalizer"
    and w2: "deleteFirewallResources cl fw ?w1 = (Inr (), w2)"
    and c: "c = KUpdate ''FortigateFirewall'' (om_Namespace (ff_Meta fw)) (om_Name (ff_Meta fw))
          (removeAll firewallFinalizer (om_Finalizers (ff_Meta fw)))" by blast
  have "w_log (snd (?f ?w1)) = w_log w2 @ [c]"
    unfolding c by (rule finalizing_deleted_ok [of _ _ "deleteFirewallResources cl fw", OF assms(2) fin w2])
  with deleteFirewallResources_ok [OF w2] run fin w2 c show ?thesis by (simp add: was_read_def)
qed

definition demo_gone :: "string \<Rightarrow> ObjectMeta \<Rightarrow> ObjectMeta" where
  "demo_gone fin m = m\<lparr>om_Deleted := True, om_Finalizers := [''other'', fin]\<rparr>"

definition demo_gone_fw :: FortigateFirewall where
  "demo_gone_fw = demo_fw\<lparr>ff_Meta := demo_gone firewallFinalizer (ff_Meta demo_fw)\<rparr>"

theorem firewall_released_after_cleanup_witness:
  "w_log (snd (ReconcileFortigateFirewall 1 (demo_cluster\<lparr>k_get_fgt := \<lambda>h ns n. Inr demo_gone_fw\<rparr>) demo_ext demo_ssh
     ''ns'' ''fw'' demo_world)) =
   KGet ''FortigateFirewall'' ''ns'' ''fw'' # deletion_calls demo_gone_fw @
     [KUpdate ''FortigateFirewall'' ''ns'' ''fw'' [''other'']]"
proof -
  let ?cl = "demo_cluster\<lparr>k_get_fgt := \<lambda>h ns n. Inr demo_gone_fw\<rparr>"
  let ?c = "KUpdate ''FortigateFirewall'' ''ns'' ''fw'' [''other'']"
  have g: "k_get_fgt ?cl (w_log demo_world) ''ns'' ''fw'' = Inr demo_gone_fw" by simp
  have d: "om_Deleted (ff_Meta demo_gone_fw)" by code_simp
  have c: "?c \<in> set (made (ReconcileFortigateFirewall 1 ?cl demo_ext demo_ssh ''ns'' ''fw'') demo_world)" by code_simp
  have u: "is_KUpdate ?c" by simp
  have "w_log demo_world = []" by (simp add: demo_world_def)
  with conjunct2 [OF conjunct2 [OF conjunct2 [OF firewall_released_after_cleanup [OF g d c u]]]]
  show ?thesis by (simp only: append_Nil)
qed

lemma quiet_getS3Credentials: "(\<And>ns n. \<not> P (KGet ''Secret'' ns n)) \<Longrightarrow> quiet P (getS3CredentialsFromSecret cl fw ns)"
  unfolding getS3CredentialsFromSecret_def Let_def by (intro quiet_intros quiet_getSecretValues) simp_all

lemma quiet_prepare:
  assumes "\<And>b k. \<not> P (S3Get b k)" "\<And>u k s r. \<not> P (S3Config u k s r)" "\<And>b p. \<not> P (S3List b p)"
  shows "quiet P (prepareTerraformEnvironment ext cfg fw acc)"
  unfolding prepareTerraformEnvironment_def Let_def
  by (intro quiet_intros quiet_copyS3DirContent) (simp_all add: assms)

lemma prepare_uuid: "prepareTerraformEnvironment ext cfg fw acc w = (Inr uuid, w') \<Longrightarrow> uuid = om_UID (fc_Meta cfg)"
  by (auto simp: prepareTerraformEnvironment_def Let_def andThen_ok split: if_splits)

lemma runRule_destroy_ok:
  assumes "runRule ext cfg fw acc uuid False w = (Inr (), w')"
  obtains tf w1 w2 where "deleteTerraform ext tf cfg fw acc uuid w1 = (Inr (), w2)"
    "deleteS3Dir ext (ffs_S3BucketName (ff_Spec fw)) (fwName fw @ ''/'' @ uuid) acc w2 = (Inr (), w')"
    "prefix (w_log w) (w_log w1)"
proof -
  from assms obtain tf w0 mods w1 where
    a: "applyRule ext (fcs_TerraformTemplateS3Key (fc_Spec cfg)) (base_dir cfg fw uuid) cfg fw w = (Inr tf, w0)"
    and m: "common_step (base_dir cfg fw uuid) (ffst_Token (ff_Status fw)) (ssh_gui_host (fwName fw)
        (ffs_FortigateVersion (ff_Spec fw)) (om_Namespace (fc_Meta cfg))) cfg fw acc uuid
        (CurrentOperatorConfig (w_reg w0)) w0 = (Inr mods, w1)"
    and r: "after_rule ext (base_dir cfg fw uuid) (ffst_Token (ff_Status fw)) (ssh_gui_host (fwName fw)
        (ffs_FortigateVersion (ff_Spec fw)) (om_Namespace (fc_Meta cfg))) cfg fw acc uuid False
        (CurrentOperatorConfig (w_reg w0)) tf w1 = (Inr (), w')"
    unfolding runRule_def selectOperatorRule_alt by (auto simp: andThen_ok getReg_def)
  have "logs (applyRule ext (fcs_TerraformTemplateS3Key (fc_Spec cfg)) (base_dir cfg fw uuid) cfg fw)"
    by (intro logsI quiet_applyRule_gen) simp_all
  from logs_prefix [OF this a] logs_prefix [OF logsI [OF quiet_common_step] m]
  have "prefix (w_log w) (w_log w1)" by (rule prefix_order.trans)
  with r that show ?thesis by (auto simp: after_rule_def andThen_ok wrapErr_ok)
qed

lemma logs_deleteConfigResources: "logs (deleteConfigResources ext cfg fw acc uuid)"
  using quiet_logs [OF quiet_deleteConfigResources] .

text \<open>C11: a deleted configuration is released only after its resources and its state are gone. If
  reconciling a \<open>FortigateConfig\<close> that is being deleted updates an object, the update is the last
  call and takes the operator's finalizer off, and before it, with the firewall the resource names
  and the resource's own identifier, a run of the rule applied without error and a second run
  destroyed the resources with OpenTofu and deleted the state from S3, both without error.\<close>

theorem config_released_after_destroy:
  assumes "k_get_config cl (w_log w) ns name = Inr cfg" and "om_Deleted (fc_Meta cfg)"
    and "c \<in> set (made (ReconcileFortigateConfig cl ext ns name) w)" and "is_KUpdate c"
  shows "ContainsFinalizer (fc_Meta cfg) configFinalizer \<and>
    c = KUpdate ''FortigateConfig'' (om_Namespace (fc_Meta cfg)) (om_Name (fc_Meta cfg))
          (removeAll configFinalizer (om_Finalizers (fc_Meta cfg))) \<and>
    last (w_log (snd (ReconcileFortigateConfig cl ext ns name w))) = c \<and>
    (\<exists>fw acc w1 w2 tf w3 w4 w5.
       k_get_fgt cl (w_log w @ [KGet ''FortigateConfig'' ns name]) ns (fcs_FortigateName (fc_Spec cfg)) = Inr fw \<and>
       modifyTFFiles ext cfg fw acc (om_UID (fc_Meta cfg)) w1 = (Inr (), w2) \<and>
       prefix (w_log w2) (w_log w3) \<and>
       deleteTerraform ext tf cfg fw acc (om_UID (fc_Meta cfg)) w3 = (Inr (), w4) \<and>
       last (w_log w4) = TofuDestroy tf \<and>
       deleteS3Dir ext (ffs_S3BucketName (ff_Spec fw)) (fwName fw @ ''/'' @ om_UID (fc_Meta cfg)) acc w4 = (Inr (), w5) \<and>
       w_log (snd (ReconcileFortigateConfig cl ext ns name w)) = w_log w5 @ [c])"
proof -
  define w0 where "w0 = was_read w ''FortigateConfig'' ns name"
  let ?fwn = "fcs_FortigateName (fc_Spec cfg)"
  let ?fin = "\<lambda>fw acc uuid. finalizing cl ''FortigateConfig'' configFinalizer (fc_Meta cfg)
       (deleteConfigResources ext cfg fw acc uuid) (ret 0)"
  let ?p = "\<lambda>fw acc. andThen (prepareTerraformEnvironment ext cfg fw acc) (?fin fw acc)"
  let ?s = "\<lambda>fw. andThen (getS3CredentialsFromSecret cl fw ns) (?p fw)"
  let ?g = "andThen (kget (k_get_fgt cl) ''FortigateFirewall'' ns ?fwn) ?s"
  have run: "ReconcileFortigateConfig cl ext ns name w = ?g w0"
    unfolding ReconcileFortigateConfig_def
    by (simp add: orElse_def kget_run assms(1) w0_def was_read_def finalizing_deleted [OF assms(2),
        where cleanup = "deleteConfigResources ext cfg fw acc uuid" and k = "andThen X Y" for fw acc uuid X Y])
  have lf: "logs (?fin fw acc uuid)" for fw acc uuid
    by (rule logs_finalizing_deleted [OF assms(2) logs_deleteConfigResources])
  have lp: "logs (?p fw acc)" for fw acc
    unfolding logs_quiet by (intro quiet_andThen quiet_prepare lf [unfolded logs_quiet]) simp_all
  have ls: "logs (?s fw)" for fw
    unfolding logs_quiet by (intro quiet_andThen quiet_getS3Credentials lp [unfolded logs_quiet]) simp
  have lg: "logs ?g" unfolding logs_quiet by (intro quiet_andThen ls [unfolded logs_quiet]) simp
  have c: "c \<in> set (made ?g w0)"
    using assms(3,4) made_after_read [of "ReconcileFortigateConfig cl ext ns name" w ?g, OF run [unfolded w0_def] lg]
    by (auto simp: w0_def)
  obtain fw w1 where fw: "kget (k_get_fgt cl) ''FortigateFirewall'' ns ?fwn w0 = (Inr fw, w1)"
    and c1: "c \<in> set (made (?s fw) w1)"
    using call_after [where P = is_KUpdate, OF c assms(4) _ ls] by auto
  obtain acc w2 where acc: "getS3CredentialsFromSecret cl fw ns w1 = (Inr acc, w2)"
    and c2: "c \<in> set (made (?p fw acc) w2)"
    using call_after [where P = is_KUpdate, OF c1 assms(4) quiet_getS3Credentials lp] by auto
  obtain uuid w3 where u: "prepareTerraformEnvironment ext cfg fw acc w2 = (Inr uuid, w3)"
    and c3: "c \<in> set (made (?fin fw acc uuid) w3)"
    using call_after [where P = is_KUpdate, OF c2 assms(4) quiet_prepare lf] by auto
  have uuid: "uuid = om_UID (fc_Meta cfg)" by (rule prepare_uuid [OF u])
  obtain w4 where fin: "ContainsFinalizer (fc_Meta cfg) configFinalizer"
    and w4: "deleteConfigResources ext cfg fw acc uuid w3 = (Inr (), w4)"
    and ceq: "c = KUpdate ''FortigateConfig'' (om_Namespace (fc_Meta cfg)) (om_Name (fc_Meta cfg))
          (removeAll configFinalizer (om_Finalizers (fc_Meta cfg)))"
    using fc_cleanup.removed_after_cleanup [OF assms(2), of c cl "''FortigateConfig''" configFinalizer ext
        "(cfg, fw, acc, uuid)" "ret 0" w3] c3 assms(4) by auto
  have run3: "ReconcileFortigateConfig cl ext ns name w = ?fin fw acc uuid w3"
    unfolding run by (simp add: andThen_def fw acc u)
  have log: "w_log (snd (ReconcileFortigateConfig cl ext ns name w)) = w_log w4 @ [c]"
    unfolding run3 ceq by (rule finalizing_deleted_ok [of _ _ "deleteConfigResources ext cfg fw acc uuid", OF assms(2) fin w4])
  from w4 obtain w5 where m: "modifyTFFiles ext cfg fw acc uuid w3 = (Inr (), w5)"
    and d: "runRule ext cfg fw acc uuid False w5 = (Inr (), w4)"
    by (auto simp: deleteConfigResources_def andThen_ok)
  from runRule_destroy_ok [OF d] obtain tf w6 w7 where
    "deleteTerraform ext tf cfg fw acc uuid w6 = (Inr (), w7)"
    "deleteS3Dir ext (ffs_S3BucketName (ff_Spec fw)) (fwName fw @ ''/'' @ uuid) acc w7 = (Inr (), w4)"
    "prefix (w_log w5) (w_log w6)" by blast
  with m fin ceq log uuid fw deleteTerraform_last show ?thesis
    by (auto simp: kget_run w0_def was_read_def) blast
qed

definition demo_gone_cluster :: cluster where
  "demo_gone_cluster = demo_cluster\<lparr>k_get_config := (\<lambda>h ns n.
     Inr (demo_cfg\<lparr>fc_Meta := demo_gone configFinalizer (fc_Meta demo_cfg)\<rparr>))\<rparr>"

theorem config_released_after_destroy_witness:
  "last (w_log (snd (ReconcileFortigateConfig demo_gone_cluster demo_ext ''ns'' ''cr1'' demo_world))) =
     KUpdate ''FortigateConfig'' ''ns'' ''cr1'' [''other'']"
proof -
  let ?c = "KUpdate ''FortigateConfig'' ''ns'' ''cr1'' [''other'']"
  have g: "k_get_config demo_gone_cluster (w_log demo_world) ''ns'' ''cr1'' =
      Inr (demo_cfg\<lparr>fc_Meta := demo_gone configFinalizer (fc_Meta demo_cfg)\<rparr>)"
    by (simp add: demo_gone_cluster_def)
  have d: "om_Deleted (fc_Meta (demo_cfg\<lparr>fc_Meta := demo_gone configFinalizer (fc_Meta demo_cfg)\<rparr>))"
    by (simp add: demo_gone_def)
  have c: "?c \<in> set (made (ReconcileFortigateConfig demo_gone_cluster demo_ext ''ns'' ''cr1'') demo_world)" by code_simp
  have u: "is_KUpdate ?c" by simp
  from config_released_after_destroy [OF g d c u] show ?thesis by blast
qed

section \<open>Live objects\<close>

lemma quiet_sum: "(\<And>e. quiet P (f e)) \<Longrightarrow> (\<And>x. quiet P (g x)) \<Longrightarrow> quiet P (case r of Inl e \<Rightarrow> f e | Inr x \<Rightarrow> g x)"
  by (cases r) simp_all

lemma quiet_pollPVC:
  "(\<And>ns n. \<not> P (KGet ''PersistentVolumeClaim'' ns n)) \<Longrightarrow> (\<And>k. \<not> P (Sleep k)) \<Longrightarrow> quiet P (pollPVC n cl name ns)"
  by (induction n) (auto intro!: quiet_intros simp: quiet_ask simp del: op_simps)

definition is_own :: "call \<Rightarrow> bool" where
  "is_own c = (case c of KStatus x \<Rightarrow> True | KUpdate kind ns n fs \<Rightarrow> True | _ \<Rightarrow> False)"

text \<open>
  A kind of call that takes in no more than updates of the object and of its status: no step of the
  creation makes such a call.
\<close>

locale own_updates =
  fixes P :: "call \<Rightarrow> bool"
  assumes only_own: "P c \<Longrightarrow> is_own c"
begin

lemma no_P: "\<not> is_own c \<Longrightarrow> \<not> P c"
  using only_own by blast

lemma quiet_createPVC: "quiet P (createPVC n cl ft name v ns sc err cloud)"
  unfolding createPVC_def clonePVC_def CheckFirewallPVC_def clientset_def pvcOriginalSize_def
  by (intro quiet_sum quiet_intros quiet_prod quiet_pollPVC; simp add: no_P is_own_def)

lemma quiet_FortigatePVC: "quiet P (CreateNewFortigateFirewallPVC n cl name v ns sc ft)"
  unfolding CreateNewFortigateFirewallPVC_def
  by (intro quiet_intros quiet_createPVC) (simp add: quiet_ask no_P is_own_def)

lemma quiet_createFortigate: "quiet P (createFortigateFirewall cl name v ns sp)"
  unfolding createFortigateFirewall_def restartFortigateVM_def clientset_def Let_def
  by (intro quiet_intros; simp add: no_P is_own_def)

lemma quiet_ssh_op: "quiet P (DoSSHOperations cl sh ns op' fw)"
  by (rule quiet_DoSSHOperations; simp add: no_P is_own_def)

lemma quiet_waitReady: "quiet P (waitReady cl sh ns lic fw c)"
proof (induction "20 - c" arbitrary: c)
  case 0
  then have "20 \<le> c + 1" by simp
  then show ?case unfolding waitReady.simps [of cl sh ns lic fw c]
    by (auto intro!: quiet_intros quiet_ssh_op simp del: op_simps)
next
  case (Suc d c)
  from Suc.hyps have "quiet P (waitReady cl sh ns lic fw (c + 1))" by simp
  then show ?case unfolding waitReady.simps [of cl sh ns lic fw c]
    by (auto intro!: quiet_intros quiet_ssh_op simp: quiet_ask no_P is_own_def simp del: op_simps)
qed

lemma quiet_doReconcile: "quiet P (doReconcileFirewall n cl sh ns fw)"
  unfolding doReconcileFirewall_def licensed_def tokenFor_def createFortigateService_def Let_def
    GetFirewallReady_def GetFirewallReadyWithLicense_def waitFirewallReady_def
  by (intro quiet_intros quiet_FortigatePVC quiet_createFortigate quiet_waitReady quiet_ssh_op;
      simp add: no_P is_own_def)

lemma quiet_sync: "quiet P (syncTerraformS3Bucket ext acc b)"
proof -
  have "quiet P (syncFiles ext acc b fs)" for fs
    by (induction fs)
      (auto intro!: quiet_intros quiet_writeS3Data simp: writeS3File_def createS3Client_def quiet_ask
        no_P is_own_def simp del: op_simps)
  then show ?thesis unfolding syncTerraformS3Bucket_def by (intro quiet_intros)
qed

end

interpretation no_call: own_updates "\<lambda>_. False"
  by unfold_locales simp

interpretation status_call: own_updates is_status
  by unfold_locales (simp add: is_status_def is_own_def split: call.splits)

interpretation update_call: own_updates is_KUpdate
  by unfold_locales (simp add: is_KUpdate_def is_own_def split: call.splits)

text \<open>What \<open>Reconcile\<close> does with a live object once the finalizer is in place.\<close>

definition report_firewall :: "cluster \<Rightarrow> external \<Rightarrow> s3access \<Rightarrow> FortigateFirewall \<Rightarrow> FortigateFirewallStatus \<Rightarrow>
    (world, result) op" where
  "report_firewall cl ext acc inst st =
     orElse (syncTerraformS3Bucket ext acc (ffs_S3BucketName (ff_Spec inst)))
       (\<lambda>e. fail (Errorf ''errore durante la sincronizzazione del bucket S3'' []))
       (\<lambda>_. andThen (updateFortigateFirewallStatus cl inst st) (\<lambda>_. ret 0))"

definition run_firewall :: "nat \<Rightarrow> cluster \<Rightarrow> external \<Rightarrow> ssh_api \<Rightarrow> string \<Rightarrow> FortigateFirewall \<Rightarrow>
    (world, result) op" where
  "run_firewall n cl ext sh ns inst =
     (if ffs_AWSCredentialSecretName (ff_Spec inst) = [] then
        fail (Errorf ''Fortigate URL o nome del secret AWS non specificati. Verifica la configurazione.'' [])
      else
        andThen (getSecretValues cl ns (ffs_AWSCredentialSecretName (ff_Spec inst)) s3_keys) (\<lambda>awsKey.
        andThen (doReconcileFirewall n cl sh ns inst) (report_firewall cl ext (access_of awsKey) inst)))"

definition live_firewall :: "nat \<Rightarrow> cluster \<Rightarrow> external \<Rightarrow> ssh_api \<Rightarrow> string \<Rightarrow> string \<Rightarrow> (world, result) op" where
  "live_firewall n cl ext sh ns name =
     andThen (kget (k_get_fgt cl) ''FortigateFirewall'' ns name) (run_firewall n cl ext sh ns)"

lemma ReconcileFortigateFirewall_alt:
  "ReconcileFortigateFirewall n cl ext sh ns name =
     orElse (kget (k_get_fgt cl) ''FortigateFirewall'' ns name) IgnoreNotFound (\<lambda>fw.
     finalizing cl ''FortigateFirewall'' firewallFinalizer (ff_Meta fw) (deleteFirewallResources cl fw)
       (live_firewall n cl ext sh ns name))"
  unfolding ReconcileFortigateFirewall_def live_firewall_def run_firewall_def report_firewall_def Let_def
  by (rule refl)

lemma logs_report_firewall: "quiet (\<lambda>_. False) (report_firewall cl ext acc inst st)"
  unfolding report_firewall_def updateFortigateFirewallStatus_def
  by (intro quiet_intros no_call.quiet_sync) simp

lemma logs_run_firewall: "quiet (\<lambda>_. False) (run_firewall n cl ext sh ns inst)"
  unfolding run_firewall_def
  by (intro quiet_intros logs_report_firewall no_call.quiet_doReconcile quiet_getSecretValues) simp

lemma logs_live_firewall: "quiet (\<lambda>_. False) (live_firewall n cl ext sh ns name)"
  unfolding live_firewall_def by (intro quiet_intros logs_run_firewall) simp

lemma reconcile_unmarked_firewall:
  assumes "k_get_fgt cl (w_log w) ns name = Inr fw" and "\<not> om_Deleted (ff_Meta fw)"
    and "\<not> ContainsFinalizer (ff_Meta fw) firewallFinalizer"
  defines "read \<equiv> w_log w @ [KGet ''FortigateFirewall'' ns name]"
  defines "upd \<equiv> KUpdate ''FortigateFirewall'' (om_Namespace (ff_Meta fw)) (om_Name (ff_Meta fw))
            (om_Finalizers (ff_Meta fw) @ [firewallFinalizer])"
  shows "ReconcileFortigateFirewall n cl ext sh ns name w =
      (case k_do cl read upd of Inl e \<Rightarrow> (Inl e, w\<lparr>w_log := read @ [upd]\<rparr>)
       | Inr u \<Rightarrow> live_firewall n cl ext sh ns name (w\<lparr>w_log := read @ [upd]\<rparr>))"
  unfolding ReconcileFortigateFirewall_alt read_def upd_def using assms(1-3)
  by (cases "k_do cl (w_log w @ [KGet ''FortigateFirewall'' ns name])
       (KUpdate ''FortigateFirewall'' (om_Namespace (ff_Meta fw)) (om_Name (ff_Meta fw))
            (om_Finalizers (ff_Meta fw) @ [firewallFinalizer]))")
    (simp_all add: orElse_def kget_run finalizing_def andThen_def UpdateFinalizers_def kdo_run)

lemma reconcile_marked_firewall:
  assumes "k_get_fgt cl (w_log w) ns name = Inr fw" and "\<not> om_Deleted (ff_Meta fw)"
    and "ContainsFinalizer (ff_Meta fw) firewallFinalizer"
  shows "ReconcileFortigateFirewall n cl ext sh ns name w =
    live_firewall n cl ext sh ns name (was_read w ''FortigateFirewall'' ns name)"
  unfolding ReconcileFortigateFirewall_alt using assms
  by (simp add: orElse_def kget_run finalizing_def was_read_def)

lemma no_update_live: "quiet is_KUpdate (live_firewall n cl ext sh ns name)"
  unfolding live_firewall_def run_firewall_def report_firewall_def updateFortigateFirewallStatus_def
  by (intro quiet_intros update_call.quiet_doReconcile update_call.quiet_sync quiet_getSecretValues)
    (simp_all add: is_KUpdate_def)

text \<open>A live FortiGate is marked before anything is created for it. If a \<open>FortigateFirewall\<close> that
  is not being deleted lacks the finalizer, reconciling it first adds the finalizer, and makes any
  further call only if that update was answered without error.\<close>

theorem finalizer_registered_first:
  assumes "k_get_fgt cl (w_log w) ns name = Inr fw" and "\<not> om_Deleted (ff_Meta fw)"
    and "\<not> ContainsFinalizer (ff_Meta fw) firewallFinalizer"
  shows "\<exists>read upd. read = w_log w @ [KGet ''FortigateFirewall'' ns name] \<and>
    upd = KUpdate ''FortigateFirewall'' (om_Namespace (ff_Meta fw)) (om_Name (ff_Meta fw))
            (om_Finalizers (ff_Meta fw) @ [firewallFinalizer]) \<and>
    prefix (read @ [upd]) (w_log (snd (ReconcileFortigateFirewall n cl ext sh ns name w))) \<and>
    (k_do cl read upd = Inr () \<or>
     w_log (snd (ReconcileFortigateFirewall n cl ext sh ns name w)) = read @ [upd])"
proof -
  let ?read = "w_log w @ [KGet ''FortigateFirewall'' ns name]"
  let ?upd = "KUpdate ''FortigateFirewall'' (om_Namespace (ff_Meta fw)) (om_Name (ff_Meta fw))
            (om_Finalizers (ff_Meta fw) @ [firewallFinalizer])"
  let ?w2 = "w\<lparr>w_log := ?read @ [?upd]\<rparr>"
  note run = reconcile_unmarked_firewall [OF assms, of n ext sh]
  have pre: "prefix (w_log ?w2) (w_log (snd (live_firewall n cl ext sh ns name ?w2)))"
    using logsI [OF logs_live_firewall] unfolding logs_def by blast
  show ?thesis
  proof (cases "k_do cl ?read ?upd")
    case (Inl e)
    with run show ?thesis by simp
  next
    case (Inr u)
    with run pre show ?thesis by simp
  qed
qed

theorem finalizer_registered_first_witness:
  "prefix [KGet ''FortigateFirewall'' ''ns'' ''fw'', KUpdate ''FortigateFirewall'' ''ns'' ''fw'' [firewallFinalizer]]
     (w_log (snd (ReconcileFortigateFirewall 1 demo_cluster demo_ext demo_ssh ''ns'' ''fw'' demo_world)))"
proof -
  have g: "k_get_fgt demo_cluster (w_log demo_world) ''ns'' ''fw'' = Inr demo_fw" by (simp add: demo_cluster_def)
  have d: "\<not> om_Deleted (ff_Meta demo_fw)" by code_simp
  have f: "\<not> ContainsFinalizer (ff_Meta demo_fw) firewallFinalizer" by code_simp
  have "om_Namespace (ff_Meta demo_fw) = ''ns'' \<and> om_Name (ff_Meta demo_fw) = ''fw'' \<and>
      om_Finalizers (ff_Meta demo_fw) = [] \<and> w_log demo_world = []" by (simp add: demo_fw_def demo_meta_def demo_world_def)
  with finalizer_registered_first [OF g d f, of 1 demo_ext demo_ssh] show ?thesis by auto
qed

lemma quiet_finalizing:
  "(\<And>ns n fs. \<not> P (KUpdate kind ns n fs)) \<Longrightarrow> quiet P cleanup \<Longrightarrow> quiet P k \<Longrightarrow>
     quiet P (finalizing cl kind fin m cleanup k)"
  unfolding finalizing_def UpdateFinalizers_def by (intro quiet_intros) simp_all

lemma status_after_finalizing:
  assumes c: "c \<in> set (made (finalizing cl kind fin m cleanup k) w)" and st: "is_status c"
    and q: "quiet is_status cleanup" and k: "logs k"
  obtains w1 where "c \<in> set (made k w1)"
proof (cases "om_Deleted m")
  case True
  have "quiet is_status (finalizing cl kind fin m cleanup (ret 0))"
    by (intro quiet_finalizing q quiet_basic) (simp add: is_status_def)
  with c st show ?thesis
    unfolding finalizing_deleted [OF True, of cl kind fin cleanup k] quiet_def by blast
next
  case False
  show ?thesis
  proof (cases "ContainsFinalizer m fin")
    case True
    with False c that show ?thesis by (simp add: finalizing_def)
  next
    case no: False
    have "quiet is_status (UpdateFinalizers cl kind m fs)" for fs
      unfolding UpdateFinalizers_def by (simp add: is_status_def)
    from call_after [where P = is_status, OF _ st this k] False no c that show ?thesis
      by (simp add: finalizing_def) blast
  qed
qed

lemma status_quiet_cleanup: "quiet is_status (deleteFirewallResources cl fw)"
  unfolding deleteFirewallResources_def DeleteFortigateFirewall_def DeleteFortigateFirewallSvc_def
    DeleteFirewallPVC_def clientset_def Let_def
  by (intro quiet_intros quiet_deletePVCs; simp add: quiet_ask is_status_def)

lemma doReconcileFirewall_ok:
  assumes "doReconcileFirewall n cl sh ns fw w = (Inr st, w')"
  obtains w0 wa w1 w2 where "k_exists cl (w_log w) ''StorageClass'' [] (ffs_PVCStorageClass (ff_Spec fw)) = Inr ()"
    "createFortigateFirewall cl (fwName fw) (ffs_FortigateVersion (ff_Spec fw)) (om_Namespace (ff_Meta fw)) (ff_Spec fw) w0 = (Inr (), wa)"
    "createFortigateService cl fw wa = (Inr (), w1)" "GetFirewallReady cl sh ns fw w1 = (Inr True, w2)"
    "prefix (w_log w) (w_log w0)" "prefix (w_log w2) (w_log w')"
    "ffst_Token (ff_Status fw) = [] \<or> ffst_Token st = ffst_Token (ff_Status fw)"
proof -
  let ?sp = "ff_Spec fw" and ?ns = "om_Namespace (ff_Meta fw)"
  let ?rest = "andThen (licensed cl sh ns fw) (\<lambda>_. andThen (tokenFor cl sh ns fw)
     (\<lambda>token. ret \<lparr>ffst_Conditions = [], ffst_Token = token\<rparr>))"
  from assms obtain w1 w2 w3 w4 where
    p: "CreateNewFortigateFirewallPVC n cl (fwName fw) (ffs_FortigateVersion ?sp) ?ns (ffs_PVCStorageClass ?sp)
          ''fortigate'' w = (Inr (), w1)"
    and c: "createFortigateFirewall cl (fwName fw) (ffs_FortigateVersion ?sp) ?ns ?sp w1 = (Inr (), w2)"
    and s: "createFortigateService cl fw w2 = (Inr (), w3)"
    and g: "GetFirewallReady cl sh ns fw w3 = (Inr True, w4)"
    and r: "?rest w4 = (Inr st, w')"
    by (auto simp: doReconcileFirewall_def Let_def andThen_ok split: if_splits)
  have sc: "k_exists cl (w_log w) ''StorageClass'' [] (ffs_PVCStorageClass ?sp) = Inr ()"
    using p by (cases "k_exists cl (w_log w) ''StorageClass'' [] (ffs_PVCStorageClass ?sp)")
      (auto simp: CreateNewFortigateFirewallPVC_def orElse_def ask_def createPVC_def split: if_splits)
  have "prefix (w_log w) (w_log w1)" by (rule logs_prefix [OF logsI [OF no_call.quiet_FortigatePVC] p])
  moreover have "quiet (\<lambda>_. False) ?rest"
    unfolding licensed_def tokenFor_def GetFirewallReadyWithLicense_def waitFirewallReady_def Let_def
    by (intro quiet_intros no_call.quiet_ssh_op no_call.quiet_waitReady)
  then have "prefix (w_log w4) (w_log w')" by (rule logs_prefix [of ?rest, OF logsI r])
  moreover have "ffst_Token (ff_Status fw) = [] \<or> ffst_Token st = ffst_Token (ff_Status fw)"
    using r by (auto simp: andThen_ok tokenFor_def split: if_splits)
  ultimately show ?thesis using that [OF sc c s g] by blast
qed

text \<open>C25: a FortiGate is reported available only when it answered. If reconciling a
  \<open>FortigateFirewall\<close> writes a status, then for the object as last read: the storage class was found,
  then the steps for the machine and for the service returned without error, one after the other,
  then \<open>GetFirewallReady\<close> said yes, which it does for a session that shows a license status, and then
  the templates were copied to S3; the status written says available, and a token the object already
  had is kept. Of the claims nothing is said: the code drops the errors of cloning them and of waiting
  for them, so it may report a firewall whose claims failed.\<close>

theorem available_when_ready:
  assumes "KStatus x \<in> set (made (ReconcileFortigateFirewall n cl ext sh ns name) w)"
  shows "\<exists>inst st h w1 w2 w3 w4 w5. k_get_fgt cl h ns name = Inr inst \<and>
    doReconcileFirewall n cl sh ns inst w1 = (Inr st, w2) \<and>
    k_exists cl (w_log w1) ''StorageClass'' [] (ffs_PVCStorageClass (ff_Spec inst)) = Inr () \<and>
    (\<exists>v0 v1. prefix (w_log w1) (w_log v0) \<and>
       createFortigateFirewall cl (fwName inst) (ffs_FortigateVersion (ff_Spec inst)) (om_Namespace (ff_Meta inst)) (ff_Spec inst) v0 = (Inr (), v1) \<and>
       createFortigateService cl inst v1 = (Inr (), w4)) \<and>
    GetFirewallReady cl sh ns inst w4 = (Inr True, w5) \<and> prefix (w_log w5) (w_log w2) \<and>
    (\<exists>awsKey w0. getSecretValues cl ns (ffs_AWSCredentialSecretName (ff_Spec inst)) s3_keys w0 = (Inr awsKey, w1) \<and>
       syncTerraformS3Bucket ext (access_of awsKey) (ffs_S3BucketName (ff_Spec inst)) w2 = (Inr (), w3)) \<and>
    x = OFirewallStatus (fwName inst) \<lparr>ffst_Conditions = [available], ffst_Token = ffst_Token st\<rparr> \<and>
    (ffst_Token (ff_Status inst) = [] \<or> ffst_Token st = ffst_Token (ff_Status inst))"
proof -
  let ?c = "KStatus x" and ?kind = "''FortigateFirewall''"
  have st: "is_status ?c" by (simp add: is_status_def)
  have qget: "quiet is_status (kget (k_get_fgt cl) ?kind ns name)" by (simp add: is_status_def)
  have qi: "quiet is_status (IgnoreNotFound e)" for e
    unfolding IgnoreNotFound_def by (intro quiet_intros)
  have lfin: "logs (finalizing cl ?kind firewallFinalizer (ff_Meta fw) (deleteFirewallResources cl fw)
      (live_firewall n cl ext sh ns name))" for fw
    by (intro logsI quiet_finalizing logs_live_firewall logs_deleteFirewallResources [unfolded logs_quiet]) simp
  obtain fw w1 where "?c \<in> set (made (finalizing cl ?kind firewallFinalizer (ff_Meta fw)
      (deleteFirewallResources cl fw) (live_firewall n cl ext sh ns name)) w1)"
    by (rule call_after_orElse [OF assms [unfolded ReconcileFortigateFirewall_alt] st qget qi lfin])
  then obtain w2 where c2: "?c \<in> set (made (live_firewall n cl ext sh ns name) w2)"
    by (rule status_after_finalizing [OF _ st status_quiet_cleanup logsI [OF logs_live_firewall]])
  obtain inst w3 where i: "kget (k_get_fgt cl) ?kind ns name w2 = (Inr inst, w3)"
    and c3: "?c \<in> set (made (run_firewall n cl ext sh ns inst) w3)"
    by (rule call_after [OF c2 [unfolded live_firewall_def] st qget logsI [OF logs_run_firewall]])
  have "ffs_AWSCredentialSecretName (ff_Spec inst) \<noteq> []"
    using c3 by (auto simp: run_firewall_def made_def)
  with c3 have c3': "?c \<in> set (made (andThen (getSecretValues cl ns (ffs_AWSCredentialSecretName (ff_Spec inst)) s3_keys)
      (\<lambda>awsKey. andThen (doReconcileFirewall n cl sh ns inst) (report_firewall cl ext (access_of awsKey) inst))) w3)"
    by (simp add: run_firewall_def)
  have l: "logs (andThen (doReconcileFirewall n cl sh ns inst) (report_firewall cl ext acc inst))" for acc
    by (intro logsI quiet_andThen no_call.quiet_doReconcile logs_report_firewall)
  have qs: "quiet is_status (getSecretValues cl ns (ffs_AWSCredentialSecretName (ff_Spec inst)) s3_keys)"
    by (rule quiet_getSecretValues) (simp add: is_status_def)
  obtain awsKey w4 where k: "getSecretValues cl ns (ffs_AWSCredentialSecretName (ff_Spec inst)) s3_keys w3 = (Inr awsKey, w4)"
    and c4: "?c \<in> set (made (andThen (doReconcileFirewall n cl sh ns inst) (report_firewall cl ext (access_of awsKey) inst)) w4)"
    by (rule call_after [OF c3' st qs l])
  obtain sti w5 where d: "doReconcileFirewall n cl sh ns inst w4 = (Inr sti, w5)"
    and c5: "?c \<in> set (made (report_firewall cl ext (access_of awsKey) inst sti) w5)"
    by (rule call_after [OF c4 st status_call.quiet_doReconcile logsI [OF logs_report_firewall]])
  have lu: "logs (andThen (updateFortigateFirewallStatus cl inst sti) (\<lambda>_. ret (0 :: result)))"
    unfolding updateFortigateFirewallStatus_def by (intro logsI quiet_intros) simp
  obtain w6 where s: "syncTerraformS3Bucket ext (access_of awsKey) (ffs_S3BucketName (ff_Spec inst)) w5 = (Inr (), w6)"
    and c6: "?c \<in> set (made (andThen (updateFortigateFirewallStatus cl inst sti) (\<lambda>_. ret (0 :: result))) w6)"
    using call_after_orElse [OF c5 [unfolded report_firewall_def] st status_call.quiet_sync quiet_basic(2) lu]
    by (metis old.unit.exhaust)
  have x: "x = OFirewallStatus (fwName inst) \<lparr>ffst_Conditions = [available], ffst_Token = ffst_Token sti\<rparr>"
    using c6 by (auto simp: made_def andThen_def updateFortigateFirewallStatus_def kdo_run split: sum.splits)
  have i': "k_get_fgt cl (w_log w2) ns name = Inr inst" using i by (simp add: kget_run)
  obtain v0 v1 w7 w8 where "k_exists cl (w_log w4) ''StorageClass'' [] (ffs_PVCStorageClass (ff_Spec inst)) = Inr ()"
    "createFortigateFirewall cl (fwName inst) (ffs_FortigateVersion (ff_Spec inst)) (om_Namespace (ff_Meta inst)) (ff_Spec inst) v0 = (Inr (), v1)"
    "createFortigateService cl inst v1 = (Inr (), w7)"
    "GetFirewallReady cl sh ns inst w7 = (Inr True, w8)" "prefix (w_log w4) (w_log v0)"
    "prefix (w_log w8) (w_log w5)" "ffst_Token (ff_Status inst) = [] \<or> ffst_Token sti = ffst_Token (ff_Status inst)"
    by (rule doReconcileFirewall_ok [OF d])
  with i' k d s x show ?thesis by blast
qed

theorem available_when_ready_witness:
  "\<exists>w4 w5. GetFirewallReady demo_cluster demo_ssh ''ns'' demo_fw w4 = (Inr True, w5)"
proof -
  let ?x = "OFirewallStatus ''fw'' \<lparr>ffst_Conditions = [available], ffst_Token = ''tok''\<rparr>"
  let ?R = "ReconcileFortigateFirewall 1 demo_cluster demo_ext demo_ssh ''ns'' ''fw''"
  have d: "\<not> om_Deleted (ff_Meta demo_fw)" "\<not> ContainsFinalizer (ff_Meta demo_fw) firewallFinalizer"
    "fwName demo_fw = ''fw''" "ffs_AWSCredentialSecretName (ff_Spec demo_fw) = ''aws''"
    "ffs_S3BucketName (ff_Spec demo_fw) = ''bkt''" by code_simp+
  have cl: "k_get_fgt demo_cluster h ns n = Inr demo_fw" "k_do demo_cluster h c = Inr ()" for h ns n c
    by (simp_all add: demo_cluster_def)
  have key: "file_at (w_fs demo_ready_world) ''/ssh/id_rsa'' = Some \<lparr>f_content = ''key'', f_perm = 256\<rparr>"
    "refused (w_fs demo_ready_world) = (\<lambda>_. False)" by (simp_all add: demo_ready_world_def demo_world_def file_at_def)
  let ?w1 = "demo_ready_world\<lparr>w_log := w_log demo_ready_world @ [KGet ''FortigateFirewall'' ''ns'' ''fw'',
    KUpdate ''FortigateFirewall'' (om_Namespace (ff_Meta demo_fw)) (om_Name (ff_Meta demo_fw))
      (om_Finalizers (ff_Meta demo_fw) @ [firewallFinalizer]),
    KGet ''FortigateFirewall'' ''ns'' ''fw'', KGet ''Secret'' ''ns'' ''aws'']\<rparr>"
  obtain cs where r: "doReconcileFirewall 1 demo_cluster demo_ssh ''ns'' demo_fw ?w1 =
     (Inr \<lparr>ffst_Conditions = [], ffst_Token = ''tok''\<rparr>, ?w1\<lparr>w_log := w_log ?w1 @ cs\<rparr>)"
    using demo_reconciled [of ?w1] key by auto
  have acc: "access_of demo_secret = demo_access" by code_simp
  obtain w3 where s: "syncTerraformS3Bucket demo_ext demo_access ''bkt'' (?w1\<lparr>w_log := w_log ?w1 @ cs\<rparr>) = (Inr (), w3)"
    using demo_synced [of "?w1\<lparr>w_log := w_log ?w1 @ cs\<rparr>"] by auto
  have "?R demo_ready_world = run_firewall 1 demo_cluster demo_ext demo_ssh ''ns'' demo_fw
      (demo_ready_world\<lparr>w_log := w_log demo_ready_world @ [KGet ''FortigateFirewall'' ''ns'' ''fw'',
    KUpdate ''FortigateFirewall'' (om_Namespace (ff_Meta demo_fw)) (om_Name (ff_Meta demo_fw))
      (om_Finalizers (ff_Meta demo_fw) @ [firewallFinalizer]), KGet ''FortigateFirewall'' ''ns'' ''fw'']\<rparr>)"
    unfolding ReconcileFortigateFirewall_alt live_firewall_def
    by (simp add: orElse_def andThen_def kget_run kdo_run cl finalizing_def d UpdateFinalizers_def)
  also have "\<dots> = report_firewall demo_cluster demo_ext demo_access demo_fw \<lparr>ffst_Conditions = [], ffst_Token = ''tok''\<rparr>
      (?w1\<lparr>w_log := w_log ?w1 @ cs\<rparr>)"
    using r by (simp add: run_firewall_def d demo_created(4) andThen_def acc)
  also have "\<dots> = (Inr 0, w3\<lparr>w_log := w_log w3 @ [KStatus ?x]\<rparr>)"
    using s by (simp add: report_firewall_def d orElse_def andThen_def updateFortigateFirewallStatus_def kdo_run cl)
  finally have run: "?R demo_ready_world = (Inr 0, w3\<lparr>w_log := w_log w3 @ [KStatus ?x]\<rparr>)" .
  have "prefix (w_log demo_ready_world) (w_log w3)"
  proof -
    have "prefix (w_log (?w1\<lparr>w_log := w_log ?w1 @ cs\<rparr>)) (w_log w3)"
      by (rule logs_prefix [of "syncTerraformS3Bucket demo_ext demo_access ''bkt''", OF logsI [OF no_call.quiet_sync] s])
    then show ?thesis by (auto simp: prefix_def)
  qed
  then have "KStatus ?x \<in> set (made ?R demo_ready_world)"
    unfolding made_def run by (auto simp: prefix_def)
  from available_when_ready [OF this] cl show ?thesis by auto
qed

section \<open>Waiting\<close>



section \<open>Volume claims\<close>

text \<open>The log when a poll has looked \<open>k\<close> times at an unbound claim.\<close>

primrec polled :: "nat \<Rightarrow> string \<Rightarrow> string \<Rightarrow> call list \<Rightarrow> call list" where
  "polled 0 ns name h = h"
| "polled (Suc k) ns name h = polled k ns name (h @ [KGet ''PersistentVolumeClaim'' ns name, Sleep 3])"

definition unbound :: "cluster \<Rightarrow> call list \<Rightarrow> string \<Rightarrow> string \<Rightarrow> bool" where
  "unbound cl h ns name = (case k_get_pvc cl h ns name of Inl e \<Rightarrow> False | Inr p \<Rightarrow> pvc_Phase p \<noteq> ''Bound'')"

lemma pollPVC_unbound:
  assumes "unbound cl (w_log w) ns name"
  shows "pollPVC (Suc n) cl name ns w = pollPVC n cl name ns
    (w\<lparr>w_log := w_log w @ [KGet ''PersistentVolumeClaim'' ns name, Sleep 3]\<rparr>)"
  using assms by (cases "k_get_pvc cl (w_log w) ns name") (auto simp: unbound_def andThen_def kget_run ask_def)

lemma pollPVC_skip:
  "(\<And>i. i < k \<Longrightarrow> unbound cl (polled i ns name (w_log w)) ns name) \<Longrightarrow>
     pollPVC (k + n) cl name ns w = pollPVC n cl name ns (w\<lparr>w_log := polled k ns name (w_log w)\<rparr>)"
proof (induction k arbitrary: w)
  case 0
  then show ?case by simp
next
  case (Suc k)
  let ?w' = "w\<lparr>w_log := w_log w @ [KGet ''PersistentVolumeClaim'' ns name, Sleep 3]\<rparr>"
  have "unbound cl (w_log w) ns name" using Suc.prems [of 0] by simp
  then have "pollPVC (Suc k + n) cl name ns w = pollPVC (k + n) cl name ns ?w'"
    by (simp add: pollPVC_unbound del: pollPVC.simps)
  also have "\<dots> = pollPVC n cl name ns (?w'\<lparr>w_log := polled k ns name (w_log ?w')\<rparr>)"
  proof (rule Suc.IH)
    fix i assume "i < k"
    then show "unbound cl (polled i ns name (w_log ?w')) ns name" using Suc.prems [of "Suc i"] by simp
  qed
  finally show ?case by simp
qed

text \<open>C31: waiting for a claim lasts as long as the claim is unbound. If the first \<open>k\<close> looks at a claim
  find it unbound, then with more than \<open>k\<close> rounds the wait behaves as the next look decides: it
  returns if the claim is bound by then, and returns the error if the claim cannot be read. With
  \<open>k\<close> rounds or fewer it is still waiting, so a claim that is never bound holds the reconcile for
  ever.\<close>

theorem claim_wait:
  assumes "k_do cl (w_log w) KConfig = Inr ()"
    and "\<And>i. i < k \<Longrightarrow> unbound cl (polled i ns name (w_log w @ [KConfig])) ns name"
  shows "(\<forall>n \<le> k. fst (CheckFirewallPVC n cl name ns w) = Inl Waiting) \<and>
    (\<forall>n > k. case k_get_pvc cl (polled k ns name (w_log w @ [KConfig])) ns name of
       Inl e \<Rightarrow> fst (CheckFirewallPVC n cl name ns w) = Inl e
     | Inr p \<Rightarrow> pvc_Phase p \<noteq> ''Bound'' \<or> fst (CheckFirewallPVC n cl name ns w) = Inr ())"
proof -
  let ?w1 = "w\<lparr>w_log := w_log w @ [KConfig]\<rparr>"
  have run: "CheckFirewallPVC n cl name ns w = pollPVC n cl name ns ?w1" for n
    using assms(1) by (simp add: CheckFirewallPVC_def clientset_def andThen_def kdo_run)
  have skip: "pollPVC (j + n) cl name ns ?w1 = pollPVC n cl name ns (?w1\<lparr>w_log := polled j ns name (w_log ?w1)\<rparr>)"
    if "j \<le> k" for j n
    by (rule pollPVC_skip) (use that assms(2) in simp)
  have "fst (CheckFirewallPVC n cl name ns w) = Inl Waiting" if "n \<le> k" for n
    using skip [of n 0] that run by simp
  moreover have "case k_get_pvc cl (polled k ns name (w_log w @ [KConfig])) ns name of
       Inl e \<Rightarrow> fst (CheckFirewallPVC n cl name ns w) = Inl e
     | Inr p \<Rightarrow> pvc_Phase p \<noteq> ''Bound'' \<or> fst (CheckFirewallPVC n cl name ns w) = Inr ()" if n: "k < n" for n
  proof -
    obtain m where m: "n = k + Suc m" using n less_imp_Suc_add by (metis add_Suc_right)
    show ?thesis unfolding run m skip [OF order.refl]
      by (cases "k_get_pvc cl (polled k ns name (w_log w @ [KConfig])) ns name")
        (simp_all add: andThen_def kget_run)
  qed
  ultimately show ?thesis by blast
qed

definition demo_pvc :: "string \<Rightarrow> PersistentVolumeClaim" where
  "demo_pvc phase = \<lparr>pvc_Name = ''c'', pvc_Namespace = ''ns'', pvc_StorageClass = ''std'',
     pvc_AccessModes = [], pvc_Storage = [], pvc_DataSource = [], pvc_Phase = phase\<rparr>"

theorem claim_wait_witness:
  "fst (CheckFirewallPVC 1 (demo_cluster\<lparr>k_get_pvc := \<lambda>h ns n.
      Inr (demo_pvc (if length h < 2 then ''Pending'' else ''Bound''))\<rparr>) ''c'' ''ns'' demo_world) = Inl Waiting \<and>
   fst (CheckFirewallPVC 2 (demo_cluster\<lparr>k_get_pvc := \<lambda>h ns n.
      Inr (demo_pvc (if length h < 2 then ''Pending'' else ''Bound''))\<rparr>) ''c'' ''ns'' demo_world) = Inr ()"
proof -
  let ?cl = "demo_cluster\<lparr>k_get_pvc := \<lambda>h ns n. Inr (demo_pvc (if length h < 2 then ''Pending'' else ''Bound''))\<rparr>"
  have do: "k_do ?cl (w_log demo_world) KConfig = Inr ()" by (simp add: demo_cluster_def)
  have log: "w_log demo_world = []" by (simp add: demo_world_def)
  have u: "unbound ?cl (polled i ''ns'' ''c'' (w_log demo_world @ [KConfig])) ''ns'' ''c''" if "i < 1" for i
    using that by (simp add: unbound_def demo_pvc_def log)
  show ?thesis
    using claim_wait [OF do u, of 1] by (auto simp: demo_pvc_def log)
qed

text \<open>A FortiGate machine mounts a claim the operator does not create. Every claim created for a
  machine is one of the two the creation waits for, and none of them is the disk claim that the
  manifest of a FortiGate mounts and that the clean-up deletes. A VyOS machine, in contrast, mounts
  exactly the claims created for it.\<close>

theorem mounted_claims:
  assumes "KCreate (OPVC p) \<in> set (made (CreateNewFortigateFirewallPVC n cl name version ns sc ft) w)"
    and "createManifest name version ns vsp = Some vm"
  shows "pvc_Name p \<in> set (pvcTargets name version True) \<and>
    pvc_Name p \<noteq> vv_ClaimName (hd (vm_Volumes (createFortigateManifest name version ns sp))) \<and>
    pvc_Name p \<noteq> hd (pvcToDelete name version) \<and>
    map vv_ClaimName (vm_Volumes vm) = pvcTargets name version (fws_HasCloudInit vsp)"
proof -
  let ?Q = "\<lambda>c. \<exists>p. c = KCreate (OPVC p) \<and> pvc_Name p \<notin> set (pvcTargets name version True)"
  have "quiet ?Q (createPVC n cl ft name version ns sc err True)" for err
    unfolding createPVC_def clonePVC_def CheckFirewallPVC_def clientset_def pvcOriginalSize_def
    by (intro quiet_sum quiet_intros quiet_prod quiet_pollPVC; simp add: pvcTargets_def)
  then have "quiet ?Q (CreateNewFortigateFirewallPVC n cl name version ns sc ft)"
    unfolding CreateNewFortigateFirewallPVC_def
    by (intro quiet_orElse) (simp_all add: quiet_ask)
  then have t: "pvc_Name p \<in> set (pvcTargets name version True)"
    using assms(1) unfolding quiet_def by blast
  moreover have "vv_ClaimName (hd (vm_Volumes (createFortigateManifest name version ns sp))) =
      name @ ''-'' @ version @ ''-fgt''"
    by (simp add: createFortigateManifest_def split: prod.split)
  moreover have "hd (pvcToDelete name version) = name @ ''-'' @ version @ ''-fgt''" by (simp add: pvcToDelete_def)
  ultimately show ?thesis
    using fgt_claim_not_created [of name version True] createManifest_claims [OF assms(2)] by auto
qed

theorem mounted_claims_witness:
  "pvc_Name \<lparr>pvc_Name = ''fw-7.2.0'', pvc_Namespace = ''ns'', pvc_StorageClass = ''std'',
     pvc_AccessModes = [''ReadWriteOnce''], pvc_Storage = [], pvc_DataSource = ''fortigate-7.2.0-fgt'', pvc_Phase = []\<rparr> \<noteq>
   vv_ClaimName (hd (vm_Volumes (createFortigateManifest ''fw'' ''7.2.0'' ''ns'' (ff_Spec demo_fw))))"
proof -
  have c: "KCreate (OPVC \<lparr>pvc_Name = ''fw-7.2.0'', pvc_Namespace = ''ns'', pvc_StorageClass = ''std'',
     pvc_AccessModes = [''ReadWriteOnce''], pvc_Storage = [], pvc_DataSource = ''fortigate-7.2.0-fgt'', pvc_Phase = []\<rparr>) \<in>
     set (made (CreateNewFortigateFirewallPVC 1 demo_cluster ''fw'' ''7.2.0'' ''ns'' ''std'' ''fortigate'') demo_world)"
    by code_simp
  have "\<exists>vm. createManifest ''fw'' ''7.2.0'' ''ns'' (fw_Spec demo_fwall) = Some vm"
    by (simp add: createManifest_def createFirewallManifestNIC_def demo_fwall_def)
  then obtain vm where vm: "createManifest ''fw'' ''7.2.0'' ''ns'' (fw_Spec demo_fwall) = Some vm" by blast
  from mounted_claims [OF c vm, of "ff_Spec demo_fw"] show ?thesis by blast
qed

end
