(* ===== verification/Upgrade_Properties.thy ===== *)
theory Upgrade_Properties
  imports Example_Runs
begin

text \<open>
  Properties of the firmware upgrade: the order of backup, snapshot and images, the number of
  images, what a backup may overwrite, and when an upgrade path is resolved.
\<close>

section \<open>Order\<close>

lemma call_in_orElse:
  assumes c: "c \<in> set (made (orElse m g f) w)" and P: "P c"
    and g: "\<And>e. quiet P (g e)" and f: "\<And>x. quiet P (f x)" and m: "logs m"
  shows "c \<in> set (made m w) \<and> prefix (w_log (snd (m w))) (w_log (snd (orElse m g f w)))"
proof -
  obtain r w1 where run: "m w = (r, w1)" by (cases "m w")
  show ?thesis
  proof (cases r)
    case (Inr x)
    with made_orElse_Inr [of m f x w w1 g] m quiet_logs [OF f [of x]] run c P f [of x]
    have "c \<in> set (made m w)" by (auto simp: quiet_def)
    moreover have "prefix (w_log w1) (w_log (snd (f x w1)))" using f [of x] by (simp add: quiet_def)
    ultimately show ?thesis using run Inr by (simp add: orElse_def)
  next
    case (Inl e)
    show ?thesis
    proof (cases "stops e")
      case True
      with Inl run c show ?thesis by (simp add: orElse_def made_def)
    next
      case False
      with made_orElse_Inl [of m g e w w1 f] m quiet_logs [OF g [of e]] run c P g [of e] Inl
      have "c \<in> set (made m w)" by (auto simp: quiet_def)
      moreover have "prefix (w_log w1) (w_log (snd (g e w1)))" using g [of e] by (simp add: quiet_def)
      ultimately show ?thesis using run Inl False by (simp add: orElse_def)
    qed
  qed
qed

lemma logs_doReconcile: "quiet (\<lambda>_. False) (doReconcile ext cl net inst fw st)"
  unfolding doReconcile_alt by (intro quiet_andThen quiet_ApiGet [THEN logs_quietP] logs_withVersion)

text \<open>\<open>Reconcile\<close> on an update and its firewall.\<close>

definition run_update :: "external \<Rightarrow> cluster \<Rightarrow> 'v net_api \<Rightarrow> FortigateUpdate \<Rightarrow> FortigateFirewall \<Rightarrow>
    (world, result) op" where
  "run_update ext cl net inst fw =
     (if ffst_Token (ff_Status fw) = [] then ret 60
      else
        orElse (doReconcile ext cl net inst fw (fu_Status inst))
          (\<lambda>e. if errors_Is e ErrResourceNotFound then ret 60 else fail e)
          (\<lambda>(instance2, statusInfo).
             andThen (updateFortigateUpgradeStatus cl instance2 statusInfo) (\<lambda>_. ret 0)))"

lemma ReconcileUpdate_alt:
  "ReconcileUpdate ext cl net ns name =
     orElse (kget (k_get_update cl) ''FortigateUpdate'' ns name) IgnoreNotFound (\<lambda>inst.
     andThen (kget (k_get_fgt cl) ''FortigateFirewall'' ns (fus_FortigateName (fu_Spec inst)))
       (run_update ext cl net inst))"
  unfolding ReconcileUpdate_def run_update_def by (rule refl)

lemma quiet_after_update:
  "(\<And>x. \<not> P (KStatus x)) \<Longrightarrow>
     quiet P ((\<lambda>(i, st). andThen (updateFortigateUpgradeStatus cl i st) (\<lambda>_. ret (0 :: result))) p)"
  by (cases p) (auto intro!: quiet_intros quiet_updateUpgradeStatus simp del: op_simps)

lemma logs_run_update: "quiet (\<lambda>_. False) (run_update ext cl net inst fw)"
  unfolding run_update_def
  by (intro quiet_if quiet_orElse quiet_basic logs_doReconcile quiet_after_update) simp

text \<open>C5: no image before backup and snapshot. If reconciling a \<open>FortigateUpdate\<close> sends a firmware
  image to a FortiGate, then at some point of the log before the first image there was a backup
  object and a snapshot. The backup object: if the status of the update names none, the FortiGate had
  answered the request for its configuration, and S3 had accepted this answer under a name with the
  firewall and the time, or had said that an object of this name exists; if the status names one, S3
  had said that this object exists, or had accepted an empty one in its place. So an object is there
  in any case, but it may hold nothing: if the status names a backup that has been deleted since, an
  empty object takes its place and the images are sent (the comment says that there is a backup
  wherever the procedure stops). The snapshot: a \<open>VirtualMachineSnapshot\<close>
  of the machine, named after the firewall, its version and the target, existed or its creation had
  been accepted (the code does not wait until KubeVirt has taken it).\<close>

theorem upgrade_after_backup_and_snapshot:
  assumes "c \<in> set (made (ReconcileUpdate ext cl net ns name) w)" and "is_upgrade c"
  shows "\<exists>inst fw bk w2 cs. k_get_update cl (w_log w) ns name = Inr inst \<and>
    k_get_fgt cl (w_log w @ [KGet ''FortigateUpdate'' ns name]) ns (fus_FortigateName (fu_Spec inst)) = Inr fw \<and>
    ffst_Token (ff_Status fw) \<noteq> [] \<and>
    w_log w2 = w_log w @ cs \<and> list_all (\<lambda>c. \<not> is_upgrade c) cs \<and>
    prefix (w_log w2) (w_log (snd (ReconcileUpdate ext cl net ns name w))) \<and>
    backup_at ext net w2 inst fw bk \<and>
    snapshotted cl w2 (om_Namespace (fu_Meta inst)) (fwName fw)
      (fwName fw @ ''-'' @ ffs_FortigateVersion (ff_Spec fw) @ ''-'' @ fus_NewVersion (fu_Spec inst))"
proof -
  have qi: "quiet is_upgrade (IgnoreNotFound e)" for e
    unfolding IgnoreNotFound_def by (intro quiet_intros)
  have l: "logs (andThen (kget (k_get_fgt cl) ''FortigateFirewall'' ns (fus_FortigateName (fu_Spec inst)))
      (run_update ext cl net inst))" for inst
    by (intro logsI quiet_andThen logs_run_update) simp
  obtain inst w1 where i: "kget (k_get_update cl) ''FortigateUpdate'' ns name w = (Inr inst, w1)"
    and c1: "c \<in> set (made (andThen (kget (k_get_fgt cl) ''FortigateFirewall'' ns (fus_FortigateName (fu_Spec inst)))
      (run_update ext cl net inst)) w1)"
    by (rule call_after_orElse [OF assms(1) [unfolded ReconcileUpdate_alt] assms(2) _ qi l]) auto
  obtain fw w2 where f: "kget (k_get_fgt cl) ''FortigateFirewall'' ns (fus_FortigateName (fu_Spec inst)) w1 = (Inr fw, w2)"
    and c2: "c \<in> set (made (run_update ext cl net inst fw) w2)"
    by (rule call_after [where P = is_upgrade, OF c1 assms(2) _ logsI [OF logs_run_update]]) auto
  have run: "ReconcileUpdate ext cl net ns name w = run_update ext cl net inst fw w2"
    unfolding ReconcileUpdate_alt by (simp add: orElse_def andThen_def i f)
  have tok: "ffst_Token (ff_Status fw) \<noteq> []" using c2 by (auto simp: run_update_def made_def)
  let ?do = "doReconcile ext cl net inst fw (fu_Status inst)"
  let ?err = "\<lambda>e. if errors_Is e ErrResourceNotFound then ret (60 :: result) else fail e"
  let ?k = "\<lambda>(i, st). andThen (updateFortigateUpgradeStatus cl i st) (\<lambda>_. ret (0 :: result))"
  have ru: "run_update ext cl net inst fw = orElse ?do ?err ?k" using tok by (simp add: run_update_def)
  have qe: "quiet is_upgrade (?err e)" for e by (intro quiet_if quiet_basic)
  have qk: "quiet is_upgrade (?k p)" for p by (rule quiet_after_update) simp
  from call_in_orElse [of c ?do ?err ?k w2 is_upgrade, OF c2 [unfolded ru] assms(2) qe qk logsI [OF logs_doReconcile]]
  have c3: "c \<in> set (made ?do w2)"
    and pre: "prefix (w_log (snd (?do w2))) (w_log (snd (ReconcileUpdate ext cl net ns name w)))"
    unfolding run ru by blast+
  obtain w3 r w4 cs where b: "backupForUpgradeFirewall ext cl net fw inst (fu_Status inst) w3 = (Inr r, w4)"
    and log: "w_log w4 = w_log w2 @ cs" "\<forall>c \<in> set cs. \<not> is_upgrade c"
    and pre4: "prefix (w_log w4) (w_log (snd (?do w2)))"
    by (rule upgrade_after_backup [OF c3 assms(2)])
  obtain inst2 bk snap where r: "r = (inst2, bk, snap)" by (cases r)
  note ok = backup_ok [OF b [unfolded r]]
  have "w_log w4 = w_log w @ (KGet ''FortigateUpdate'' ns name #
      KGet ''FortigateFirewall'' ns (fus_FortigateName (fu_Spec inst)) # cs)"
    using i f log(1) by (auto simp: kget_run)
  moreover have "list_all (\<lambda>c. \<not> is_upgrade c) (KGet ''FortigateUpdate'' ns name #
      KGet ''FortigateFirewall'' ns (fus_FortigateName (fu_Spec inst)) # cs)"
    using log(2) by (simp add: list_all_iff)
  moreover have "prefix (w_log w4) (w_log (snd (ReconcileUpdate ext cl net ns name w)))"
    using pre4 pre by (rule prefix_order.trans)
  moreover have "k_get_update cl (w_log w) ns name = Inr inst"
    "k_get_fgt cl (w_log w @ [KGet ''FortigateUpdate'' ns name]) ns (fus_FortigateName (fu_Spec inst)) = Inr fw"
    using i f by (auto simp: kget_run)
  ultimately show ?thesis using tok ok(1,2,3) by metis
qed

theorem upgrade_after_backup_and_snapshot_witness:
  "\<exists>w2 bk. backup_at demo_ext demo_net w2 demo_update demo_fw bk \<and> snapshotted demo_cluster w2 ''ns'' ''fw'' ''fw-7.2.0-7.4.1''"
proof -
  let ?w2 = "demo_img_world\<lparr>w_log := w_log demo_img_world @ [KGet ''FortigateUpdate'' ''ns'' ''up'',
      KGet ''FortigateFirewall'' ''ns'' ''fw'']\<rparr>"
  have cl: "k_get_update demo_cluster h ns n = Inr demo_update" "k_get_fgt demo_cluster h ns n = Inr demo_fw" for h ns n
    by (simp_all add: demo_cluster_def)
  have d: "fus_FortigateName (fu_Spec demo_update) = ''fw''" "ffst_Token (ff_Status demo_fw) \<noteq> []"
    by (simp_all add: demo_update_def demo_fw_def)
  have fs: "w_fs ?w2 = demo_img_fs" by (simp add: demo_img_world_def)
  obtain r cs where
    up: "doReconcile demo_ext demo_cluster demo_net demo_update demo_fw (fu_Status demo_update) ?w2 =
      (Inr r, ?w2\<lparr>w_log := w_log ?w2 @ cs\<rparr>)" "Http ''POST'' (upgrade_url (hostOf demo_fw)) \<in> set cs"
    using demo_upgraded [OF fs] by blast
  obtain i st where r: "r = (i, st)" by (cases r)
  have "w_log (snd (ReconcileUpdate demo_ext demo_cluster demo_net ''ns'' ''up'' demo_img_world)) =
      w_log (snd (andThen (updateFortigateUpgradeStatus demo_cluster i st) (\<lambda>_. ret (0 :: result))
        (?w2\<lparr>w_log := w_log ?w2 @ cs\<rparr>)))"
    using up(1) d by (simp add: ReconcileUpdate_alt run_update_def orElse_def andThen_def kget_run cl r)
  then have c: "Http ''POST'' (upgrade_url (hostOf demo_fw)) \<in>
      set (made (ReconcileUpdate demo_ext demo_cluster demo_net ''ns'' ''up'') demo_img_world)"
    using up(2) unfolding made_def by (simp add: andThen_def demo_status)
  have "fwName demo_fw @ ''-'' @ ffs_FortigateVersion (ff_Spec demo_fw) @ ''-'' @ fus_NewVersion (fu_Spec demo_update) =
      ''fw-7.2.0-7.4.1''" "om_Namespace (fu_Meta demo_update) = ''ns''" "fwName demo_fw = ''fw''"
    "ffs_S3BucketName (ff_Spec demo_fw) = ''bkt''" by code_simp+
  with upgrade_after_backup_and_snapshot [OF c is_upgrade_url] cl show ?thesis by auto
qed

section \<open>One image per step\<close>

lemma GetStatusByParams_ok:
  assumes "GetStatusByParams cl net ns model new cur w = (Inr ps, w')"
  obtains items tv item where "k_list_paths cl (w_log w) (Some model) = Inr items" "n_semver net new = Some tv"
    "List.find (in_range net tv) items = Some item" "ps = fup_Status item"
  using assms
  by (auto simp: GetStatusByParams_def andThen_ok wrapErr_ok ask_def split: option.splits)

lemma upgradeAlong_images:
  assumes "upgradeAlong ext cl net inst fw st ps w = (Inr r, w')"
  shows "filter is_upgrade (made (upgradeAlong ext cl net inst fw st ps) w) =
    replicate (length (tl (up_Steps (fupst_UpdatePath ps)))) (Http ''POST'' (upgrade_url (hostOf fw)))"
proof -
  let ?steps = "tl (up_Steps (fupst_UpdatePath ps))"
  from assms obtain i2 bk snap w1 i3 w2 key w3 w4 where
    b: "backupForUpgradeFirewall ext cl net fw inst st w = (Inr (i2, bk, snap), w1)"
    and u: "updateFortigateUpgradeStatus cl i2 (st\<lparr>fust_BackupName := bk\<rparr>) w1 = (Inr i3, w2)"
    and k: "getSecretValues cl (om_Namespace (fu_Meta inst)) (ffs_AWSCredentialSecretName (ff_Spec fw)) s3_keys w2 = (Inr key, w3)"
    and s: "upgradeSteps ext cl net fw (access_of key) snap ?steps w3 = (Inr (), w4)"
    and w': "w' = w4"
    by (auto simp: upgradeAlong_def andThen_ok)
  obtain c1 where 1: "w_log w1 = w_log w @ c1" "\<forall>c \<in> set c1. \<not> is_upgrade c"
    using quiet_run [OF quiet_backup b] by blast
  obtain c2 where 2: "w_log w2 = w_log w1 @ c2" "\<forall>c \<in> set c2. \<not> is_upgrade c"
    using quiet_run [OF quiet_updateUpgradeStatus [of is_upgrade] u] by auto
  have "quiet is_upgrade (getSecretValues cl (om_Namespace (fu_Meta inst)) (ffs_AWSCredentialSecretName (ff_Spec fw)) s3_keys)"
    by (rule quiet_getSecretValues) simp
  from quiet_run [OF this k] obtain c3 where 3: "w_log w3 = w_log w2 @ c3" "\<forall>c \<in> set c3. \<not> is_upgrade c" by blast
  have "w_log w4 = w_log w3 @ made (upgradeSteps ext cl net fw (access_of key) snap ?steps) w3"
    using logs_after [OF logs_upgradeSteps, of ext cl net fw "access_of key" snap ?steps w3] s by simp
  then have "made (upgradeAlong ext cl net inst fw st ps) w =
      c1 @ c2 @ c3 @ made (upgradeSteps ext cl net fw (access_of key) snap ?steps) w3"
    using assms 1(1) 2(1) 3(1) w' by (simp add: made_def)
  moreover have "filter is_upgrade c1 = []" "filter is_upgrade c2 = []" "filter is_upgrade c3 = []"
    using 1(2) 2(2) 3(2) by (simp_all add: filter_empty_conv)
  ultimately show ?thesis using upgradeSteps_ok [OF s] by simp
qed

text \<open>C12: one image per step. When an upgrade succeeds on a firewall whose version, as it answered, is
  not the target, the upgrade path used is the first one listed for its model whose range holds the
  target, and exactly one image is sent to that firewall for every step of the path but the first;
  if the version is the target already, no image is sent and nothing else is done.\<close>

theorem one_image_per_step:
  assumes "doReconcile ext cl net inst fw st w = (Inr r, w')"
  shows "\<exists>model version w1 w2.
    askFw ext net fw GETFWMODEL w = (Inr model, w1) \<and> askFw ext net fw GETFWVERSION w1 = (Inr version, w2) \<and>
    (if version = fus_NewVersion (fu_Spec inst) then r = (inst, st) \<and> w' = w2 \<and>
       filter is_upgrade (made (doReconcile ext cl net inst fw st) w) = []
     else \<exists>items tv item. k_list_paths cl (w_log w2) (Some model) = Inr items \<and>
       n_semver net (fus_NewVersion (fu_Spec inst)) = Some tv \<and>
       List.find (in_range net tv) items = Some item \<and>
       filter is_upgrade (made (doReconcile ext cl net inst fw st) w) =
         replicate (length (tl (up_Steps (fupst_UpdatePath (fup_Status item)))))
           (Http ''POST'' (upgrade_url (hostOf fw))))"
proof -
  let ?new = "fus_NewVersion (fu_Spec inst)"
  from assms obtain model w1 version w2 where
    m: "askFw ext net fw GETFWMODEL w = (Inr model, w1)" and v: "askFw ext net fw GETFWVERSION w1 = (Inr version, w2)"
    and wv: "withVersion ext cl net inst fw st model version w2 = (Inr r, w')"
    unfolding doReconcile_alt by (auto simp: andThen_ok)
  obtain c1 where 1: "w_log w1 = w_log w @ c1" "\<forall>c \<in> set c1. \<not> is_upgrade c"
    using quiet_run [OF quiet_ApiGet m] by blast
  obtain c2 where 2: "w_log w2 = w_log w1 @ c2" "\<forall>c \<in> set c2. \<not> is_upgrade c"
    using quiet_run [OF quiet_ApiGet v] by blast
  have no12: "filter is_upgrade c1 = []" "filter is_upgrade c2 = []"
    using 1(2) 2(2) by (simp_all add: filter_empty_conv)
  have made: "made (doReconcile ext cl net inst fw st) w = drop (length (w_log w)) (w_log w')"
    using assms by (simp add: made_def)
  show ?thesis
  proof (cases "version = ?new")
    case True
    with wv have "r = (inst, st) \<and> w' = w2" by (auto simp: withVersion_def)
    with made 1 2 no12 m v True show ?thesis by (intro exI [of _ model] exI [of _ version]) auto
  next
    case False
    have "orElse (GetStatusByParams cl net (om_Namespace (fu_Meta inst)) model ?new version)
        (\<lambda>e. fail (Wrapf (''nessun percorso di aggiornamento trovato per modello '' @ model) ErrResourceNotFound))
        (upgradeAlong ext cl net inst fw st) w2 = (Inr r, w')"
      using wv False by (simp only: withVersion_def if_False)
    then obtain ps w3 where g: "GetStatusByParams cl net (om_Namespace (fu_Meta inst)) model ?new version w2 = (Inr ps, w3)"
      and a: "upgradeAlong ext cl net inst fw st ps w3 = (Inr r, w')"
      by (auto simp: orElse_def split: prod.splits sum.splits if_splits)
    obtain items tv item where gi: "k_list_paths cl (w_log w2) (Some model) = Inr items" "n_semver net ?new = Some tv"
      "List.find (in_range net tv) items = Some item" "ps = fup_Status item"
      by (rule GetStatusByParams_ok [OF g])
    obtain c3 where 3: "w_log w3 = w_log w2 @ c3" "\<forall>c \<in> set c3. \<not> is_upgrade c"
      using quiet_run [OF quiet_GetStatusByParams g] by blast
    have "filter is_upgrade c3 = []" using 3(2) by (simp add: filter_empty_conv)
    moreover have "w_log w' = w_log w3 @ made (upgradeAlong ext cl net inst fw st ps) w3"
      using logs_after [OF logsI [OF logs_upgradeAlong], of ext cl net inst fw st ps w3] a by simp
    ultimately have "filter is_upgrade (made (doReconcile ext cl net inst fw st) w) =
        filter is_upgrade (made (upgradeAlong ext cl net inst fw st ps) w3)"
      using made 1(1) 2(1) 3(1) no12 by simp
    with upgradeAlong_images [OF a] gi m v False show ?thesis by auto
  qed
qed

theorem one_image_per_step_witness:
  "length (filter is_upgrade (made (doReconcile demo_ext demo_cluster demo_net demo_update demo_fw (fu_Status demo_update))
     demo_img_world)) = 2"
proof -
  obtain r cs where run: "doReconcile demo_ext demo_cluster demo_net demo_update demo_fw (fu_Status demo_update)
      demo_img_world = (Inr r, demo_img_world\<lparr>w_log := w_log demo_img_world @ cs\<rparr>)"
    using demo_upgraded [of demo_img_world] by (auto simp: demo_img_world_def)
  have find: "List.find (in_range demo_net 4) [demo_path] = Some demo_path" by code_simp
  have ver: "n_semver demo_net ''7.4.1'' = Some 4" by code_simp
  have steps: "length (up_Steps (fupst_UpdatePath (fup_Status demo_path))) = 3" by (simp add: demo_path_def)
  have d: "fus_NewVersion (fu_Spec demo_update) = ''7.4.1''" "k_list_paths demo_cluster h m = Inr [demo_path]" for h m
    by (simp_all add: demo_cluster_def demo_update_def)
  from one_image_per_step [OF run] show ?thesis
    by (auto simp: demo_asked d ver find steps simp del: List.find.simps)
qed

section \<open>Backups and paths\<close>

lemma writeS3Data_put:
  assumes "S3Put b' k' v' \<in> set (made (writeS3Data ext b k v False) w)"
  shows "b' = b \<and> k' = k \<and> v' = v \<and> (\<exists>e. x_s3_head ext (w_log w) b k = Inl e \<and> IsNotFound e) \<and>
    w_log (snd (writeS3Data ext b k v False w)) = w_log w @ [S3Head b k, S3Put b k v]"
  using assms
  by (cases "x_s3_head ext (w_log w) b k")
    (auto simp: made_def writeS3Data_def Let_def orElse_def ask_def wrapErr_def split: if_splits sum.splits)

definition is_put :: "call \<Rightarrow> bool" where
  "is_put c = (case c of S3Put b k v \<Rightarrow> True | _ \<Rightarrow> False)"

lemma put_free_request:
  "quiet is_put (andThen (wrapErr g (liftRes (prepareRequest net url token body m ct))) (\<lambda>req.
     andThen (wrapErr g' (sendRequest net req fmt)) (\<lambda>resp. andThen (liftRes (r resp)) (\<lambda>a. ret (h a)))))"
  by (rule quiet_request) (auto intro!: quiet_intros simp: is_put_def simp del: op_simps)

lemma quiet_pointwise: "(\<And>w. \<exists>m'. quiet P m' \<and> m w = m' w) \<Longrightarrow> quiet P m"
  unfolding quiet_def made_def by metis

lemma put_free_backup: "quiet is_put (backupFortigateConfig net name f inst)"
proof (rule quiet_pointwise)
  fix w
  show "\<exists>m'. quiet is_put m' \<and> backupFortigateConfig net name f inst w = m' w"
  proof (cases "fust_BackupName (fu_Status inst) = []")
    case True
    show ?thesis
      unfolding backupFortigateConfig_def Let_def if_P [OF True]
      by (intro exI conjI, rule put_free_request, rule refl)
  next
    case False
    show ?thesis
      unfolding backupFortigateConfig_def if_not_P [OF False]
      by (intro exI conjI, rule quiet_basic(1), rule refl)
  qed
qed

lemma put_free_queries: "quiet is_put (getFwVersion net f)" "quiet is_put (getFwModel net f)"
  unfolding getFwVersion_def getFwModel_def
  by (intro quiet_intros quiet_getFwStatus; simp add: is_put_def)+

lemma saveBackup_put:
  assumes "S3Put b' k' v' \<in> set (made (saveBackupToS3 ext acc k v b) w)"
  shows "b' = b \<and> k' = k \<and> v' = v \<and>
    (\<exists>h e. w_log (snd (saveBackupToS3 ext acc k v b w)) = h @ [S3Head b k, S3Put b k v] \<and>
       x_s3_head ext h b k = Inl e \<and> IsNotFound e)"
proof -
  let ?c = "wrapErr (Wrapf ''failed to create S3 client'') (createS3Client ext acc)"
  let ?wr = "wrapErr (Wrapf ''failed to write backup to S3'') (writeS3Data ext b k v False)"
  have qc: "quiet is_put ?c" by (intro quiet_wrapErr quiet_createS3Client) (simp add: is_put_def)
  have lw: "logs (andThen ?wr (\<lambda>_. ret k))" by (intro logsI quiet_andThen quiet_wrapErr quiet_writeS3Data quiet_basic) simp_all
  have put: "is_put (S3Put b' k' v')" by (simp add: is_put_def)
  obtain u w1 where c: "?c w = (Inr u, w1)" and m: "S3Put b' k' v' \<in> set (made (andThen ?wr (\<lambda>_. ret k)) w1)"
    by (rule call_after [where P = is_put, OF assms [unfolded saveBackupToS3_def] put qc lw])
  have same: "w_log (snd (andThen ?wr (\<lambda>_. ret k) w1)) = w_log (snd (writeS3Data ext b k v False w1))"
    by (simp add: andThen_def wrapErr_def split: prod.split sum.split)
  have "S3Put b' k' v' \<in> set (made (writeS3Data ext b k v False) w1)" using m same by (simp add: made_def)
  from writeS3Data_put [OF this] same c show ?thesis by (auto simp: saveBackupToS3_def andThen_def)
qed

text \<open>C22: a backup in the bucket is never overwritten. Whatever request of the REST client is made
  for a firewall, an object is put into S3 only for a backup and only right after S3 answered that
  there is no object under that name.\<close>

theorem backup_never_overwritten:
  assumes "S3Put b' k v \<in> set (made (SendCommandApiGet ext acc net n addr tok op' b inst) w)"
  shows "op' = BACKUP \<and> b' = b \<and>
    (\<exists>h e. w_log (snd (SendCommandApiGet ext acc net n addr tok op' b inst w)) = h @ [S3Head b k, S3Put b k v] \<and>
       x_s3_head ext h b k = Inl e \<and> IsNotFound e)"
proof -
  have put: "is_put (S3Put b' k v)" by (simp add: is_put_def)
  let ?f = "newFortigateClient addr tok"
  have "quiet is_put (SendCommandApiGet ext acc net n addr tok op' b inst)" if "op' \<noteq> BACKUP \<or> inst = None"
    using that unfolding SendCommandApiGet_def Let_def
    by (cases op') (auto intro!: quiet_intros put_free_queries simp del: op_simps)
  then obtain u where op: "op' = BACKUP" and u: "inst = Some u"
    using assms put unfolding quiet_def by (cases inst) blast+
  have eq: "SendCommandApiGet ext acc net n addr tok op' b inst = getFwBackup ext acc net n ?f b u"
    by (simp add: SendCommandApiGet_def op u Let_def)
  let ?k = "\<lambda>(backupContent, filename). andThen (saveBackupToS3 ext acc filename backupContent b) (\<lambda>_. ret filename)"
  have lk: "logs (?k p)" for p
    by (cases p) (auto simp: logs_quiet intro!: quiet_intros quiet_saveBackup simp del: op_simps)
  obtain p w1 where r: "backupFortigateConfig net n ?f u w = (Inr p, w1)" and c: "S3Put b' k v \<in> set (made (?k p) w1)"
    by (rule call_after [where P = is_put, OF assms [unfolded eq getFwBackup_def] put put_free_backup lk])
  obtain content name where p: "p = (content, name)" by (cases p)
  have same: "w_log (snd (?k p w1)) = w_log (snd (saveBackupToS3 ext acc name content b w1))"
    by (simp add: p andThen_def split: prod.split sum.split)
  have "S3Put b' k v \<in> set (made (saveBackupToS3 ext acc name content b) w1)" using c same by (simp add: made_def)
  from saveBackup_put [OF this] same r op show ?thesis
    unfolding eq getFwBackup_def by (auto simp: andThen_def)
qed

theorem backup_never_overwritten_witness:
  "\<exists>h e. x_s3_head demo_ext h ''bkt'' ''upgrade-backup/fw-now.conf'' = Inl e \<and> IsNotFound e"
proof -
  have "S3Put ''bkt'' ''upgrade-backup/fw-now.conf'' ''body'' \<in> set (made (SendCommandApiGet demo_ext demo_access demo_net ''fw''
      ''host'' ''tok'' BACKUP ''bkt'' (Some demo_update)) demo_world)" by code_simp
  from backup_never_overwritten [OF this] show ?thesis by blast
qed

text \<open>C26: an upgrade path is resolved once. If reconciling a \<open>FortigateUpdatePath\<close> writes a status, the
  resource is not being deleted, no other resource listed has the same model and versions, its path
  was not resolved yet, and the status says it is now, with the steps the service answered for the
  resource's model and versions; the conditions are those it had before, none is added.\<close>

theorem path_resolved_once:
  assumes "KStatus x \<in> set (made (ReconcileUpdatePath cl net ns name) w)"
  shows "\<exists>cur items w1 path w2. k_get_path cl (w_log w) ns name = Inr cur \<and> \<not> om_Deleted (fup_Meta cur) \<and>
    k_list_paths cl (w_log w @ [KGet ''FortigateUpdatePath'' ns name]) None = Inr items \<and>
    list_all (\<lambda>i. \<not> duplicates cur i) items \<and> \<not> up_PathStatusValid (fupst_UpdatePath (fup_Status cur)) \<and>
    getUpgradePath net (fups_Model (fup_Spec cur)) (fups_StartVersion (fup_Spec cur))
      (fups_NewVersion (fup_Spec cur)) w1 = (Inr path, w2) \<and>
    x = OUpdatePathStatus (om_Name (fup_Meta cur))
      \<lparr>fupst_Conditions = fupst_Conditions (fup_Status cur),
       fupst_UpdatePath = \<lparr>up_PathStatusValid = True, up_Steps = map step_of path\<rparr>\<rparr>"
proof -
  let ?c = "KStatus x" and ?kind = "''FortigateUpdatePath''"
  let ?upd = "\<lambda>cur path. andThen (updateFortigateUpdatePathStatus cl cur
      (fup_Status cur\<lparr>fupst_UpdatePath := \<lparr>up_PathStatusValid = True, up_Steps = map step_of path\<rparr>\<rparr>))
      (\<lambda>_. ret (0 :: result))"
  let ?get = "\<lambda>cur. getUpgradePath net (fups_Model (fup_Spec cur)) (fups_StartVersion (fup_Spec cur))
      (fups_NewVersion (fup_Spec cur))"
  let ?go = "\<lambda>cur items. if list_ex (duplicates cur) items then ret 0
      else if up_PathStatusValid (fupst_UpdatePath (fup_Status cur)) then ret 0
      else andThen (?get cur) (?upd cur)"
  let ?list = "ask (KList ?kind) (\<lambda>h. k_list_paths cl h None)"
  let ?live = "\<lambda>cur. if om_Deleted (fup_Meta cur) then ret (0 :: result) else andThen ?list (?go cur)"
  have alt: "ReconcileUpdatePath cl net ns name =
      orElse (kget (k_get_path cl) ?kind ns name) IgnoreNotFound ?live"
    unfolding ReconcileUpdatePath_def Let_def by (rule refl)
  have st: "is_status ?c" by (simp add: is_status_def)
  have qg: "quiet P (?get cur)" if "\<And>m u. \<not> P (Http m u)" "\<And>s. \<not> P (LookPath s)" for P cur
    unfolding getUpgradePath_def getSessionCookie_def fetchUpgradePath_def http_do_def Let_def
    by (intro quiet_intros quiet_prod quiet_option; simp add: quiet_ask that)
  have lu: "quiet (\<lambda>_. False) (?upd cur path)" for cur path
    unfolding updateFortigateUpdatePathStatus_def Let_def by (intro quiet_intros) simp
  have lgo: "quiet (\<lambda>_. False) (?go cur items)" for cur items by (intro quiet_intros qg lu) simp_all
  have ll: "logs (?live cur)" for cur by (intro logsI quiet_if quiet_basic quiet_andThen lgo) (simp add: quiet_ask)
  have qi: "quiet is_status (IgnoreNotFound e)" for e unfolding IgnoreNotFound_def by (intro quiet_intros)
  have qk: "quiet is_status (kget (k_get_path cl) ?kind ns name)" by (simp add: is_status_def)
  obtain cur w1 where g: "kget (k_get_path cl) ?kind ns name w = (Inr cur, w1)" and c1: "?c \<in> set (made (?live cur) w1)"
    by (rule call_after_orElse [OF assms [unfolded alt] st qk qi ll])
  have del: "\<not> om_Deleted (fup_Meta cur)" using c1 by (auto simp: made_def)
  with c1 have c1': "?c \<in> set (made (andThen ?list (?go cur)) w1)" by simp
  have qlist: "quiet is_status ?list" by (simp add: quiet_ask is_status_def)
  obtain items w2 where l: "?list w1 = (Inr items, w2)" and c2: "?c \<in> set (made (?go cur items) w2)"
    by (rule call_after [where P = is_status, OF c1' st qlist logsI [OF lgo]])
  have no: "\<not> list_ex (duplicates cur) items" "\<not> up_PathStatusValid (fupst_UpdatePath (fup_Status cur))"
    using c2 by (auto simp: made_def split: if_splits)
  with c2 have c2': "?c \<in> set (made (andThen (?get cur) (?upd cur)) w2)" by simp
  have qget: "quiet is_status (?get cur)" by (rule qg) (simp_all add: is_status_def)
  obtain path w3 where p: "?get cur w2 = (Inr path, w3)" and c3: "?c \<in> set (made (?upd cur path) w3)"
    by (rule call_after [where P = is_status, OF c2' st qget logsI [OF lu]])
  have "x = OUpdatePathStatus (om_Name (fup_Meta cur))
      \<lparr>fupst_Conditions = fupst_Conditions (fup_Status cur),
       fupst_UpdatePath = \<lparr>up_PathStatusValid = True, up_Steps = map step_of path\<rparr>\<rparr>"
    using c3 by (auto simp: made_def andThen_def updateFortigateUpdatePathStatus_def Let_def kdo_run split: sum.splits)
  moreover have "k_get_path cl (w_log w) ns name = Inr cur"
    "k_list_paths cl (w_log w @ [KGet ?kind ns name]) None = Inr items"
    using g l by (auto simp: kget_run ask_def)
  moreover have "list_all (\<lambda>i. \<not> duplicates cur i) items" using no(1) by (simp add: list_all_iff list_ex_iff)
  ultimately show ?thesis using del no(2) p by blast
qed

definition demo_new_path :: FortigateUpdatePath where
  "demo_new_path = demo_path\<lparr>fup_Status := \<lparr>fupst_Conditions = [],
     fupst_UpdatePath = \<lparr>up_PathStatusValid = False, up_Steps = []\<rparr>\<rparr>\<rparr>"

theorem path_resolved_once_witness:
  "\<not> up_PathStatusValid (fupst_UpdatePath (fup_Status demo_new_path)) \<and> \<not> duplicates demo_new_path demo_path"
proof -
  have "KStatus (OUpdatePathStatus ''p1'' \<lparr>fupst_Conditions = [],
      fupst_UpdatePath = \<lparr>up_PathStatusValid = True, up_Steps = []\<rparr>\<rparr>) \<in>
    set (made (ReconcileUpdatePath (demo_cluster\<lparr>k_get_path := \<lambda>h ns n. Inr demo_new_path\<rparr>) demo_net ''ns'' ''p1'')
      demo_world)" by code_simp
  from path_resolved_once [OF this] show ?thesis by (auto simp: demo_cluster_def)
qed

end
