(* ===== verification/Finalizers.thy ===== *)
theory Finalizers
  imports Controllers_Facts
begin

text \<open>
  The life of an object under the finalizer protocol, whatever the kind of the object: users create
  and delete it, other controllers add and remove their own finalizers, and the operator reconciles
  it, a reconcile being cut off after any of its calls, as when the operator is restarted.  The API
  server is the documented one: an object that is being deleted goes with its last finalizer, and an
  update that is refused changes nothing.  The locale \<open>finalizer_protocol\<close> says what a reconciler has
  to keep to, and that then nothing it left in the world outlives the object.
\<close>

section \<open>Objects and what exists for them\<close>

text \<open>
  \<open>lf_things\<close> is what may exist for the object and has not been taken down: a thing leaves the set
  when the call that takes it down is accepted.  What Kubernetes does then is not followed: a thing
  with finalizers of its own is only marked, and goes when these are gone.
\<close>

record 'x life =
  lf_meta :: "ObjectMeta option"
  lf_things :: "'x set"

text \<open>
  A subject: the object's kind and key, the finalizer of the operator, which metadata the object may
  have, what a call may leave behind and what it takes down when it succeeds, and the calls a
  reconcile may make that begins after a log and finds the object in the given state; whether a call
  succeeds is for the outside to say, as everywhere from the calls made before.
\<close>

record 'x subject =
  sj_kind :: string
  sj_namespace :: string
  sj_name :: string
  sj_finalizer :: string
  sj_self :: "ObjectMeta \<Rightarrow> bool"
  sj_adds :: "call \<Rightarrow> 'x set"
  sj_drops :: "call \<Rightarrow> 'x set"
  sj_runs :: "(call list \<Rightarrow> call \<Rightarrow> bool) \<Rightarrow> ObjectMeta option \<Rightarrow> call list \<Rightarrow> call list \<Rightarrow> bool"

definition stored_as :: "ObjectMeta \<Rightarrow> ObjectMeta option" where
  "stored_as m = (if om_Deleted m \<and> om_Finalizers m = [] then None else Some m)"

definition set_finalizers :: "string list \<Rightarrow> 'x life \<Rightarrow> 'x life" where
  "set_finalizers fs s =
     (case lf_meta s of None \<Rightarrow> s | Some m \<Rightarrow> s\<lparr>lf_meta := stored_as (m\<lparr>om_Finalizers := fs\<rparr>)\<rparr>)"

text \<open>A call that fails may have had its effect all the same, but what it takes down may remain.\<close>

definition effect :: "'x subject \<Rightarrow> bool \<Rightarrow> call \<Rightarrow> 'x life \<Rightarrow> 'x life" where
  "effect S ok c s = (case c of
       KUpdate kind ns n fs \<Rightarrow>
         if ok \<and> kind = sj_kind S \<and> ns = sj_namespace S \<and> n = sj_name S then set_finalizers fs s else s
     | _ \<Rightarrow> s\<lparr>lf_things := lf_things s \<union> sj_adds S c - (if ok then sj_drops S c else {})\<rparr>)"

text \<open>The calls \<open>cs\<close> made after the log \<open>h\<close>.\<close>

primrec replay :: "'x subject \<Rightarrow> (call list \<Rightarrow> call \<Rightarrow> bool) \<Rightarrow> call list \<Rightarrow> call list \<Rightarrow> 'x life \<Rightarrow> 'x life" where
  "replay S ok h [] s = s"
| "replay S ok h (c # cs) s = replay S ok (h @ [c]) cs (effect S (ok h c) c s)"

text \<open>One event in the life of an object.  A reconcile sees the object as it is stored.\<close>

inductive life_step :: "'x subject \<Rightarrow> 'x life \<Rightarrow> 'x life \<Rightarrow> bool" for S where
  created: "lf_meta s = None \<Longrightarrow> sj_self S m \<Longrightarrow> \<not> om_Deleted m \<Longrightarrow> life_step S s (s\<lparr>lf_meta := Some m\<rparr>)"
| deleted: "lf_meta s = Some m \<Longrightarrow> life_step S s (s\<lparr>lf_meta := stored_as (m\<lparr>om_Deleted := True\<rparr>)\<rparr>)"
| others: "lf_meta s = Some m \<Longrightarrow> sj_finalizer S \<in> set fs \<longleftrightarrow> sj_finalizer S \<in> set (om_Finalizers m) \<Longrightarrow>
     life_step S s (set_finalizers fs s)"
| reconciled: "sj_runs S ok (lf_meta s) h run \<Longrightarrow> prefix cs run \<Longrightarrow> life_step S s (replay S ok h cs s)"

inductive_cases life_stepE: "life_step S s s'"

definition nothing_yet :: "'x life" where
  "nothing_yet = \<lparr>lf_meta = None, lf_things = {}\<rparr>"

section \<open>Replaying calls\<close>

lemma replay_append: "replay S ok h (xs @ ys) s = replay S ok (h @ xs) ys (replay S ok h xs s)"
  by (induction xs arbitrary: h s) simp_all

lemma effect_meta: "\<not> is_KUpdate c \<Longrightarrow> lf_meta (effect S ok c s) = lf_meta s"
  by (cases c) (simp_all add: effect_def is_KUpdate_def)

lemma effect_things: "lf_things (effect S ok c s) \<subseteq> lf_things s \<union> (if is_KUpdate c then {} else sj_adds S c)"
  by (cases c) (auto simp: effect_def set_finalizers_def is_KUpdate_def split: option.splits)

lemma effect_KUpdate: "lf_things (effect S ok (KUpdate kind ns n fs) s) = lf_things s"
  by (simp add: effect_def set_finalizers_def split: option.split)

lemma replay_meta: "list_all (\<lambda>c. \<not> is_KUpdate c) cs \<Longrightarrow> lf_meta (replay S ok h cs s) = lf_meta s"
  by (induction cs arbitrary: h s) (simp_all add: effect_meta)

lemma replay_no_more:
  "list_all (\<lambda>c. is_KUpdate c \<or> sj_adds S c \<inter> X = {}) cs \<Longrightarrow> lf_things (replay S ok h cs s) \<inter> X \<subseteq> lf_things s"
proof (induction cs arbitrary: h s)
  case (Cons c cs)
  then show ?case using effect_things [of S "ok h c" c s] by (fastforce split: if_splits)
qed simp

section \<open>The protocol\<close>

text \<open>Calls that neither update an object nor leave anything of \<open>X\<close> behind.\<close>

definition calm :: "'x subject \<Rightarrow> 'x set \<Rightarrow> call list \<Rightarrow> bool" where
  "calm S X cs = list_all (\<lambda>c. \<not> is_KUpdate c \<and> sj_adds S c \<inter> X = {}) cs"

definition own_update :: "'x subject \<Rightarrow> string list \<Rightarrow> call" where
  "own_update S fs = KUpdate (sj_kind S) (sj_namespace S) (sj_name S) fs"

lemma calm_simps [simp]:
  "calm S X []" "calm S X (c # cs) \<longleftrightarrow> \<not> is_KUpdate c \<and> sj_adds S c \<inter> X = {} \<and> calm S X cs"
  "calm S X (cs @ ds) \<longleftrightarrow> calm S X cs \<and> calm S X ds"
  by (simp_all add: calm_def)

lemma calm_prefix: "calm S X cs \<Longrightarrow> prefix ds cs \<Longrightarrow> calm S X ds"
  by (auto simp: prefix_def)

locale finalizer_protocol =
  fixes S :: "'x subject" and owned :: "'x set"
  assumes self: "sj_self S m \<Longrightarrow> sj_self S (m\<lparr>om_Finalizers := fs\<rparr>) \<and> sj_self S (m\<lparr>om_Deleted := True\<rparr>)"
    and run_missing: "sj_runs S ok None h cs \<Longrightarrow> calm S owned cs"
    and run_live: "sj_runs S ok (Some m) h cs \<Longrightarrow> sj_self S m \<Longrightarrow> \<not> om_Deleted m \<Longrightarrow>
       (if sj_finalizer S \<in> set (om_Finalizers m) then list_all (\<lambda>c. \<not> is_KUpdate c) cs
        else calm S owned cs \<or>
          (\<exists>pre rest fs. cs = pre @ own_update S fs # rest \<and> sj_finalizer S \<in> set fs \<and> calm S owned pre \<and>
             list_all (\<lambda>c. \<not> is_KUpdate c) rest \<and> (\<not> ok (h @ pre) (own_update S fs) \<longrightarrow> rest = [])))"
    and run_deleted: "sj_runs S ok (Some m) h cs \<Longrightarrow> sj_self S m \<Longrightarrow> om_Deleted m \<Longrightarrow>
       (if sj_finalizer S \<in> set (om_Finalizers m)
        then list_all (\<lambda>c. \<not> is_KUpdate c) cs \<or>
          (\<exists>body fs. cs = body @ [own_update S fs] \<and> list_all (\<lambda>c. \<not> is_KUpdate c) body \<and>
             (\<forall>s. lf_things (replay S ok h body s) \<inter> owned = {}))
        else calm S owned cs)"
begin

text \<open>The invariant: whatever is owned belongs to a stored object that has the finalizer.\<close>

definition guarded :: "'x life \<Rightarrow> bool" where
  "guarded s \<longleftrightarrow> (\<forall>m. lf_meta s = Some m \<longrightarrow> sj_self S m) \<and>
     (lf_things s \<inter> owned \<noteq> {} \<longrightarrow> (\<exists>m. lf_meta s = Some m \<and> sj_finalizer S \<in> set (om_Finalizers m)))"

lemma guarded_calm: "guarded s \<Longrightarrow> calm S owned cs \<Longrightarrow> guarded (replay S ok h cs s)"
  using replay_no_more [of S owned cs ok h s] replay_meta [of cs S ok h s]
  by (auto simp: guarded_def calm_def list_all_iff)

lemma guarded_marked:
  assumes "guarded s" "lf_meta s = Some m" "sj_finalizer S \<in> set (om_Finalizers m)" "list_all (\<lambda>c. \<not> is_KUpdate c) cs"
  shows "guarded (replay S ok h cs s)"
  using assms by (simp add: guarded_def replay_meta)

lemma guarded_set: "guarded s \<Longrightarrow> lf_things s \<inter> owned = {} \<or> sj_finalizer S \<in> set fs \<Longrightarrow> guarded (set_finalizers fs s)"
  using self by (auto simp: guarded_def set_finalizers_def stored_as_def split: option.splits if_splits)

lemma guarded_update:
  "guarded s \<Longrightarrow> lf_things s \<inter> owned = {} \<or> sj_finalizer S \<in> set fs \<Longrightarrow> guarded (effect S b (own_update S fs) s)"
  by (simp add: effect_def own_update_def guarded_set)

lemma live_guarded:
  assumes g: "guarded s" and m: "lf_meta s = Some m" and live: "\<not> om_Deleted m"
    and run: "sj_runs S ok (Some m) h run" and cs: "prefix cs run"
  shows "guarded (replay S ok h cs s)"
proof -
  have sf: "sj_self S m" using g m by (simp add: guarded_def)
  note law = run_live [OF run sf live]
  show ?thesis
  proof (cases "sj_finalizer S \<in> set (om_Finalizers m)")
    case True
    with law cs have "list_all (\<lambda>c. \<not> is_KUpdate c) cs" by (auto simp: prefix_def)
    with g m True show ?thesis by (rule guarded_marked)
  next
    case False
    with law consider "calm S owned run" | pre rest fs where "run = pre @ own_update S fs # rest"
      "sj_finalizer S \<in> set fs" "calm S owned pre" "list_all (\<lambda>c. \<not> is_KUpdate c) rest"
      "\<not> ok (h @ pre) (own_update S fs) \<longrightarrow> rest = []" by auto
    then show ?thesis
    proof cases
      case 1
      then show ?thesis using guarded_calm [OF g calm_prefix [OF _ cs]] by simp
    next
      case 2
      let ?s1 = "replay S ok h pre s" and ?ok = "ok (h @ pre) (own_update S fs)"
      let ?s2 = "effect S ?ok (own_update S fs) ?s1"
      have g1: "guarded ?s1" by (rule guarded_calm [OF g 2(3)])
      have g2: "guarded ?s2" by (rule guarded_update [OF g1]) (simp add: 2(2))
      have m1: "lf_meta ?s1 = Some m" using 2(3) m by (simp add: replay_meta calm_def list_all_iff)
      from cs [unfolded 2(1)] consider "prefix cs pre" | ds where "cs = pre @ own_update S fs # ds" "prefix ds rest"
        by (auto simp: prefix_append prefix_Cons)
      then show ?thesis
      proof cases
        case 1
        then show ?thesis using guarded_calm [OF g calm_prefix [OF 2(3)]] by simp
      next
        case (2 ds)
        have "replay S ok h cs s = replay S ok (h @ pre @ [own_update S fs]) ds ?s2" by (simp add: 2(1) replay_append)
        moreover have "guarded (replay S ok h' ds ?s2)" for h'
        proof (cases ?ok)
          case True
          then have "lf_meta ?s2 = Some (m\<lparr>om_Finalizers := fs\<rparr>)"
            using m1 live by (simp add: effect_def own_update_def set_finalizers_def stored_as_def)
          moreover have "list_all (\<lambda>c. \<not> is_KUpdate c) ds"
            using 2(2) \<open>list_all (\<lambda>c. \<not> is_KUpdate c) rest\<close> by (auto simp: prefix_def)
          ultimately show ?thesis using guarded_marked [OF g2] \<open>sj_finalizer S \<in> set fs\<close> by simp
        next
          case False
          with 2(2) \<open>\<not> ?ok \<longrightarrow> rest = []\<close> have "ds = []" by simp
          with g2 show ?thesis by simp
        qed
        ultimately show ?thesis by simp
      qed
    qed
  qed
qed

lemma deleted_guarded:
  assumes g: "guarded s" and m: "lf_meta s = Some m" and del: "om_Deleted m"
    and run: "sj_runs S ok (Some m) h run" and cs: "prefix cs run"
  shows "guarded (replay S ok h cs s)"
proof -
  have sf: "sj_self S m" using g m by (simp add: guarded_def)
  note law = run_deleted [OF run sf del]
  show ?thesis
  proof (cases "sj_finalizer S \<in> set (om_Finalizers m)")
    case False
    with law have "calm S owned run" by simp
    then show ?thesis using guarded_calm [OF g calm_prefix [OF _ cs]] by simp
  next
    case True
    with law consider "list_all (\<lambda>c. \<not> is_KUpdate c) run"
      | body fs where "run = body @ [own_update S fs]" "list_all (\<lambda>c. \<not> is_KUpdate c) body"
          "lf_things (replay S ok h body s) \<inter> owned = {}" by auto
    then show ?thesis
    proof cases
      case 1
      with cs have "list_all (\<lambda>c. \<not> is_KUpdate c) cs" by (auto simp: prefix_def)
      with g m True show ?thesis by (rule guarded_marked)
    next
      case 2
      show ?thesis
      proof (cases "cs = run")
        case True
        have "guarded (replay S ok h body s)"
          using g 2(2,3) by (simp add: guarded_def replay_meta)
        with 2(3) show ?thesis by (simp add: True 2(1) replay_append guarded_update)
      next
        case False
        with cs 2(1) have "prefix cs body" by simp
        with 2(2) have "list_all (\<lambda>c. \<not> is_KUpdate c) cs" by (auto simp: prefix_def)
        with g m True show ?thesis by (rule guarded_marked)
      qed
    qed
  qed
qed

lemma life_step_guarded:
  assumes "life_step S s s'" and "guarded s"
  shows "guarded s'"
  using assms(1)
proof cases
  case (reconciled ok h run cs)
  show ?thesis
  proof (cases "lf_meta s")
    case None
    with reconciled(2) have "calm S owned run" by (simp add: run_missing)
    from guarded_calm [OF assms(2) calm_prefix [OF this reconciled(3)]] show ?thesis by (simp add: reconciled(1))
  next
    case (Some m)
    with reconciled live_guarded [OF assms(2) Some] deleted_guarded [OF assms(2) Some] show ?thesis
      by (cases "om_Deleted m") simp_all
  qed
next
  case (others m fs)
  have "lf_things s \<inter> owned = {} \<or> sj_finalizer S \<in> set fs" using others(2,3) assms(2) by (auto simp: guarded_def)
  with guarded_set [OF assms(2)] show ?thesis by (simp add: others(1))
qed (use assms(2) self in \<open>auto simp: guarded_def stored_as_def split: if_splits\<close>)

lemma nothing_left:
  assumes "rtranclp (life_step S) nothing_yet s" and "t \<in> lf_things s" and "t \<in> owned"
  shows "\<exists>m. lf_meta s = Some m \<and> sj_self S m \<and> sj_finalizer S \<in> set (om_Finalizers m)"
proof -
  have "guarded s"
    using assms(1)
    by (induction rule: rtranclp_induct) (auto simp: guarded_def nothing_yet_def dest: life_step_guarded [unfolded guarded_def])
  with assms(2,3) show ?thesis unfolding guarded_def by blast
qed

end

end
