(* ===== verification/Lifecycle.thy ===== *)
theory Lifecycle
  imports Finalizers Cluster_Properties
begin

text \<open>
  The life of one \<open>FortigateFirewall\<close> on the API server: the object with its finalizers, and the
  machine and the service that exist for it, as an instance of \<^theory_text>\<open>Finalizers\<close>.  A request to create may have had
  an effect even when its answer is an error; a thing is off the books once its deletion is accepted.
\<close>

section \<open>The firewall as a subject\<close>

text \<open>A kind, a namespace and a name: what a request to create may leave behind.\<close>

definition thing_of :: "kobj \<Rightarrow> (string \<times> string \<times> string) set" where
  "thing_of x = (case x of
       OVM vm \<Rightarrow> {(''VirtualMachine'', vm_Namespace vm, vm_Name vm)}
     | OService s \<Rightarrow> {(''Service'', svc_Namespace s, svc_Name s)}
     | _ \<Rightarrow> {})"

definition things_made :: "call \<Rightarrow> (string \<times> string \<times> string) set" where
  "things_made c = (case c of KCreate x \<Rightarrow> thing_of x | KApply x \<Rightarrow> thing_of x | _ \<Rightarrow> {})"

definition things_deleted :: "call \<Rightarrow> (string \<times> string \<times> string) set" where
  "things_deleted c = (case c of KDelete kind ns n \<Rightarrow> {(kind, ns, n)} | _ \<Rightarrow> {})"

text \<open>
  The reconciles of the firewall \<open>name\<close>.  Reads are fresh: what the reconcile gets is what is stored.
  With \<open>None\<close> the spec may be edited between any two reconciles; with \<open>Some v\<close> the version is \<open>v\<close> for
  the whole life.
\<close>

definition of_version :: "string option \<Rightarrow> FortigateFirewall \<Rightarrow> bool" where
  "of_version version fw \<longleftrightarrow> version = None \<or> version = Some (ffs_FortigateVersion (ff_Spec fw))"

definition firewall_runs :: "string \<Rightarrow> string \<Rightarrow> string option \<Rightarrow> (call list \<Rightarrow> call \<Rightarrow> bool) \<Rightarrow> ObjectMeta option \<Rightarrow>
    call list \<Rightarrow> call list \<Rightarrow> bool" where
  "firewall_runs ns name version ok mo h cs \<longleftrightarrow> (\<exists>n cl ext sh w. w_log w = h \<and>
     (\<forall>h c. ok h c \<longleftrightarrow> k_do cl h c = Inr ()) \<and>
     (\<forall>fw. k_get_fgt cl h ns name = Inr fw \<longrightarrow> mo = Some (ff_Meta fw) \<and> of_version version fw) \<and>
     cs = made (ReconcileFortigateFirewall n cl ext sh ns name) w)"

definition firewall_life :: "string \<Rightarrow> string \<Rightarrow> string option \<Rightarrow> (string \<times> string \<times> string) subject" where
  "firewall_life ns name version =
     \<lparr>sj_kind = ''FortigateFirewall'', sj_namespace = ns, sj_name = name, sj_finalizer = firewallFinalizer,
      sj_self = (\<lambda>m. om_Namespace m = ns \<and> om_Name m = name), sj_adds = things_made, sj_drops = things_deleted,
      sj_runs = firewall_runs ns name version\<rparr>"

lemma firewall_life_simps [simp]:
  "sj_kind (firewall_life ns name version) = ''FortigateFirewall''" "sj_namespace (firewall_life ns name version) = ns"
  "sj_name (firewall_life ns name version) = name" "sj_finalizer (firewall_life ns name version) = firewallFinalizer"
  "sj_self (firewall_life ns name version) m \<longleftrightarrow> om_Namespace m = ns \<and> om_Name m = name"
  "sj_adds (firewall_life ns name version) = things_made" "sj_drops (firewall_life ns name version) = things_deleted"
  "sj_runs (firewall_life ns name version) = firewall_runs ns name version"
  by (simp_all add: firewall_life_def)

text \<open>
  What the operator creates for a firewall and takes down again.  The name of the service has the
  version in it, so it is the firewall's only while the version is not edited.
\<close>

definition owned :: "string \<Rightarrow> string \<Rightarrow> string option \<Rightarrow> (string \<times> string \<times> string) set" where
  "owned ns name version = insert (''VirtualMachine'', ns, name)
     (case version of None \<Rightarrow> {} | Some v \<Rightarrow> {(''Service'', ns, name @ ''-'' @ v @ ''-ssh-gui'')})"

section \<open>The laws\<close>

definition creates :: "call \<Rightarrow> bool" where
  "creates c = (case c of KCreate x \<Rightarrow> True | KApply x \<Rightarrow> True | _ \<Rightarrow> False)"

lemma creates_nothing: "\<not> creates c \<Longrightarrow> things_made c = {}"
  by (cases c) (simp_all add: creates_def things_made_def)

lemma calm_firewall:
  "list_all (\<lambda>c. \<not> is_KUpdate c) cs \<Longrightarrow> list_all (\<lambda>c. \<not> creates c) cs \<Longrightarrow> calm (firewall_life ns name version) X cs"
  by (auto simp: calm_def list_all_iff creates_nothing)

lemma deletions_answered:
  assumes "deleteFirewallResources cl fw w = (Inr u, w')"
  defines "nm \<equiv> fwName fw" and "ns \<equiv> om_Namespace (ff_Meta fw)"
  defines "svc \<equiv> fwName fw @ ''-'' @ ffs_FortigateVersion (ff_Spec fw) @ ''-ssh-gui''"
  shows "k_do cl (w_log w) (KDelete ''VirtualMachine'' ns nm) = Inr ()"
    and "k_do cl (w_log w @ [KDelete ''VirtualMachine'' ns nm, KDelete ''VirtualMachineInstance'' ns nm,
            KGet ''Service'' ns svc]) (KDelete ''Service'' ns svc) = Inr ()"
  using assms(1) unfolding nm_def ns_def svc_def
  by (auto simp: deleteFirewallResources_def DeleteFortigateFirewall_def DeleteFortigateFirewallSvc_def
      Let_def andThen_ok kdo_run ask_def)

lemma deletion_calls_harmless:
  "list_all (\<lambda>c. \<not> is_KUpdate c) (deletion_calls fw)" "list_all (\<lambda>c. \<not> creates c) (deletion_calls fw)"
  by (simp_all add: deletion_calls_def Let_def list_all_iff is_KUpdate_def creates_def)

lemma deletions_take_down:
  assumes "deleteFirewallResources cl fw w = (Inr u, w')" and "\<And>h c. ok h c \<longleftrightarrow> k_do cl h c = Inr ()"
    and nm: "om_Namespace (ff_Meta fw) = ns" "fwName fw = name" "of_version version fw"
  shows "lf_things (replay (firewall_life ns name version) ok (w_log w) (deletion_calls fw) s) \<inter> owned ns name version = {}"
proof -
  let ?v = "ffs_FortigateVersion (ff_Spec fw)"
  let ?svc = "name @ ''-'' @ ?v @ ''-ssh-gui''" and ?S = "firewall_life ns name version"
  let ?four = "[KDelete ''VirtualMachine'' ns name, KDelete ''VirtualMachineInstance'' ns name,
    KGet ''Service'' ns ?svc, KDelete ''Service'' ns ?svc]"
  let ?rest = "KConfig # map (KDelete ''PersistentVolumeClaim'' ns) (pvcToDelete name ?v)"
  have calls: "deletion_calls fw = ?four @ ?rest" by (simp add: deletion_calls_def Let_def nm(1,2))
  have "lf_things (replay ?S ok (w_log w) ?four s) \<inter> owned ns name version = {}"
    using deletions_answered [OF assms(1)] by (auto simp: effect_def owned_def things_made_def things_deleted_def assms(2) nm(1,2) split: option.splits)
      (use nm(3) in \<open>auto simp: of_version_def\<close>)
  moreover have "list_all (\<lambda>c. is_KUpdate c \<or> sj_adds ?S c \<inter> owned ns name version = {}) ?rest"
    using deletion_calls_harmless(2) [of fw] by (auto simp: calls list_all_iff creates_nothing)
  from replay_no_more [OF this] have "lf_things (replay ?S ok (w_log w @ ?four) ?rest s') \<inter> owned ns name version \<subseteq> lf_things s'" for s' .
  ultimately show ?thesis unfolding calls replay_append by blast
qed

lemma quiet_creates_cleanup: "quiet creates (deleteFirewallResources cl fw)"
  unfolding deleteFirewallResources_def DeleteFortigateFirewall_def DeleteFortigateFirewallSvc_def
    DeleteFirewallPVC_def clientset_def Let_def
  by (intro quiet_intros quiet_deletePVCs; simp add: quiet_ask creates_def)

lemma made_quiet: "quiet P m \<Longrightarrow> list_all (\<lambda>c. \<not> P c) (made m w)"
  by (auto simp: quiet_def list_all_iff)

lemma not_read_firewall:
  "k_get_fgt cl (w_log w) ns name = Inl e \<Longrightarrow>
   made (ReconcileFortigateFirewall n cl ext sh ns name) w = [KGet ''FortigateFirewall'' ns name]"
  by (simp add: made_def ReconcileFortigateFirewall_def orElse_def kget_run IgnoreNotFound_def)

lemma deleted_firewall_run:
  assumes get: "k_get_fgt cl (w_log w) ns name = Inr fw" and del: "om_Deleted (ff_Meta fw)"
    and nm: "om_Namespace (ff_Meta fw) = ns" "om_Name (ff_Meta fw) = name"
    and cs_def: "cs = made (ReconcileFortigateFirewall n cl ext sh ns name) w"
  defines "w1 \<equiv> was_read w ''FortigateFirewall'' ns name"
  shows "list_all (\<lambda>c. \<not> is_KUpdate c) cs \<and> list_all (\<lambda>c. \<not> creates c) cs \<or>
    firewallFinalizer \<in> set (om_Finalizers (ff_Meta fw)) \<and> (\<exists>w2. deleteFirewallResources cl fw w1 = (Inr (), w2)) \<and>
    cs = KGet ''FortigateFirewall'' ns name # deletion_calls fw @
      [KUpdate ''FortigateFirewall'' ns name (removeAll firewallFinalizer (om_Finalizers (ff_Meta fw)))]"
proof -
  let ?f = "finalizing cl ''FortigateFirewall'' firewallFinalizer (ff_Meta fw) (deleteFirewallResources cl fw) (ret 0)"
  note run = reconcile_deleted_firewall [OF get del, of n ext sh]
  have made: "cs = KGet ''FortigateFirewall'' ns name # made ?f w1"
    unfolding cs_def w1_def by (rule made_after_read [of "ReconcileFortigateFirewall n cl ext sh ns name" w ?f, OF run
          logs_finalizing_deleted [OF del logs_deleteFirewallResources]])
  show ?thesis
  proof (cases "ContainsFinalizer (ff_Meta fw) firewallFinalizer")
    case False
    then have "made ?f w1 = []" using del by (simp add: finalizing_def)
    with made show ?thesis by (simp add: creates_def)
  next
    case fin: True
    show ?thesis
    proof (cases "deleteFirewallResources cl fw w1")
      case (Pair r w2)
      show ?thesis
      proof (cases r)
        case (Inl e)
        have "made ?f w1 = made (deleteFirewallResources cl fw) w1"
          using del fin Pair Inl by (simp add: finalizing_def made_andThen_Inl)
        with made made_quiet [OF quiet_deleteFirewallResources] made_quiet [OF quiet_creates_cleanup] show ?thesis
          by (simp add: creates_def)
      next
        case (Inr u)
        then have clean: "deleteFirewallResources cl fw w1 = (Inr (), w2)" using Pair by simp
        have "w_log (snd (?f w1)) = w_log w1 @ deletion_calls fw @
            [KUpdate ''FortigateFirewall'' ns name (removeAll firewallFinalizer (om_Finalizers (ff_Meta fw)))]"
          using finalizing_deleted_ok [of _ _ "deleteFirewallResources cl fw", OF del fin clean]
            deleteFirewallResources_ok [OF clean] nm by simp
        with made clean fin show ?thesis by (simp add: made_def ContainsFinalizer_def)
      qed
    qed
  qed
qed

lemma live_firewall_run:
  assumes get: "k_get_fgt cl (w_log w) ns name = Inr fw" and live: "\<not> om_Deleted (ff_Meta fw)"
    and nm: "om_Namespace (ff_Meta fw) = ns" "om_Name (ff_Meta fw) = name"
    and cs_def: "cs = made (ReconcileFortigateFirewall n cl ext sh ns name) w"
  defines "get \<equiv> KGet ''FortigateFirewall'' ns name"
  defines "upd \<equiv> KUpdate ''FortigateFirewall'' ns name (om_Finalizers (ff_Meta fw) @ [firewallFinalizer])"
  shows "if firewallFinalizer \<in> set (om_Finalizers (ff_Meta fw)) then list_all (\<lambda>c. \<not> is_KUpdate c) cs
    else \<exists>rest. cs = get # upd # rest \<and> list_all (\<lambda>c. \<not> is_KUpdate c) rest \<and>
      (k_do cl (w_log w @ [get]) upd \<noteq> Inr () \<longrightarrow> rest = [])"
proof (cases "ContainsFinalizer (ff_Meta fw) firewallFinalizer")
  case True
  have "cs = get # made (live_firewall n cl ext sh ns name) (was_read w ''FortigateFirewall'' ns name)"
    unfolding cs_def get_def by (rule made_after_read [of "ReconcileFortigateFirewall n cl ext sh ns name" w
          "live_firewall n cl ext sh ns name", OF reconcile_marked_firewall [OF get live True] logsI [OF logs_live_firewall]])
  with True made_quiet [OF no_update_live] show ?thesis by (simp add: ContainsFinalizer_def get_def)
next
  case False
  let ?w2 = "w\<lparr>w_log := w_log w @ [get, upd]\<rparr>"
  let ?live = "made (live_firewall n cl ext sh ns name) ?w2"
  note run = reconcile_unmarked_firewall [OF get live False, of n ext sh, folded get_def, unfolded nm, folded upd_def]
  have "cs = get # upd # (if k_do cl (w_log w @ [get]) upd = Inr () then ?live else [])"
  proof (cases "k_do cl (w_log w @ [get]) upd")
    case (Inl e)
    then show ?thesis using run by (simp add: cs_def made_def)
  next
    case (Inr u)
    have "w_log (snd (live_firewall n cl ext sh ns name ?w2)) = w_log ?w2 @ ?live"
      by (rule logs_after [OF logsI [OF logs_live_firewall]])
    then show ?thesis using run Inr by (simp add: cs_def made_def [of "ReconcileFortigateFirewall n cl ext sh ns name"])
  qed
  with False made_quiet [OF no_update_live] show ?thesis by (auto simp: ContainsFinalizer_def)
qed

lemma firewall_runsE:
  assumes "firewall_runs ns name version ok mo h cs"
  obtains "cs = [KGet ''FortigateFirewall'' ns name]"
  | n cl ext sh w fw where "w_log w = h" "\<And>h c. ok h c \<longleftrightarrow> k_do cl h c = Inr ()"
    "cs = made (ReconcileFortigateFirewall n cl ext sh ns name) w" "k_get_fgt cl (w_log w) ns name = Inr fw"
    "mo = Some (ff_Meta fw)" "of_version version fw"
proof -
  from assms obtain n cl ext sh w where r: "w_log w = h" "\<And>h c. ok h c \<longleftrightarrow> k_do cl h c = Inr ()"
    "\<And>fw. k_get_fgt cl h ns name = Inr fw \<Longrightarrow> mo = Some (ff_Meta fw) \<and> of_version version fw"
    "cs = made (ReconcileFortigateFirewall n cl ext sh ns name) w"
    unfolding firewall_runs_def by blast
  show thesis
  proof (cases "k_get_fgt cl h ns name")
    case (Inl e)
    with r that(1) not_read_firewall [of cl w ns name e n ext sh] show thesis by simp
  next
    case (Inr fw)
    with r that(2) [OF r(1,2,4)] show thesis by simp
  qed
qed

interpretation fgt_life: finalizer_protocol "firewall_life ns name version" "owned ns name version"
  for ns name version
proof (unfold_locales, unfold firewall_life_simps)
  fix m fs
  assume "om_Namespace m = ns \<and> om_Name m = name"
  then show "(om_Namespace (m\<lparr>om_Finalizers := fs\<rparr>) = ns \<and> om_Name (m\<lparr>om_Finalizers := fs\<rparr>) = name) \<and>
      om_Namespace (m\<lparr>om_Deleted := True\<rparr>) = ns \<and> om_Name (m\<lparr>om_Deleted := True\<rparr>) = name" by simp
next
  fix ok h cs
  assume "firewall_runs ns name version ok None h cs"
  then show "calm (firewall_life ns name version) (owned ns name version) cs"
    by (rule firewall_runsE) (simp_all add: things_made_def)
next
  let ?S = "firewall_life ns name version" and ?X = "owned ns name version"
  fix ok m h cs
  assume run: "firewall_runs ns name version ok (Some m) h cs" and m: "om_Namespace m = ns \<and> om_Name m = name"
    and live: "\<not> om_Deleted m"
  from run show "if firewallFinalizer \<in> set (om_Finalizers m) then list_all (\<lambda>c. \<not> is_KUpdate c) cs
      else calm ?S ?X cs \<or> (\<exists>pre rest fs. cs = pre @ own_update ?S fs # rest \<and> firewallFinalizer \<in> set fs \<and>
        calm ?S ?X pre \<and> list_all (\<lambda>c. \<not> is_KUpdate c) rest \<and> (\<not> ok (h @ pre) (own_update ?S fs) \<longrightarrow> rest = []))"
  proof (cases rule: firewall_runsE)
    case 1
    then show ?thesis by (simp add: things_made_def)
  next
    case (2 n cl ext sh w fw)
    note r = live_firewall_run [OF 2(4) _ _ _ 2(3)]
    let ?upd = "own_update ?S (om_Finalizers m @ [firewallFinalizer])"
    show ?thesis
    proof (cases "firewallFinalizer \<in> set (om_Finalizers m)")
      case True
      with r 2 m live show ?thesis by simp
    next
      case False
      with r 2 m live obtain rest where "cs = [KGet ''FortigateFirewall'' ns name] @ ?upd # rest"
        "list_all (\<lambda>c. \<not> is_KUpdate c) rest" "\<not> ok (h @ [KGet ''FortigateFirewall'' ns name]) ?upd \<longrightarrow> rest = []"
        by (auto simp: own_update_def)
      then have "\<exists>pre rest fs. cs = pre @ own_update ?S fs # rest \<and> firewallFinalizer \<in> set fs \<and>
        calm ?S ?X pre \<and> list_all (\<lambda>c. \<not> is_KUpdate c) rest \<and> (\<not> ok (h @ pre) (own_update ?S fs) \<longrightarrow> rest = [])"
        by (intro exI [of _ "[KGet ''FortigateFirewall'' ns name]"] exI [of _ rest] exI [of _ "om_Finalizers m @ [firewallFinalizer]"])
          (simp add: things_made_def)
      with False show ?thesis by simp
    qed
  qed
next
  let ?S = "firewall_life ns name version" and ?X = "owned ns name version"
  fix ok m h cs
  assume run: "firewall_runs ns name version ok (Some m) h cs" and m: "om_Namespace m = ns \<and> om_Name m = name"
    and del: "om_Deleted m"
  from run show "if firewallFinalizer \<in> set (om_Finalizers m)
      then list_all (\<lambda>c. \<not> is_KUpdate c) cs \<or> (\<exists>body fs. cs = body @ [own_update ?S fs] \<and>
        list_all (\<lambda>c. \<not> is_KUpdate c) body \<and> (\<forall>s. lf_things (replay ?S ok h body s) \<inter> ?X = {}))
      else calm ?S ?X cs"
  proof (cases rule: firewall_runsE)
    case 1
    then show ?thesis by (simp add: things_made_def)
  next
    case (2 n cl ext sh w fw)
    let ?get = "KGet ''FortigateFirewall'' ns name" and ?w1 = "was_read w ''FortigateFirewall'' ns name"
    from deleted_firewall_run [OF 2(4) _ _ _ 2(3)] 2 m del
    consider "list_all (\<lambda>c. \<not> is_KUpdate c) cs" "list_all (\<lambda>c. \<not> creates c) cs"
      | w2 where "firewallFinalizer \<in> set (om_Finalizers m)" "deleteFirewallResources cl fw ?w1 = (Inr (), w2)"
        "cs = (?get # deletion_calls fw) @ [own_update ?S (removeAll firewallFinalizer (om_Finalizers m))]"
      by (auto simp: own_update_def)
    then show ?thesis
    proof cases
      case 1
      then show ?thesis using calm_firewall by auto
    next
      case b: (2 w2)
      have nm: "om_Namespace (ff_Meta fw) = ns" "fwName fw = name" using 2(5) m by (simp_all add: fwName_def)
      have "lf_things (replay ?S ok h (?get # deletion_calls fw) s) \<inter> ?X = {}" for s
        using deletions_take_down [OF b(2) 2(2) nm 2(6)] by (simp add: was_read_def 2(1))
      with b deletion_calls_harmless(1) show ?thesis by auto
    qed
  qed
qed

section \<open>Nothing is leaked\<close>

text \<open>C4: nothing is leaked. Whatever users and other controllers do with a \<open>FortigateFirewall\<close>, edits of
  its spec included, however often the operator reconciles it and after whichever call it is
  interrupted, whatever the API server and the firewall answer: as long as its machine may exist and
  the API server has not accepted its deletion, the object is stored and carries the operator's
  finalizer; an object that is gone has had its machine deleted (KubeVirt may still be taking it
  down). The same holds of the ssh-gui service if \<open>version\<close> is given, that is for a firewall whose
  version is never edited: the name of the service has the version in it.\<close>

theorem nothing_leaks:
  assumes "rtranclp (life_step (firewall_life ns name version)) nothing_yet s"
    and "t \<in> lf_things s" and "t \<in> owned ns name version"
  shows "\<exists>m. lf_meta s = Some m \<and> om_Name m = name \<and> firewallFinalizer \<in> set (om_Finalizers m)"
  using fgt_life.nothing_left [OF assms] by auto

text \<open>
  A cluster where the disks are there and the service is refused, so that the reconcile stops once
  the machine is created.
\<close>

definition demo_refusing :: cluster where
  "demo_refusing = demo_cluster\<lparr>k_do := \<lambda>h c. case c of KApply x \<Rightarrow> Inl demo_missing | _ \<Rightarrow> Inr (),
     k_get_pvc := \<lambda>h ns n. Inr (demo_pvc ''Bound'')\<rparr>"

definition demo_machine :: VirtualMachine where
  "demo_machine = createFortigateManifest ''fw'' ''7.2.0'' ''ns'' (ff_Spec demo_fw)"

lemma created_thing:
  "KCreate x \<in> set cs \<Longrightarrow> t \<in> thing_of x \<Longrightarrow> list_all (\<lambda>c. \<not> (\<exists>k ns' n. c = KDelete k ns' n)) cs \<Longrightarrow>
   t \<in> lf_things (replay (firewall_life ns name version) ok h cs s)"
proof (induction cs rule: rev_induct)
  case (snoc c cs)
  then show ?case
    by (cases c) (auto simp: replay_append effect_def set_finalizers_def things_made_def things_deleted_def split: option.splits)
qed simp

lemma ex_calls:
  "list_all P xs \<Longrightarrow> c \<in> set xs \<Longrightarrow>
   \<exists>cs. list_all P cs \<and> c \<in> set cs \<and> w\<lparr>w_log := w_log w @ xs\<rparr> = w\<lparr>w_log := w_log w @ cs\<rparr>"
  by blast

lemma demo_machine_created:
  "\<exists>cs. list_all (\<lambda>c. \<not> (\<exists>k ns' n. c = KDelete k ns' n)) cs \<and> KCreate (OVM demo_machine) \<in> set cs \<and>
     doReconcileFirewall 1 demo_refusing demo_ssh ''ns'' demo_fw w = (Inl demo_missing, w\<lparr>w_log := w_log w @ cs\<rparr>)"
proof -
  have d: "fwName demo_fw = ''fw''" "ffs_FortigateVersion (ff_Spec demo_fw) = ''7.2.0''"
    "om_Namespace (ff_Meta demo_fw) = ''ns''" "ffs_PVCStorageClass (ff_Spec demo_fw) = ''std''"
    by (simp_all add: demo_fw_def fwName_def demo_meta_def)
  have gi: "goldenImages ''fortigate'' ''7.2.0'' = Inr (''fortigate-7.2.0-fgt'', ''fortigate-7.2.0-cloud-init'')"
    by code_simp
  have st: "stops demo_missing = False" by (simp add: stops_def demo_missing_def)
  have ph: "pvc_Phase (demo_pvc p) = p" for p by (simp add: demo_pvc_def)
  have cl: "k_get_pvc demo_refusing = (\<lambda>h ns n. Inr (demo_pvc ''Bound''))"
    "k_do demo_refusing = (\<lambda>h c. case c of KApply x \<Rightarrow> Inl demo_missing | _ \<Rightarrow> Inr ())"
    "k_get_vm demo_refusing = (\<lambda>h ns n. Inl demo_missing)"
    "k_exists demo_refusing = (\<lambda>h k ns n. if k = ''VirtualMachineSnapshot'' then Inl demo_missing else Inr ())"
    by (simp_all add: demo_refusing_def demo_cluster_def)
  show ?thesis
    by (simp add: doReconcileFirewall_def Let_def d CreateNewFortigateFirewallPVC_def createPVC_def clonePVC_def
      CheckFirewallPVC_def clientset_def createFortigateFirewall_def createFortigateService_def orElse_def
      andThen_def ignoreErr_def kget_run kdo_run ask_def gi st ph cl flip: demo_machine_def)
      (rule ex_calls, simp_all)
qed

lemma demo_live_created:
  "\<exists>cs. list_all (\<lambda>c. \<not> (\<exists>k ns' n. c = KDelete k ns' n)) cs \<and> KCreate (OVM demo_machine) \<in> set cs \<and>
     made (live_firewall 1 demo_refusing demo_ext demo_ssh ''ns'' ''fw'') w = cs"
proof -
  let ?w1 = "w\<lparr>w_log := w_log w @ [KGet ''FortigateFirewall'' ''ns'' ''fw'', KGet ''Secret'' ''ns'' ''aws'']\<rparr>"
  obtain cs where cs: "list_all (\<lambda>c. \<not> (\<exists>k ns' n. c = KDelete k ns' n)) cs" "KCreate (OVM demo_machine) \<in> set cs"
    "doReconcileFirewall 1 demo_refusing demo_ssh ''ns'' demo_fw ?w1 = (Inl demo_missing, ?w1\<lparr>w_log := w_log ?w1 @ cs\<rparr>)"
    using demo_machine_created by blast
  have cl: "k_get_fgt demo_refusing = (\<lambda>h ns n. Inr demo_fw)" "k_get_secret demo_refusing = (\<lambda>h ns n. Inr demo_secret)"
    by (simp_all add: demo_refusing_def demo_cluster_def)
  have a: "ffs_AWSCredentialSecretName (ff_Spec demo_fw) = ''aws''" by (simp add: demo_fw_def)
  have k: "pickKeys demo_secret s3_keys [] = Inr demo_secret" by code_simp
  have "made (live_firewall 1 demo_refusing demo_ext demo_ssh ''ns'' ''fw'') w =
     KGet ''FortigateFirewall'' ''ns'' ''fw'' # KGet ''Secret'' ''ns'' ''aws'' # cs"
    using cs(3)
    by (simp add: made_def live_firewall_def run_firewall_def a andThen_def kget_run cl getSecretValues_def
        wrapErr_def k)
  then show ?thesis using cs by auto
qed

theorem nothing_leaks_witness:
  "\<exists>s. rtranclp (life_step (firewall_life ''ns'' ''fw'' (Some ''7.2.0''))) nothing_yet s \<and>
     (''VirtualMachine'', ''ns'', ''fw'') \<in> lf_things s \<and>
     (\<exists>m. lf_meta s = Some m \<and> firewallFinalizer \<in> set (om_Finalizers m))"
proof -
  let ?S = "firewall_life ''ns'' ''fw'' (Some ''7.2.0'')" and ?ok = "\<lambda>h c. k_do demo_refusing h c = Inr ()"
  let ?s1 = "nothing_yet\<lparr>lf_meta := Some (ff_Meta demo_fw)\<rparr>"
  let ?R = "ReconcileFortigateFirewall 1 demo_refusing demo_ext demo_ssh ''ns'' ''fw''"
  let ?s2 = "replay ?S ?ok (w_log demo_world) (made ?R demo_world) ?s1"
  let ?up = "[KGet ''FortigateFirewall'' ''ns'' ''fw'', KUpdate ''FortigateFirewall'' ''ns'' ''fw'' [firewallFinalizer]]"
  have d: "om_Namespace (ff_Meta demo_fw) = ''ns''" "om_Name (ff_Meta demo_fw) = ''fw''" "\<not> om_Deleted (ff_Meta demo_fw)"
    "ffs_FortigateVersion (ff_Spec demo_fw) = ''7.2.0''" "om_Finalizers (ff_Meta demo_fw) = []" by code_simp+
  have g: "k_get_fgt demo_refusing h ns n = Inr demo_fw" for h ns n
    by (simp add: demo_refusing_def demo_cluster_def)
  have "life_step ?S nothing_yet ?s1" by (rule life_step.created) (simp_all add: d nothing_yet_def)
  moreover have "life_step ?S ?s1 ?s2"
  proof (rule life_step.reconciled [OF _ prefix_order.refl])
    show "sj_runs ?S ?ok (lf_meta ?s1) (w_log demo_world) (made ?R demo_world)"
      unfolding firewall_life_simps firewall_runs_def of_version_def using g d(4)
      by (intro exI [of _ 1] exI [of _ demo_refusing] exI [of _ demo_ext] exI [of _ demo_ssh] exI [of _ demo_world]) simp
  qed
  ultimately have r: "rtranclp (life_step ?S) nothing_yet ?s2"
    by (meson converse_rtranclp_into_rtranclp rtranclp.rtrancl_refl)
  obtain ds where ds: "made ?R demo_world = ds" "KCreate (OVM demo_machine) \<in> set ds"
    "list_all (\<lambda>c. \<not> (\<exists>k ns' n. c = KDelete k ns' n)) ds"
  proof -
    let ?w2 = "demo_world\<lparr>w_log := w_log demo_world @ ?up\<rparr>"
    obtain cs where cs: "list_all (\<lambda>c. \<not> (\<exists>k ns' n. c = KDelete k ns' n)) cs" "KCreate (OVM demo_machine) \<in> set cs"
      "made (live_firewall 1 demo_refusing demo_ext demo_ssh ''ns'' ''fw'') ?w2 = cs"
      using demo_live_created by blast
    have "k_do demo_refusing h (KUpdate k ns n fs) = Inr ()" for h k ns n fs by (simp add: demo_refusing_def demo_cluster_def)
    moreover have "\<not> ContainsFinalizer (ff_Meta demo_fw) firewallFinalizer" by (simp add: ContainsFinalizer_def d)
    ultimately have "?R demo_world = live_firewall 1 demo_refusing demo_ext demo_ssh ''ns'' ''fw'' ?w2"
      using reconcile_unmarked_firewall [OF g d(3), of 1 demo_ext demo_ssh] d by simp
    moreover have "w_log (snd (live_firewall 1 demo_refusing demo_ext demo_ssh ''ns'' ''fw'' ?w2)) = w_log ?w2 @ cs"
      using logs_after [OF logsI [OF logs_live_firewall]] cs(3) by metis
    ultimately have "made ?R demo_world = ?up @ cs" by (simp add: made_def)
    with cs that show ?thesis by auto
  qed
  have "(''VirtualMachine'', ''ns'', ''fw'') \<in> thing_of (OVM demo_machine)"
    by (simp add: thing_of_def demo_machine_def createFortigateManifest_def split: prod.splits)
  from created_thing [OF ds(2) this ds(3)] have t: "(''VirtualMachine'', ''ns'', ''fw'') \<in> lf_things ?s2"
    unfolding ds(1) .
  have o': "(''VirtualMachine'', ''ns'', ''fw'') \<in> owned ''ns'' ''fw'' (Some ''7.2.0'')" by (simp add: owned_def)
  from nothing_leaks [OF r t o'] r t show ?thesis by blast
qed

end
