(* ===== verification/ConfigLife.thy ===== *)
theory ConfigLife
  imports Finalizers Cluster_Properties
begin

text \<open>
  The life of one \<open>FortigateConfig\<close> and of the infrastructure OpenTofu keeps for it, as an instance of
  \<^theory_text>\<open>Finalizers\<close>: what has been applied in the working directory of the object and not
  been destroyed since.  The last part is its life after the firewall is gone.
\<close>

section \<open>The configuration as a subject\<close>

text \<open>The working directory a run of OpenTofu applies in, or destroys.\<close>

definition dirs_applied :: "call \<Rightarrow> string set" where
  "dirs_applied c = (case c of TofuApply d \<Rightarrow> {d} | _ \<Rightarrow> {})"

definition dirs_destroyed :: "call \<Rightarrow> string set" where
  "dirs_destroyed c = (case c of TofuDestroy d \<Rightarrow> {d} | _ \<Rightarrow> {})"

definition work_dir :: "string \<Rightarrow> string \<Rightarrow> string \<Rightarrow> string" where
  "work_dir fwn name uid = ''/tmp/'' @ fwn @ ''/'' @ name @ ''/'' @ uid"

text \<open>
  The reconciles of the configuration \<open>name\<close> with the identifier \<open>uid\<close>.  Reads are fresh, and the
  firewall the configuration names is the same for the whole life; everything else of the
  specification may change.  Whether \<open>tofu destroy\<close> succeeds is for the outside to say from the calls
  made before; as every call has a log of its own this leaves its answers free.
\<close>

definition config_runs :: "string \<Rightarrow> string \<Rightarrow> string \<Rightarrow> string \<Rightarrow> (call list \<Rightarrow> call \<Rightarrow> bool) \<Rightarrow> ObjectMeta option \<Rightarrow>
    call list \<Rightarrow> call list \<Rightarrow> bool" where
  "config_runs ns name uid fwn ok mo h cs \<longleftrightarrow> (\<exists>cl ext w. w_log w = h \<and>
     (\<forall>h kind ns' n fs. ok h (KUpdate kind ns' n fs) \<longleftrightarrow> k_do cl h (KUpdate kind ns' n fs) = Inr ()) \<and>
     (\<forall>h d e f. ok h (TofuDestroy d) \<longleftrightarrow> (\<exists>x. fst (x_tofu ext h e (TofuDestroy d) f) = Inr x)) \<and>
     (\<forall>cfg. k_get_config cl h ns name = Inr cfg \<longrightarrow>
        mo = Some (fc_Meta cfg) \<and> fcs_FortigateName (fc_Spec cfg) = fwn) \<and>
     (\<forall>h fw. k_get_fgt cl h ns fwn = Inr fw \<longrightarrow> fwName fw = fwn) \<and>
     cs = made (ReconcileFortigateConfig cl ext ns name) w)"

definition config_life :: "string \<Rightarrow> string \<Rightarrow> string \<Rightarrow> string \<Rightarrow> string subject" where
  "config_life ns name uid fwn =
     \<lparr>sj_kind = ''FortigateConfig'', sj_namespace = ns, sj_name = name, sj_finalizer = configFinalizer,
      sj_self = (\<lambda>m. om_Namespace m = ns \<and> om_Name m = name \<and> om_UID m = uid), sj_adds = dirs_applied,
      sj_drops = dirs_destroyed, sj_runs = config_runs ns name uid fwn\<rparr>"

lemma config_life_simps [simp]:
  "sj_kind (config_life ns name uid fwn) = ''FortigateConfig''" "sj_namespace (config_life ns name uid fwn) = ns"
  "sj_name (config_life ns name uid fwn) = name" "sj_finalizer (config_life ns name uid fwn) = configFinalizer"
  "sj_self (config_life ns name uid fwn) m \<longleftrightarrow> om_Namespace m = ns \<and> om_Name m = name \<and> om_UID m = uid"
  "sj_adds (config_life ns name uid fwn) = dirs_applied" "sj_drops (config_life ns name uid fwn) = dirs_destroyed"
  "sj_runs (config_life ns name uid fwn) = config_runs ns name uid fwn"
  by (simp_all add: config_life_def)

section \<open>The calls of a reconcile\<close>

definition alarming :: "call \<Rightarrow> bool" where
  "alarming c = (is_KUpdate c \<or> dirs_applied c \<noteq> {})"

lemma alarming_simps [simp]:
  "\<not> alarming (KGet kind ns n)" "\<not> alarming (LookPath s)" "\<not> alarming (NewTerraform d)" "\<not> alarming (TofuInit d)"
  "\<not> alarming (S3Config u k s r)" "\<not> alarming (S3List b p)" "\<not> alarming (S3Get b p)" "\<not> alarming (S3Delete b ks)"
  "\<not> alarming (TofuDestroy d)" "alarming (KUpdate kind ns n fs)"
  by (simp_all add: alarming_def dirs_applied_def is_KUpdate_def)

lemma calm_config: "list_all (\<lambda>c. \<not> alarming c) cs \<Longrightarrow> calm (config_life ns name uid fwn) X cs"
  by (auto simp: calm_def alarming_def list_all_iff)

lemma not_alarming_update: "list_all (\<lambda>c. \<not> alarming c) cs \<Longrightarrow> list_all (\<lambda>c. \<not> is_KUpdate c) cs"
  by (auto simp: alarming_def list_all_iff)

text \<open>Either a run stops before the part that matters, or it comes to it with no alarming call.\<close>

definition comes_to :: "(call \<Rightarrow> bool) \<Rightarrow> (world, 'a) op \<Rightarrow> world \<Rightarrow> (world, 'b) op \<Rightarrow> world \<Rightarrow> bool" where
  "comes_to P g w k w1 \<longleftrightarrow>
     (\<exists>pre. list_all (\<lambda>c. \<not> P c) pre \<and> made g w = pre @ made k w1 \<and> w_log w1 = w_log w @ pre)"

definition stays_clear :: "(call \<Rightarrow> bool) \<Rightarrow> (world, 'a) op \<Rightarrow> world \<Rightarrow> bool" where
  "stays_clear P g w \<longleftrightarrow> list_all (\<lambda>c. \<not> P c) (made g w)"

lemma comes_to_andThen:
  assumes "quiet P m" and "\<And>x. logs (f x)"
  shows "stays_clear P (andThen m f) w \<or> (\<exists>x w1. m w = (Inr x, w1) \<and> comes_to P (andThen m f) w (f x) w1)"
proof (cases "m w")
  case (Pair r w1)
  have q: "list_all (\<lambda>c. \<not> P c) (made m w)" using assms(1) by (auto simp: quiet_def list_all_iff)
  show ?thesis
  proof (cases r)
    case (Inl e)
    with Pair q show ?thesis by (simp add: stays_clear_def made_andThen_Inl)
  next
    case (Inr x)
    with Pair have m: "m w = (Inr x, w1)" by simp
    have l: "logs m" by (rule quiet_logs [OF assms(1)])
    from logs_after [OF l, of w] made_andThen_Inr [of m f, OF l assms(2) m] q m show ?thesis
      by (auto simp: comes_to_def)
  qed
qed

lemma comes_to_trans: "comes_to P g w k w1 \<Longrightarrow> comes_to P k w1 k' w2 \<Longrightarrow> comes_to P g w k' w2"
  unfolding comes_to_def by (metis append.assoc list_all_append)

lemma comes_to_clear: "comes_to P g w k w1 \<Longrightarrow> stays_clear P k w1 \<Longrightarrow> stays_clear P g w"
  by (auto simp: comes_to_def stays_clear_def)

lemma quiet_modifyTFFiles: "(\<And>c. terraform_call c \<Longrightarrow> \<not> P c) \<Longrightarrow> quiet P (modifyTFFiles ext cfg fw acc uuid)"
  unfolding modifyTFFiles_def runRule_def by (rule quiet_selectOperatorRule)

text \<open>What a reconcile of a live configuration does after the finalizer is in place.\<close>

definition live_config :: "cluster \<Rightarrow> external \<Rightarrow> string \<Rightarrow> FortigateConfig \<Rightarrow> FortigateFirewall \<Rightarrow> (world, result) op" where
  "live_config cl ext ns cfg fw =
     andThen (doReconcileConfig cl ext ns cfg fw) (\<lambda>statusInfo.
     andThen (updateFortigateConfigStatus cl cfg statusInfo) (\<lambda>_. ret 0))"

lemma quiet_live_config:
  assumes "\<And>c. terraform_call c \<Longrightarrow> \<not> P c" "\<And>kind ns n. \<not> P (KGet kind ns n)" "\<And>x. \<not> P (KStatus x)" "\<And>b k. \<not> P (S3Get b k)"
  shows "quiet P (live_config cl ext ns cfg fw)"
  unfolding live_config_def doReconcileConfig_def updateFortigateConfigStatus_def
  by (intro quiet_intros quiet_getS3Credentials quiet_prepare quiet_modifyTFFiles assms) (simp_all add: assms)

lemma terraform_no_update: "terraform_call c \<Longrightarrow> \<not> is_KUpdate c"
  by (cases c) (simp_all add: terraform_call_def is_tofu_def)

lemma no_update_live_config: "quiet is_KUpdate (live_config cl ext ns cfg fw)"
  by (rule quiet_live_config) (auto dest: terraform_no_update simp: is_KUpdate_def)

definition finalizing_config :: "cluster \<Rightarrow> external \<Rightarrow> string \<Rightarrow> FortigateConfig \<Rightarrow> FortigateFirewall \<Rightarrow> s3access \<Rightarrow>
    string \<Rightarrow> (world, result) op" where
  "finalizing_config cl ext ns cfg fw acc uuid =
     finalizing cl ''FortigateConfig'' configFinalizer (fc_Meta cfg) (deleteConfigResources ext cfg fw acc uuid)
       (live_config cl ext ns cfg fw)"

lemma logs_finalizing_config: "logs (finalizing_config cl ext ns cfg fw acc uuid)"
proof (rule logsI)
  have "quiet (\<lambda>_. False) (deleteConfigResources ext cfg fw acc uuid)"
    using logs_deleteConfigResources by (simp add: logs_quiet)
  moreover have "quiet (\<lambda>_. False) (live_config cl ext ns cfg fw)" by (rule quiet_live_config) simp_all
  ultimately show "quiet (\<lambda>_. False) (finalizing_config cl ext ns cfg fw acc uuid)"
    unfolding finalizing_config_def finalizing_def UpdateFinalizers_def by (intro quiet_intros) simp_all
qed

lemma config_run:
  assumes "k_get_config cl (w_log w) ns name = Inr cfg"
    and P: "\<And>kind ns n. \<not> P (KGet kind ns n)" "\<And>b k. \<not> P (S3Get b k)" "\<And>u k s r. \<not> P (S3Config u k s r)" "\<And>b p. \<not> P (S3List b p)"
  shows "stays_clear P (ReconcileFortigateConfig cl ext ns name) w \<or>
    (\<exists>h fw acc w1. k_get_fgt cl h ns (fcs_FortigateName (fc_Spec cfg)) = Inr fw \<and>
       comes_to P (ReconcileFortigateConfig cl ext ns name) w
         (finalizing_config cl ext ns cfg fw acc (om_UID (fc_Meta cfg))) w1)"
proof -
  let ?R = "ReconcileFortigateConfig cl ext ns name" and ?w0 = "was_read w ''FortigateConfig'' ns name"
  let ?fwn = "fcs_FortigateName (fc_Spec cfg)"
  let ?p = "\<lambda>fw acc. andThen (prepareTerraformEnvironment ext cfg fw acc) (finalizing_config cl ext ns cfg fw acc)"
  let ?s = "\<lambda>fw. andThen (getS3CredentialsFromSecret cl fw ns) (?p fw)"
  let ?g = "andThen (kget (k_get_fgt cl) ''FortigateFirewall'' ns ?fwn) ?s"
  have run: "?R w = ?g ?w0"
    unfolding ReconcileFortigateConfig_def finalizing_config_def live_config_def
    by (simp add: orElse_def kget_run assms(1) was_read_def)
  note lf = logs_finalizing_config [unfolded logs_quiet]
  have lp: "logs (?p fw acc)" for fw acc
    unfolding logs_quiet by (intro quiet_andThen quiet_prepare lf) simp_all
  have ls: "logs (?s fw)" for fw
    unfolding logs_quiet by (intro quiet_andThen quiet_getS3Credentials lp [unfolded logs_quiet]) simp
  have lg: "logs ?g" unfolding logs_quiet by (intro quiet_andThen ls [unfolded logs_quiet]) simp
  have c0: "comes_to P ?R w ?g ?w0"
    unfolding comes_to_def using made_after_read [of ?R w ?g, OF run lg]
    by (intro exI [of _ "[KGet ''FortigateConfig'' ns name]"]) (simp add: was_read_def P)
  show ?thesis
  proof (cases "stays_clear P ?R w")
    case False
    with comes_to_clear [OF c0] comes_to_andThen [where P = P and m = "kget (k_get_fgt cl) ''FortigateFirewall'' ns ?fwn" and f = ?s and w = ?w0] ls P(1)
    obtain fw w1 where fw: "kget (k_get_fgt cl) ''FortigateFirewall'' ns ?fwn ?w0 = (Inr fw, w1)"
      and 1: "comes_to P ?g ?w0 (?s fw) w1" by auto
    note c1 = comes_to_trans [OF c0 1]
    have "quiet P (getS3CredentialsFromSecret cl fw ns)" by (rule quiet_getS3Credentials) (rule P)
    from comes_to_andThen [where f = "?p fw", OF this lp, where w = w1] False comes_to_clear [OF c1]
    obtain acc w2 where 2: "comes_to P (?s fw) w1 (?p fw acc) w2" by auto
    note c2 = comes_to_trans [OF c1 2]
    have "quiet P (prepareTerraformEnvironment ext cfg fw acc)" by (rule quiet_prepare) (rule P)+
    from comes_to_andThen [where f = "finalizing_config cl ext ns cfg fw acc", OF this logs_finalizing_config, where w = w2] False comes_to_clear [OF c2]
    obtain uuid w3 where u: "prepareTerraformEnvironment ext cfg fw acc w2 = (Inr uuid, w3)"
      and 3: "comes_to P (?p fw acc) w2 (finalizing_config cl ext ns cfg fw acc uuid) w3" by blast
    from comes_to_trans [OF c2 3] prepare_uuid [OF u] fw show ?thesis by (auto simp: kget_run)
  qed simp
qed

text \<open>
  Without its firewall a configuration is not reconciled at all, not even to be released: a deleted
  configuration whose firewall is gone stays.
\<close>

lemma config_needs_firewall:
  assumes "k_get_config cl (w_log w) ns name = Inr cfg"
    and "k_get_fgt cl (w_log w @ [KGet ''FortigateConfig'' ns name]) ns (fcs_FortigateName (fc_Spec cfg)) = Inl e"
  shows "ReconcileFortigateConfig cl ext ns name w = (Inl e, w\<lparr>w_log := w_log w @
    [KGet ''FortigateConfig'' ns name, KGet ''FortigateFirewall'' ns (fcs_FortigateName (fc_Spec cfg))]\<rparr>)"
  using assms by (simp add: ReconcileFortigateConfig_def orElse_def kget_run andThen_def)

section \<open>What the clean-up takes down\<close>

lemma applyRule_dir: "applyRule ext t dir cfg fw w = (Inr tf, w') \<Longrightarrow> tf = dir"
  by (erule applyRule_ok) (auto simp: copyTerraformFiles_def createNewTerraform_def andThen_ok)

lemma runRule_destroys:
  assumes "runRule ext cfg fw acc uuid False w = (Inr (), w')"
  obtains w1 x w2 where "tofu ext (TofuDestroy (base_dir cfg fw uuid)) w1 = (Inr x, w2)" "prefix (w_log w) (w_log w1)"
    "deleteS3Dir ext (ffs_S3BucketName (ff_Spec fw)) (fwName fw @ ''/'' @ uuid) acc w2 = (Inr (), w')"
proof -
  let ?t = "fcs_TerraformTemplateS3Key (fc_Spec cfg)" and ?d = "base_dir cfg fw uuid"
  let ?ip = "ssh_gui_host (fwName fw) (ffs_FortigateVersion (ff_Spec fw)) (om_Namespace (fc_Meta cfg))"
  from assms obtain tf w0 mods w1 w2 where a: "applyRule ext ?t ?d cfg fw w = (Inr tf, w0)"
    and m: "common_step ?d (ffst_Token (ff_Status fw)) ?ip cfg fw acc uuid (CurrentOperatorConfig (w_reg w0)) w0 = (Inr mods, w1)"
    and t: "deleteTerraform ext tf cfg fw acc uuid w1 = (Inr (), w2)"
    and s: "deleteS3Dir ext (ffs_S3BucketName (ff_Spec fw)) (fwName fw @ ''/'' @ uuid) acc w2 = (Inr (), w')"
    unfolding runRule_def selectOperatorRule_alt by (auto simp: andThen_ok getReg_def after_rule_def wrapErr_ok)
  from t obtain tf' w3 x where i: "initTerraform ext tf cfg uuid fw acc w1 = (Inr tf', w3)"
    and d: "tofu ext (TofuDestroy tf') w3 = (Inr x, w2)"
    by (auto simp: deleteTerraform_def andThen_ok)
  have "logs (applyRule ext ?t ?d cfg fw)" by (intro logsI quiet_applyRule_gen) simp_all
  from logs_prefix [OF this a] logs_prefix [OF logsI [OF quiet_common_step] m]
    logs_prefix [OF logsI [OF quiet_initTerraform] i]
  have "prefix (w_log w) (w_log w3)" by (meson prefix_order.trans)
  with that d s initTerraform_result [OF i] applyRule_dir [OF a] show thesis by simp
qed

lemma cleanup_destroys:
  assumes "deleteConfigResources ext cfg fw acc uuid w = (Inr (), w')"
  obtains a b e f x where "made (deleteConfigResources ext cfg fw acc uuid) w = a @ TofuDestroy (base_dir cfg fw uuid) # b"
    "list_all (\<lambda>c. \<not> alarming c) b" "fst (x_tofu ext (w_log w @ a) e (TofuDestroy (base_dir cfg fw uuid)) f) = Inr x"
proof -
  let ?c = "TofuDestroy (base_dir cfg fw uuid)"
  from assms obtain w0 where m: "modifyTFFiles ext cfg fw acc uuid w = (Inr (), w0)"
    and r: "runRule ext cfg fw acc uuid False w0 = (Inr (), w')"
    by (auto simp: deleteConfigResources_def andThen_ok)
  from r obtain w1 x w2 where d: "tofu ext ?c w1 = (Inr x, w2)" and p: "prefix (w_log w0) (w_log w1)"
    and s: "deleteS3Dir ext (ffs_S3BucketName (ff_Spec fw)) (fwName fw @ ''/'' @ uuid) acc w2 = (Inr (), w')"
    by (rule runRule_destroys)
  have "logs (modifyTFFiles ext cfg fw acc uuid)" by (rule logsI [OF quiet_modifyTFFiles]) simp
  from logs_prefix [OF this m] p have "prefix (w_log w) (w_log w1)" by (rule prefix_order.trans)
  then obtain a where a: "w_log w1 = w_log w @ a" by (auto simp: prefix_def)
  have "quiet alarming (deleteS3Dir ext (ffs_S3BucketName (ff_Spec fw)) (fwName fw @ ''/'' @ uuid) acc)"
    by (rule quiet_deleteS3Dir) simp_all
  from quietE [OF this, of w2] s obtain b where b: "w_log w' = w_log w2 @ b" "list_all (\<lambda>c. \<not> alarming c) b"
    by (auto simp: list_all_iff)
  have "made (deleteConfigResources ext cfg fw acc uuid) w = a @ ?c # b"
    using assms tofu_log [OF d] a b by (simp add: made_def)
  moreover from d have "fst (x_tofu ext (w_log w @ a) (w_environ w1) ?c (w_fs w1)) = Inr x"
    by (simp add: tofu_def a split: prod.splits)
  ultimately show thesis using that b(2) by blast
qed

section \<open>The laws\<close>

lemma base_dir_work: "fwName fw = fwn \<Longrightarrow> fcName cfg = name \<Longrightarrow> base_dir cfg fw uid = work_dir fwn name uid"
  by (simp add: base_dir_def work_dir_def)

lemma live_config_run:
  assumes "\<not> om_Deleted (fc_Meta cfg)" and cs_def: "cs = made (finalizing_config cl ext ns cfg fw acc uuid) w"
  defines "upd \<equiv> KUpdate ''FortigateConfig'' (om_Namespace (fc_Meta cfg)) (fcName cfg) (om_Finalizers (fc_Meta cfg) @ [configFinalizer])"
  shows "if configFinalizer \<in> set (om_Finalizers (fc_Meta cfg)) then list_all (\<lambda>c. \<not> is_KUpdate c) cs
    else \<exists>rest. cs = upd # rest \<and> list_all (\<lambda>c. \<not> is_KUpdate c) rest \<and> (k_do cl (w_log w) upd \<noteq> Inr () \<longrightarrow> rest = [])"
proof (cases "configFinalizer \<in> set (om_Finalizers (fc_Meta cfg))")
  case True
  then have "cs = made (live_config cl ext ns cfg fw) w"
    using assms(1) by (simp add: cs_def finalizing_config_def finalizing_def ContainsFinalizer_def)
  with True no_update_live_config [of cl ext ns cfg fw] show ?thesis by (auto simp: quiet_def list_all_iff)
next
  case False
  let ?live = "made (live_config cl ext ns cfg fw) (w\<lparr>w_log := w_log w @ [upd]\<rparr>)"
  have fin: "cs = made (andThen (kdo cl upd) (\<lambda>_. live_config cl ext ns cfg fw)) w"
    using assms(1) False
    by (simp add: cs_def finalizing_config_def finalizing_def ContainsFinalizer_def UpdateFinalizers_def upd_def fcName_def)
  have "cs = upd # (if k_do cl (w_log w) upd = Inr () then ?live else [])"
  proof (cases "k_do cl (w_log w) upd")
    case (Inl e)
    then show ?thesis unfolding fin by (simp add: made_andThen_Inl kdo_run)
  next
    case (Inr u)
    have "logs (kdo cl upd)" "logs (live_config cl ext ns cfg fw)"
      by (intro logsI; simp) (rule quiet_logs [OF no_update_live_config])
    from made_andThen_Inr [of _ "\<lambda>_. live_config cl ext ns cfg fw", OF this] Inr show ?thesis
      unfolding fin by (simp add: kdo_run)
  qed
  with False no_update_live_config [of cl ext ns cfg fw] show ?thesis by (auto simp: quiet_def list_all_iff)
qed

lemma deleted_config_run:
  assumes "om_Deleted (fc_Meta cfg)" and cs_def: "cs = made (finalizing_config cl ext ns cfg fw acc uuid) w"
  defines "upd \<equiv> KUpdate ''FortigateConfig'' (om_Namespace (fc_Meta cfg)) (fcName cfg)
      (removeAll configFinalizer (om_Finalizers (fc_Meta cfg)))"
  shows "if configFinalizer \<in> set (om_Finalizers (fc_Meta cfg))
    then list_all (\<lambda>c. \<not> is_KUpdate c) cs \<or> (\<exists>w'. deleteConfigResources ext cfg fw acc uuid w = (Inr (), w') \<and>
      cs = made (deleteConfigResources ext cfg fw acc uuid) w @ [upd])
    else cs = []"
proof (cases "configFinalizer \<in> set (om_Finalizers (fc_Meta cfg))")
  case False
  then show ?thesis using assms(1) by (simp add: cs_def finalizing_config_def finalizing_def ContainsFinalizer_def)
next
  case True
  let ?del = "deleteConfigResources ext cfg fw acc uuid"
  have fin: "cs = made (andThen ?del (\<lambda>_. andThen (kdo cl upd) (\<lambda>_. ret (0 :: result)))) w"
    using assms(1) True
    by (simp add: cs_def finalizing_config_def finalizing_def ContainsFinalizer_def UpdateFinalizers_def upd_def fcName_def)
  show ?thesis
  proof (cases "?del w")
    case (Pair r w')
    show ?thesis
    proof (cases r)
      case (Inl e)
      with Pair have "cs = made ?del w" unfolding fin by (simp add: made_andThen_Inl)
      with True quiet_deleteConfigResources [of ext cfg fw acc uuid] show ?thesis by (auto simp: quiet_def list_all_iff)
    next
      case (Inr u)
      have l: "logs (andThen (kdo cl upd) (\<lambda>_. ret (0 :: result)))" by (intro logsI quiet_intros) simp
      have "made (andThen (kdo cl upd) (\<lambda>_. ret (0 :: result))) w' = [upd]"
        by (simp add: made_def andThen_def kdo_run split: sum.split)
      with made_andThen_Inr [of ?del "\<lambda>_. andThen (kdo cl upd) (\<lambda>_. ret 0)", OF logs_deleteConfigResources l] Pair Inr True
      show ?thesis unfolding fin by simp
    qed
  qed
qed

lemma config_runsE:
  assumes "config_runs ns name uid fwn ok mo h cs"
  obtains "list_all (\<lambda>c. \<not> alarming c) cs"
  | cl ext cfg fw acc w1 pre where
    "\<And>h kind ns' n fs. ok h (KUpdate kind ns' n fs) \<longleftrightarrow> k_do cl h (KUpdate kind ns' n fs) = Inr ()"
    "\<And>h d e f. ok h (TofuDestroy d) \<longleftrightarrow> (\<exists>x. fst (x_tofu ext h e (TofuDestroy d) f) = Inr x)"
    "mo = Some (fc_Meta cfg)" "fwName fw = fwn" "list_all (\<lambda>c. \<not> alarming c) pre" "w_log w1 = h @ pre"
    "cs = pre @ made (finalizing_config cl ext ns cfg fw acc (om_UID (fc_Meta cfg))) w1"
proof -
  from assms obtain cl ext w where r: "w_log w = h"
    "\<And>h kind ns' n fs. ok h (KUpdate kind ns' n fs) \<longleftrightarrow> k_do cl h (KUpdate kind ns' n fs) = Inr ()"
    "\<And>h d e f. ok h (TofuDestroy d) \<longleftrightarrow> (\<exists>x. fst (x_tofu ext h e (TofuDestroy d) f) = Inr x)"
    "\<And>cfg. k_get_config cl h ns name = Inr cfg \<Longrightarrow> mo = Some (fc_Meta cfg) \<and> fcs_FortigateName (fc_Spec cfg) = fwn"
    "\<And>h fw. k_get_fgt cl h ns fwn = Inr fw \<Longrightarrow> fwName fw = fwn"
    "cs = made (ReconcileFortigateConfig cl ext ns name) w"
    unfolding config_runs_def by blast
  show thesis
  proof (cases "k_get_config cl h ns name")
    case (Inl e)
    then have "cs = [KGet ''FortigateConfig'' ns name]"
      using r(1,6) by (simp add: made_def ReconcileFortigateConfig_def orElse_def kget_run IgnoreNotFound_def)
    with that(1) show thesis by simp
  next
    case (Inr cfg)
    show thesis
    proof (cases "list_all (\<lambda>c. \<not> alarming c) cs")
      case True
      then show thesis by (rule that(1))
    next
      case False
      with config_run [of cl w ns name cfg alarming ext] Inr r(1,4,6) obtain h' fw acc w1 where
        f: "k_get_fgt cl h' ns fwn = Inr fw" and c: "comes_to alarming (ReconcileFortigateConfig cl ext ns name) w
           (finalizing_config cl ext ns cfg fw acc (om_UID (fc_Meta cfg))) w1"
        by (auto simp: stays_clear_def)
      from c obtain pre where "list_all (\<lambda>c. \<not> alarming c) pre" "w_log w1 = h @ pre"
        "cs = pre @ made (finalizing_config cl ext ns cfg fw acc (om_UID (fc_Meta cfg))) w1"
        by (auto simp: comes_to_def r(1,6))
      with that(2) [OF r(2,3) conjunct1 [OF r(4) [OF Inr]] r(5) [OF f]] show thesis by blast
    qed
  qed
qed

interpretation fc_life: finalizer_protocol "config_life ns name uid fwn" "{work_dir fwn name uid}"
  for ns name uid fwn
proof (unfold_locales, unfold config_life_simps)
  fix m fs
  assume "om_Namespace m = ns \<and> om_Name m = name \<and> om_UID m = uid"
  then show "(om_Namespace (m\<lparr>om_Finalizers := fs\<rparr>) = ns \<and> om_Name (m\<lparr>om_Finalizers := fs\<rparr>) = name \<and>
        om_UID (m\<lparr>om_Finalizers := fs\<rparr>) = uid) \<and>
      om_Namespace (m\<lparr>om_Deleted := True\<rparr>) = ns \<and> om_Name (m\<lparr>om_Deleted := True\<rparr>) = name \<and>
      om_UID (m\<lparr>om_Deleted := True\<rparr>) = uid" by simp
next
  fix ok h cs
  assume "config_runs ns name uid fwn ok None h cs"
  then show "calm (config_life ns name uid fwn) {work_dir fwn name uid} cs"
    by (rule config_runsE) (simp_all add: calm_config)
next
  let ?S = "config_life ns name uid fwn" and ?X = "{work_dir fwn name uid}"
  fix ok m h cs
  assume run: "config_runs ns name uid fwn ok (Some m) h cs"
    and m: "om_Namespace m = ns \<and> om_Name m = name \<and> om_UID m = uid" and live: "\<not> om_Deleted m"
  from run show "if configFinalizer \<in> set (om_Finalizers m) then list_all (\<lambda>c. \<not> is_KUpdate c) cs
      else calm ?S ?X cs \<or> (\<exists>pre rest fs. cs = pre @ own_update ?S fs # rest \<and> configFinalizer \<in> set fs \<and>
        calm ?S ?X pre \<and> list_all (\<lambda>c. \<not> is_KUpdate c) rest \<and> (\<not> ok (h @ pre) (own_update ?S fs) \<longrightarrow> rest = []))"
  proof (cases rule: config_runsE)
    case 1
    then show ?thesis using calm_config not_alarming_update by auto
  next
    case (2 cl ext cfg fw acc w1 pre)
    have d: "\<not> om_Deleted (fc_Meta cfg)" using 2(3) live by simp
    note r = live_config_run [OF d refl, of cl ext ns fw acc "om_UID (fc_Meta cfg)" w1]
    let ?fs = "om_Finalizers m @ [configFinalizer]"
    show ?thesis
    proof (cases "configFinalizer \<in> set (om_Finalizers m)")
      case True
      with r 2(3,5,7) not_alarming_update show ?thesis by simp
    next
      case False
      with r 2 m obtain rest where "cs = pre @ own_update ?S ?fs # rest" "list_all (\<lambda>c. \<not> is_KUpdate c) rest"
        "\<not> ok (h @ pre) (own_update ?S ?fs) \<longrightarrow> rest = []"
        by (auto simp: own_update_def fcName_def)
      with calm_config [OF 2(5)] have "\<exists>pre rest fs. cs = pre @ own_update ?S fs # rest \<and> configFinalizer \<in> set fs \<and>
        calm ?S ?X pre \<and> list_all (\<lambda>c. \<not> is_KUpdate c) rest \<and> (\<not> ok (h @ pre) (own_update ?S fs) \<longrightarrow> rest = [])"
        by (intro exI [of _ pre] exI [of _ rest] exI [of _ ?fs]) simp
      with False show ?thesis by simp
    qed
  qed
next
  let ?S = "config_life ns name uid fwn" and ?X = "{work_dir fwn name uid}"
  fix ok m h cs
  assume run: "config_runs ns name uid fwn ok (Some m) h cs"
    and m: "om_Namespace m = ns \<and> om_Name m = name \<and> om_UID m = uid" and del: "om_Deleted m"
  from run show "if configFinalizer \<in> set (om_Finalizers m)
      then list_all (\<lambda>c. \<not> is_KUpdate c) cs \<or> (\<exists>body fs. cs = body @ [own_update ?S fs] \<and>
        list_all (\<lambda>c. \<not> is_KUpdate c) body \<and> (\<forall>s. lf_things (replay ?S ok h body s) \<inter> ?X = {}))
      else calm ?S ?X cs"
  proof (cases rule: config_runsE)
    case 1
    then show ?thesis using calm_config not_alarming_update by auto
  next
    case (2 cl ext cfg fw acc w1 pre)
    have d: "om_Deleted (fc_Meta cfg)" using 2(3) del by simp
    let ?del = "deleteConfigResources ext cfg fw acc uid" and ?upd = "own_update ?S (removeAll configFinalizer (om_Finalizers m))"
    have dir: "base_dir cfg fw uid = work_dir fwn name uid" using 2(3,4) m by (simp add: base_dir_work fcName_def)
    from deleted_config_run [OF d refl, of cl ext ns fw acc uid w1] 2 m not_alarming_update [OF 2(5)]
    consider "configFinalizer \<notin> set (om_Finalizers m)" "cs = pre"
      | "configFinalizer \<in> set (om_Finalizers m)" "list_all (\<lambda>c. \<not> is_KUpdate c) cs"
      | w' where "configFinalizer \<in> set (om_Finalizers m)" "?del w1 = (Inr (), w')" "cs = pre @ made ?del w1 @ [?upd]"
      by (auto simp: own_update_def fcName_def split: if_splits)
    then show ?thesis
    proof cases
      case 1
      with calm_config [OF 2(5)] show ?thesis by simp
    next
      case 2
      then show ?thesis by simp
    next
      case c: (3 w')
      obtain a b e f x where b: "made ?del w1 = a @ TofuDestroy (work_dir fwn name uid) # b" "list_all (\<lambda>c. \<not> alarming c) b"
        "fst (x_tofu ext (w_log w1 @ a) e (TofuDestroy (work_dir fwn name uid)) f) = Inr x"
        using cleanup_destroys [OF c(2)] unfolding dir by blast
      have ok: "ok (h @ pre @ a) (TofuDestroy (work_dir fwn name uid))" 
        using 2(2) [of _ _ e f] b(3) by (simp add: 2(6))
      have sub: "lf_things (replay ?S ok h' b s) \<inter> ?X \<subseteq> lf_things s" for h' s
        by (rule replay_no_more) (use b(2) in \<open>auto simp: alarming_def list_all_iff\<close>)
      have "lf_things (effect ?S True (TofuDestroy (work_dir fwn name uid)) s) \<inter> ?X = {}" for s
        by (simp add: effect_def dirs_applied_def dirs_destroyed_def)
      with sub have "lf_things (replay ?S ok h (pre @ made ?del w1) s) \<inter> ?X = {}" for s
        unfolding b(1) replay_append replay.simps using ok by fastforce
      moreover have "list_all (\<lambda>c. \<not> is_KUpdate c) (pre @ made ?del w1)"
        using not_alarming_update [OF 2(5)] quiet_deleteConfigResources [of ext cfg fw acc uid]
        by (auto simp: quiet_def list_all_iff)
      moreover have "cs = (pre @ made ?del w1) @ [?upd]" using c(3) by simp
      ultimately have "\<exists>body fs. cs = body @ [own_update ?S fs] \<and> list_all (\<lambda>c. \<not> is_KUpdate c) body \<and>
        (\<forall>s. lf_things (replay ?S ok h body s) \<inter> ?X = {})" by blast
      with c(1) show ?thesis by simp
    qed
  qed
qed

section \<open>Infrastructure is never orphaned\<close>

text \<open>C6: infrastructure is never orphaned, as long as the firewall a \<open>FortigateConfig\<close> names is not
  edited. Under this condition, whatever users and other controllers do with the object and however
  the rest of its specification changes, however often the operator reconciles it and after whichever
  call it is interrupted, whatever S3, OpenTofu and the API server answer: as long as OpenTofu has
  applied something in the working directory of the object that it has not destroyed since, the object
  is stored and carries the operator's finalizer; an object that is gone has left no infrastructure
  behind. (Without the condition it fails: the working directory and the key of the state have the
  firewall's name in them, so an object moved to another firewall destroys the wrong state.)\<close>

theorem infrastructure_never_orphaned:
  assumes "rtranclp (life_step (config_life ns name uid fwn)) nothing_yet s"
    and "work_dir fwn name uid \<in> lf_things s"
  shows "\<exists>m. lf_meta s = Some m \<and> om_Name m = name \<and> configFinalizer \<in> set (om_Finalizers m)"
  using fc_life.nothing_left [OF assms] by auto

text \<open>
  The same life once the firewall is gone: every read of it fails.
\<close>

definition firewall_gone :: "string \<Rightarrow> string \<Rightarrow> string \<Rightarrow> (call list \<Rightarrow> call \<Rightarrow> bool) \<Rightarrow> ObjectMeta option \<Rightarrow>
    call list \<Rightarrow> call list \<Rightarrow> bool" where
  "firewall_gone ns name fwn ok mo h cs \<longleftrightarrow> (\<exists>cl ext w. w_log w = h \<and>
     (\<forall>cfg. k_get_config cl h ns name = Inr cfg \<longrightarrow> fcs_FortigateName (fc_Spec cfg) = fwn) \<and>
     (\<forall>h. \<exists>e. k_get_fgt cl h ns fwn = Inl e) \<and>
     cs = made (ReconcileFortigateConfig cl ext ns name) w)"

definition abandoned_config :: "string \<Rightarrow> string \<Rightarrow> string \<Rightarrow> string \<Rightarrow> string subject" where
  "abandoned_config ns name uid fwn = (config_life ns name uid fwn)\<lparr>sj_runs := firewall_gone ns name fwn\<rparr>"

lemma abandoned_config_simps [simp]:
  "sj_finalizer (abandoned_config ns name uid fwn) = configFinalizer"
  "sj_adds (abandoned_config ns name uid fwn) = dirs_applied" "sj_drops (abandoned_config ns name uid fwn) = dirs_destroyed"
  "sj_runs (abandoned_config ns name uid fwn) = firewall_gone ns name fwn"
  by (simp_all add: abandoned_config_def config_life_def)

lemma firewall_gone_reads:
  assumes "firewall_gone ns name fwn ok mo h run" and "prefix cs run"
  shows "\<forall>c \<in> set cs. \<exists>kind n. c = KGet kind ns n"
proof -
  from assms(1) obtain cl ext w where r: "w_log w = h" "run = made (ReconcileFortigateConfig cl ext ns name) w"
    "\<And>cfg. k_get_config cl h ns name = Inr cfg \<Longrightarrow> fcs_FortigateName (fc_Spec cfg) = fwn"
    "\<And>h. \<exists>e. k_get_fgt cl h ns fwn = Inl e"
    unfolding firewall_gone_def by blast
  have "run = [KGet ''FortigateConfig'' ns name] \<or>
      run = [KGet ''FortigateConfig'' ns name, KGet ''FortigateFirewall'' ns fwn]"
  proof (cases "k_get_config cl h ns name")
    case (Inl e)
    then show ?thesis using r(1,2) by (simp add: made_def ReconcileFortigateConfig_def orElse_def kget_run IgnoreNotFound_def)
  next
    case (Inr cfg)
    obtain e where "k_get_fgt cl (w_log w @ [KGet ''FortigateConfig'' ns name]) ns fwn = Inl e" using r(4) by blast
    with config_needs_firewall [of cl w ns name cfg e ext] Inr r(1-3) show ?thesis by (simp add: made_def)
  qed
  with assms(2) show ?thesis by (auto simp: prefix_Cons)
qed

lemma replay_reads: "\<forall>c \<in> set cs. \<exists>kind n. c = KGet kind ns n \<Longrightarrow> sj_adds S = dirs_applied \<Longrightarrow> sj_drops S = dirs_destroyed \<Longrightarrow>
    replay S ok h cs s = s"
  by (induction cs arbitrary: h s) (auto simp: effect_def dirs_applied_def dirs_destroyed_def)

text \<open>C7: a configuration cannot be taken down without its firewall. The reconcile reads the firewall
  before it looks at the deletion. So once the \<open>FortigateFirewall\<close> is gone, a \<open>FortigateConfig\<close> that
  has the finalizer keeps it, whatever users and other controllers do and however often the operator
  reconciles: a deleted one stays, and what OpenTofu applied for it is exactly what it was.\<close>

theorem stuck_without_firewall:
  assumes "rtranclp (life_step (abandoned_config ns name uid fwn)) s s'"
    and "lf_meta s = Some m" and "configFinalizer \<in> set (om_Finalizers m)"
  shows "lf_things s' = lf_things s \<and> (\<exists>m'. lf_meta s' = Some m' \<and> configFinalizer \<in> set (om_Finalizers m') \<and>
    (om_Deleted m \<longrightarrow> om_Deleted m'))"
  using assms(1)
proof (induction rule: rtranclp_induct)
  case base
  with assms(2,3) show ?case by simp
next
  case (step s1 s2)
  then obtain m1 where m1: "lf_meta s1 = Some m1" "configFinalizer \<in> set (om_Finalizers m1)" "om_Deleted m \<longrightarrow> om_Deleted m1"
    and t: "lf_things s1 = lf_things s" by blast
  from step.hyps(2) show ?case
  proof cases
    case (reconciled ok h run cs)
    from firewall_gone_reads [of ns name fwn ok "lf_meta s1" h run cs] reconciled(2,3)
    have "s2 = s1" unfolding reconciled(1) by (intro replay_reads [of cs ns]) simp_all
    with m1 t show ?thesis by simp
  qed (use m1 t in \<open>auto simp: stored_as_def set_finalizers_def\<close>)
qed

lemma applied_dir:
  "TofuApply d \<in> set cs \<Longrightarrow> list_all (\<lambda>c. \<not> (\<exists>d'. c = TofuDestroy d')) cs \<Longrightarrow>
   d \<in> lf_things (replay (config_life ns name uid fwn) ok h cs s)"
proof (induction cs rule: rev_induct)
  case (snoc c cs)
  then show ?case
    by (cases c) (auto simp: replay_append effect_def set_finalizers_def dirs_applied_def dirs_destroyed_def split: option.splits)
qed simp

definition destroys :: "call \<Rightarrow> bool" where
  "destroys c = (case c of TofuDestroy d \<Rightarrow> True | _ \<Rightarrow> False)"

text \<open>A reconcile of a live configuration destroys nothing.\<close>

lemma live_never_destroys:
  assumes "k_get_config cl (w_log w) ns name = Inr cfg" and "\<not> om_Deleted (fc_Meta cfg)"
  shows "list_all (\<lambda>c. \<not> destroys c) (made (ReconcileFortigateConfig cl ext ns name) w)"
proof -
  have "quiet destroys (modifyTFFiles ext cfg fw acc uuid)" for fw acc uuid
    unfolding modifyTFFiles_def runRule_def selectOperatorRule_alt after_rule_def execTerraform_def if_True
    by (intro quiet_intros quiet_applyRule_gen quiet_common_step quiet_initTerraform quiet_applyTerraform)
      (simp_all add: destroys_def)
  then have "quiet destroys (live_config cl ext ns cfg fw)" for fw
    unfolding live_config_def doReconcileConfig_def updateFortigateConfigStatus_def
    by (intro quiet_intros quiet_getS3Credentials quiet_prepare) (simp_all add: destroys_def)
  then have "quiet destroys (finalizing_config cl ext ns cfg fw acc uuid)" for fw acc uuid
    using assms(2) unfolding finalizing_config_def finalizing_def UpdateFinalizers_def
    by (auto intro!: quiet_intros simp: destroys_def simp del: op_simps)
  then have "stays_clear destroys (finalizing_config cl ext ns cfg fw acc uuid) w1" for fw acc uuid w1
    by (auto simp: stays_clear_def quiet_def list_all_iff)
  with config_run [OF assms(1), of destroys ext] have "stays_clear destroys (ReconcileFortigateConfig cl ext ns name) w"
    using comes_to_clear by (auto simp: destroys_def) blast
  then show ?thesis by (simp add: stays_clear_def)
qed

theorem infrastructure_never_orphaned_witness:
  "\<exists>s. rtranclp (life_step (config_life ''ns'' ''cr1'' ''u1'' ''fw'')) nothing_yet s \<and>
     ''/tmp/fw/cr1/u1'' \<in> lf_things s \<and> (\<exists>m. lf_meta s = Some m \<and> configFinalizer \<in> set (om_Finalizers m))"
proof -
  let ?S = "config_life ''ns'' ''cr1'' ''u1'' ''fw''" and ?R = "ReconcileFortigateConfig demo_cluster demo_ext ''ns'' ''cr1''"
  let ?s1 = "nothing_yet\<lparr>lf_meta := Some (fc_Meta demo_cfg)\<rparr>"
  let ?s2 = "replay ?S (\<lambda>h c. True) (w_log demo_world) (made ?R demo_world) ?s1"
  have d: "om_Namespace (fc_Meta demo_cfg) = ''ns''" "om_Name (fc_Meta demo_cfg) = ''cr1''" "om_UID (fc_Meta demo_cfg) = ''u1''"
    "\<not> om_Deleted (fc_Meta demo_cfg)" "fcs_FortigateName (fc_Spec demo_cfg) = ''fw''" "fwName demo_fw = ''fw''" by code_simp+
  have "life_step ?S nothing_yet ?s1" by (rule life_step.created) (simp_all add: d nothing_yet_def)
  moreover have "life_step ?S ?s1 ?s2"
  proof (rule life_step.reconciled [OF _ prefix_order.refl])
    show "sj_runs ?S (\<lambda>h c. True) (lf_meta ?s1) (w_log demo_world) (made ?R demo_world)"
      unfolding config_life_simps config_runs_def
      by (intro exI [of _ demo_cluster] exI [of _ demo_ext] exI [of _ demo_world])
        (auto simp: d demo_cluster_def demo_ext_def)
  qed
  ultimately have r: "rtranclp (life_step ?S) nothing_yet ?s2"
    by (meson converse_rtranclp_into_rtranclp rtranclp.rtrancl_refl)
  have "TofuApply ''/tmp/fw/cr1/u1'' \<in> set (made ?R demo_world)" by code_simp
  moreover have "list_all (\<lambda>c. \<not> destroys c) (made ?R demo_world)"
    by (rule live_never_destroys [OF _ d(4)]) (simp add: demo_cluster_def)
  ultimately have t: "''/tmp/fw/cr1/u1'' \<in> lf_things ?s2"
    by (intro applied_dir) (auto simp: list_all_iff destroys_def)
  then have "work_dir ''fw'' ''cr1'' ''u1'' \<in> lf_things ?s2" by (simp add: work_dir_def)
  from infrastructure_never_orphaned [OF r this] r t show ?thesis by blast
qed

theorem stuck_without_firewall_witness:
  "\<exists>s'. rtranclp (life_step (abandoned_config ''ns'' ''cr1'' ''u1'' ''fw''))
      \<lparr>lf_meta = Some (demo_gone configFinalizer (fc_Meta demo_cfg)), lf_things = {''/tmp/fw/cr1/u1''}\<rparr> s' \<and>
     lf_things s' = {''/tmp/fw/cr1/u1''} \<and> (\<exists>m. lf_meta s' = Some m \<and> om_Deleted m)"
proof -
  let ?S = "abandoned_config ''ns'' ''cr1'' ''u1'' ''fw''"
  let ?s = "\<lparr>lf_meta = Some (demo_gone configFinalizer (fc_Meta demo_cfg)), lf_things = {''/tmp/fw/cr1/u1''}\<rparr>"
  let ?cl = "demo_gone_cluster\<lparr>k_get_fgt := \<lambda>h ns n. Inl demo_missing\<rparr>"
  let ?run = "made (ReconcileFortigateConfig ?cl demo_ext ''ns'' ''cr1'') demo_world"
  have "firewall_gone ''ns'' ''cr1'' ''fw'' (\<lambda>h c. True) (lf_meta ?s) (w_log demo_world) ?run"
    unfolding firewall_gone_def
    by (intro exI [of _ ?cl] exI [of _ demo_ext] exI [of _ demo_world]) (auto simp: demo_gone_cluster_def demo_cfg_def)
  then have "life_step ?S ?s (replay ?S (\<lambda>h c. True) (w_log demo_world) ?run ?s)"
    by (intro life_step.reconciled [OF _ prefix_order.refl]) simp
  then have r: "rtranclp (life_step ?S) ?s (replay ?S (\<lambda>h c. True) (w_log demo_world) ?run ?s)" by (rule r_into_rtranclp)
  have m: "lf_meta ?s = Some (demo_gone configFinalizer (fc_Meta demo_cfg))" by simp
  have "configFinalizer \<in> set (om_Finalizers (demo_gone configFinalizer (fc_Meta demo_cfg)))"
    "om_Deleted (demo_gone configFinalizer (fc_Meta demo_cfg))" by (simp_all add: demo_gone_def)
  with stuck_without_firewall [OF r m] r show ?thesis by auto
qed

end
