(* ===== verification/Server.thy ===== *)
theory Server
  imports Cluster_Properties
begin

text \<open>
  A working API server: a store of objects that is changed by the calls of the log, and answers to
  reads, creations and deletions that follow from it; a deletion that is accepted takes the object
  away, finalizers of machines and claims are not followed.  It is an instance of the parameter
  \<open>cluster\<close>, on which the controllers are run as a whole: what a reconcile leaves on the server,
  whether a second one changes anything, and whether a deletion ever comes to its end.
\<close>

section \<open>The store\<close>

type_synonym key = "string \<times> string"

record server =
  sv_fgts :: "key \<Rightarrow> FortigateFirewall option"
  sv_vms :: "key \<Rightarrow> VirtualMachine option"
  sv_claims :: "key \<Rightarrow> PersistentVolumeClaim option"
  sv_services :: "key \<Rightarrow> Service option"
  sv_secrets :: "key \<Rightarrow> ((string, string) gomap) option"
  sv_classes :: "string \<Rightarrow> bool"

definition not_found :: goerr where
  "not_found = External True ''not found''"

definition already_exists :: goerr where
  "already_exists = External False ''already exists''"

definition stored :: "'a option \<Rightarrow> 'a res" where
  "stored x = (case x of None \<Rightarrow> Inl not_found | Some y \<Rightarrow> Inr y)"

definition present :: "'a option \<Rightarrow> unit res" where
  "present x = (case x of None \<Rightarrow> Inl not_found | Some y \<Rightarrow> Inr ())"

definition fresh :: "'a option \<Rightarrow> unit res" where
  "fresh x = (case x of None \<Rightarrow> Inr () | Some y \<Rightarrow> Inl already_exists)"

text \<open>An object that is being deleted goes with its last finalizer.\<close>

definition with_finalizers :: "string list \<Rightarrow> FortigateFirewall \<Rightarrow> FortigateFirewall option" where
  "with_finalizers fs fw =
     (if om_Deleted (ff_Meta fw) \<and> fs = [] then None
      else Some (fw\<lparr>ff_Meta := (ff_Meta fw)\<lparr>om_Finalizers := fs\<rparr>\<rparr>))"

definition vm_key :: "VirtualMachine \<Rightarrow> key" where
  "vm_key vm = (vm_Namespace vm, vm_Name vm)"

definition pvc_key :: "PersistentVolumeClaim \<Rightarrow> key" where
  "pvc_key p = (pvc_Namespace p, pvc_Name p)"

definition svc_key :: "Service \<Rightarrow> key" where
  "svc_key x = (svc_Namespace x, svc_Name x)"

definition commit :: "call \<Rightarrow> server \<Rightarrow> server" where
  "commit c s = (case c of
       KCreate (OVM vm) \<Rightarrow>
         if sv_vms s (vm_key vm) = None then s\<lparr>sv_vms := (sv_vms s)(vm_key vm := Some vm)\<rparr> else s
     | KCreate (OPVC p) \<Rightarrow>
         if sv_claims s (pvc_key p) = None then s\<lparr>sv_claims := (sv_claims s)(pvc_key p := Some p)\<rparr> else s
     | KPatch (OVM vm) \<Rightarrow>
         if sv_vms s (vm_key vm) = None then s else s\<lparr>sv_vms := (sv_vms s)(vm_key vm := Some vm)\<rparr>
     | KApply (OService x) \<Rightarrow> s\<lparr>sv_services := (sv_services s)(svc_key x := Some x)\<rparr>
     | KDelete kind ns n \<Rightarrow>
         if kind = ''VirtualMachine'' then s\<lparr>sv_vms := (sv_vms s)((ns, n) := None)\<rparr>
         else if kind = ''Service'' then s\<lparr>sv_services := (sv_services s)((ns, n) := None)\<rparr>
         else if kind = ''PersistentVolumeClaim'' then s\<lparr>sv_claims := (sv_claims s)((ns, n) := None)\<rparr>
         else s
     | KUpdate kind ns n fs \<Rightarrow>
         if kind = ''FortigateFirewall'' then
           s\<lparr>sv_fgts := (sv_fgts s)((ns, n) := Option.bind (sv_fgts s (ns, n)) (with_finalizers fs))\<rparr>
         else s
     | _ \<Rightarrow> s)"

text \<open>The store after the calls of a log.\<close>

definition after :: "server \<Rightarrow> call list \<Rightarrow> server" where
  "after s0 h = foldl (\<lambda>s c. commit c s) s0 h"

lemma after_simps [simp]:
  "after s0 [] = s0" "after s0 (h @ [c]) = commit c (after s0 h)"
  "after s0 (h @ c # cs) = after (commit c (after s0 h)) cs" "after s0 (c # cs) = after (commit c s0) cs"
  by (simp_all add: after_def)

lemma after_append: "after s0 (h @ cs) = after (after s0 h) cs"
  by (simp add: after_def)

section \<open>The server as a cluster\<close>

text \<open>
  \<open>rest\<close> answers what the store does not hold: the objects of other kinds, machine instances,
  status updates, restarts, the configuration of the client.  \<open>phase\<close> is the phase the storage
  provisioner has brought a claim to.
\<close>

definition verdict :: "cluster \<Rightarrow> call list \<Rightarrow> server \<Rightarrow> call \<Rightarrow> unit res" where
  "verdict rest h s c = (case c of
       KCreate (OVM vm) \<Rightarrow> fresh (sv_vms s (vm_key vm))
     | KCreate (OPVC p) \<Rightarrow> fresh (sv_claims s (pvc_key p))
     | KPatch (OVM vm) \<Rightarrow> present (sv_vms s (vm_key vm))
     | KApply (OService x) \<Rightarrow> Inr ()
     | KDelete kind ns n \<Rightarrow>
         if kind = ''VirtualMachine'' then present (sv_vms s (ns, n))
         else if kind = ''Service'' then present (sv_services s (ns, n))
         else if kind = ''PersistentVolumeClaim'' then present (sv_claims s (ns, n))
         else k_do rest h c
     | KUpdate kind ns n fs \<Rightarrow>
         if kind = ''FortigateFirewall'' then present (sv_fgts s (ns, n)) else k_do rest h c
     | _ \<Rightarrow> k_do rest h c)"

definition served :: "cluster \<Rightarrow> (call list \<Rightarrow> string \<Rightarrow> string \<Rightarrow> string) \<Rightarrow> server \<Rightarrow> cluster" where
  "served rest phase s0 = rest\<lparr>
     k_get_fgt := \<lambda>h ns n. stored (sv_fgts (after s0 h) (ns, n)),
     k_get_secret := \<lambda>h ns n. stored (sv_secrets (after s0 h) (ns, n)),
     k_get_vm := \<lambda>h ns n. stored (sv_vms (after s0 h) (ns, n)),
     k_get_pvc := \<lambda>h ns n. map_sum (\<lambda>e. e) (\<lambda>p. p\<lparr>pvc_Phase := phase h ns n\<rparr>) (stored (sv_claims (after s0 h) (ns, n))),
     k_exists := \<lambda>h kind ns n.
       if kind = ''StorageClass'' then (if sv_classes (after s0 h) n then Inr () else Inl not_found)
       else if kind = ''Service'' then present (sv_services (after s0 h) (ns, n))
       else k_exists rest h kind ns n,
     k_do := \<lambda>h c. verdict rest h (after s0 h) c\<rparr>"

lemma served_simps [simp]:
  "k_get_fgt (served rest phase s0) h ns n = stored (sv_fgts (after s0 h) (ns, n))"
  "k_get_secret (served rest phase s0) h ns n = stored (sv_secrets (after s0 h) (ns, n))"
  "k_get_vm (served rest phase s0) h ns n = stored (sv_vms (after s0 h) (ns, n))"
  "k_get_pvc (served rest phase s0) h ns n =
     map_sum (\<lambda>e. e) (\<lambda>p. p\<lparr>pvc_Phase := phase h ns n\<rparr>) (stored (sv_claims (after s0 h) (ns, n)))"
  "k_do (served rest phase s0) h c = verdict rest h (after s0 h) c"
  "k_exists (served rest phase s0) h ''StorageClass'' ns n =
     (if sv_classes (after s0 h) n then Inr () else Inl not_found)"
  "k_exists (served rest phase s0) h ''Service'' ns n = present (sv_services (after s0 h) (ns, n))"
  by (simp_all add: served_def)

lemma stops_store [simp]: "\<not> stops not_found" "\<not> stops already_exists" "IsNotFound not_found"
  by (simp_all add: stops_def not_found_def already_exists_def IsNotFound_def)

lemma stored_simps [simp]:
  "stored None = Inl not_found" "stored (Some x) = Inr x" "present None = Inl not_found"
  "present (Some x) = Inr ()" "fresh None = Inr ()" "fresh (Some x) = Inl already_exists"
  by (simp_all add: stored_def present_def fresh_def)

section \<open>What an operation does to the store\<close>

text \<open>
  \<open>does s0 I Q m s r t\<close>: run when the store (which began as \<open>s0\<close>) is \<open>s\<close> and the file system is in
  \<open>I\<close>, the operation \<open>m\<close> returns \<open>r\<close>, makes only calls in \<open>Q\<close>, changes nothing locally and leaves
  the store as \<open>t\<close>.
\<close>

definition does :: "server \<Rightarrow> (fs \<Rightarrow> bool) \<Rightarrow> (call \<Rightarrow> bool) \<Rightarrow> (world, 'a) op \<Rightarrow> server \<Rightarrow> 'a res \<Rightarrow> server \<Rightarrow>
    bool" where
  "does s0 I Q m s r t \<longleftrightarrow> (\<forall>w. after s0 (w_log w) = s \<longrightarrow> I (w_fs w) \<longrightarrow>
     (\<exists>cs. m w = (r, w\<lparr>w_log := w_log w @ cs\<rparr>) \<and> after s cs = t \<and> list_all Q cs))"

lemma doesI:
  "(\<And>w. after s0 (w_log w) = s \<Longrightarrow> I (w_fs w) \<Longrightarrow>
     \<exists>cs. m w = (r, w\<lparr>w_log := w_log w @ cs\<rparr>) \<and> after s cs = t \<and> list_all Q cs) \<Longrightarrow> does s0 I Q m s r t"
  by (simp add: does_def)

lemma doesE:
  assumes "does s0 I Q m s r t" and "after s0 (w_log w) = s" and "I (w_fs w)"
  obtains cs where "m w = (r, w\<lparr>w_log := w_log w @ cs\<rparr>)" "after s cs = t" "list_all Q cs"
  using assms unfolding does_def by blast

lemma does_ret: "does s0 I Q (ret x) s (Inr x) s"
  by (rule doesI) (auto intro: exI [of _ "[]"])

lemma does_fail: "does s0 I Q (fail e) s (Inl e) s"
  by (rule doesI) (auto intro: exI [of _ "[]"])

lemma does_liftRes: "does s0 I Q (liftRes r) s r s"
  by (rule doesI) (auto simp: liftRes_def intro!: exI [of _ "[]"])

lemma does_seq:
  assumes "does s0 I Q m s r t" and "does s0 I Q k t r' u" and "\<And>w w1. m w = (r, w1) \<Longrightarrow> g w = k w1"
  shows "does s0 I Q g s r' u"
proof (rule doesI)
  fix w :: world
  assume w: "after s0 (w_log w) = s" "I (w_fs w)"
  with assms(1) obtain cs where m: "m w = (r, w\<lparr>w_log := w_log w @ cs\<rparr>)" and t: "after s cs = t" "list_all Q cs"
    by (rule doesE)
  let ?w1 = "w\<lparr>w_log := w_log w @ cs\<rparr>"
  have "after s0 (w_log ?w1) = t" "I (w_fs ?w1)" using w t by (simp_all add: after_append)
  with assms(2) obtain ds where k: "k ?w1 = (r', ?w1\<lparr>w_log := w_log ?w1 @ ds\<rparr>)" and u: "after t ds = u" "list_all Q ds"
    by (rule doesE)
  have "g w = (r', w\<lparr>w_log := w_log w @ cs @ ds\<rparr>)" using assms(3) [OF m] k by simp
  with t u show "\<exists>cs. g w = (r', w\<lparr>w_log := w_log w @ cs\<rparr>) \<and> after s cs = u \<and> list_all Q cs"
    by (intro exI [of _ "cs @ ds"]) (simp add: after_append)
qed

lemma does_andThen: "does s0 I Q m s (Inr x) t \<Longrightarrow> does s0 I Q (f x) t r u \<Longrightarrow> does s0 I Q (andThen m f) s r u"
  by (erule does_seq, assumption) (simp add: andThen_Inr)

lemma does_orElse: "does s0 I Q m s (Inr x) t \<Longrightarrow> does s0 I Q (f x) t r u \<Longrightarrow> does s0 I Q (orElse m g f) s r u"
  by (erule does_seq, assumption) (simp add: orElse_def)

lemma does_orElse_err:
  "does s0 I Q m s (Inl e) t \<Longrightarrow> \<not> stops e \<Longrightarrow> does s0 I Q (g e) t r u \<Longrightarrow> does s0 I Q (orElse m g f) s r u"
  by (rule does_seq [of s0 I Q m s "Inl e" t "g e"]) (simp_all add: orElse_def)

lemma does_andThen_err: "does s0 I Q m s (Inl e) t \<Longrightarrow> does s0 I Q (andThen m f) s (Inl e) t"
  by (erule does_seq, rule does_fail) (simp add: andThen_Inl)

lemma does_ignoreErr: "does s0 I Q m s (Inr x) t \<Longrightarrow> does s0 I Q (ignoreErr m) s (Inr ()) t"
  by (erule does_seq, rule does_ret) (simp add: ignoreErr_def)

lemma does_wrapErr: "does s0 I Q m s (Inr x) t \<Longrightarrow> does s0 I Q (wrapErr g m) s (Inr x) t"
  by (erule does_seq, rule does_ret) (simp add: wrapErr_def)

lemma does_ask:
  "(\<And>h. after s0 h = s \<Longrightarrow> f h = r) \<Longrightarrow> commit c s = t \<Longrightarrow> Q c \<Longrightarrow> does s0 I Q (ask c f) s r t"
  by (rule doesI) (auto simp: ask_def intro!: exI [of _ "[c]"])

lemma does_kget:
  "(\<And>h. after s0 h = s \<Longrightarrow> f h ns n = r) \<Longrightarrow> Q (KGet kind ns n) \<Longrightarrow> does s0 I Q (kget f kind ns n) s r s"
  unfolding kget_def by (rule does_ask) (auto simp: commit_def)

lemma does_kdo:
  "(\<And>h. after s0 h = s \<Longrightarrow> k_do cl h c = r) \<Longrightarrow> commit c s = t \<Longrightarrow> Q c \<Longrightarrow> does s0 I Q (kdo cl c) s r t"
  unfolding kdo_def by (rule does_ask)

lemma does_onFs: "(\<And>f. I f \<Longrightarrow> m f = (r, f)) \<Longrightarrow> does s0 I Q (onFs m) s r s"
  by (rule doesI) (auto simp: onFs_def intro!: exI [of _ "[]"])

section \<open>Volume claims\<close>

definition cloned :: "string \<Rightarrow> string \<Rightarrow> string \<Rightarrow> string \<Rightarrow> server \<Rightarrow> server" where
  "cloned source target ns sc s =
     (if sv_claims s (ns, target) = None
      then s\<lparr>sv_claims := (sv_claims s)((ns, target) := Some
             \<lparr>pvc_Name = target, pvc_Namespace = ns, pvc_StorageClass = sc, pvc_AccessModes = [''ReadWriteOnce''],
              pvc_Storage = (case sv_claims s (ns, source) of None \<Rightarrow> [] | Some p \<Rightarrow> pvc_Storage p),
              pvc_DataSource = source, pvc_Phase = []\<rparr>)\<rparr>
      else s)"

text \<open>Reading objects and the configuration, and waiting.\<close>

definition onlooking :: "call \<Rightarrow> bool" where
  "onlooking c = (case c of KGet k ns n \<Rightarrow> True | KConfig \<Rightarrow> True | Sleep t \<Rightarrow> True | _ \<Rightarrow> False)"

definition reads :: "(call \<Rightarrow> bool) \<Rightarrow> bool" where
  "reads Q \<longleftrightarrow> (\<forall>c. onlooking c \<longrightarrow> Q c)"

lemma readsD [simp]:
  "reads Q \<Longrightarrow> Q (KGet k ns n)" "reads Q \<Longrightarrow> Q KConfig" "reads Q \<Longrightarrow> Q (Sleep t)"
  by (simp_all add: reads_def onlooking_def)

lemma reads_True [simp]: "reads (\<lambda>_. True)"
  by (simp add: reads_def)

text \<open>What is typed into a shell, and the texts of the two sessions of a reconcile.\<close>

definition typed :: "string list \<Rightarrow> string" where
  "typed ls = concat (map (\<lambda>l. l @ [CHR 0x0D]) ls)"

definition status_session :: string where
  "status_session = typed [[], ''get system status'', ''exit'']"

definition key_session :: "string \<Rightarrow> string \<Rightarrow> string" where
  "key_session user password = typed [[], ''execute api-user generate-key '' @ user, password, ''exit'']"

definition openings :: "string list" where
  "openings = [''Dial'', ''NewSession'', ''RequestPty'', ''StdinPipe'', ''StdoutPipe'', ''Shell'']"

definition service_of :: "FortigateFirewall \<Rightarrow> Service" where
  "service_of fw = mutateService (om_Name (ff_Meta fw)) (createFortigateFirewallService (om_Name (ff_Meta fw))
     (ffs_FortigateVersion (ff_Spec fw)) (om_Namespace (ff_Meta fw)))"

text \<open>
  The calls that leave everything as it is: reading, waiting, applying the firewall's own service, and
  asking the firewall for its status.
\<close>

definition harmless :: "FortigateFirewall \<Rightarrow> call \<Rightarrow> bool" where
  "harmless fw c = (onlooking c \<or> (case c of
       KApply x \<Rightarrow> x = OService (service_of fw)
     | Ssh addr what \<Rightarrow> addr = fortiAddr fw \<and> (what \<in> set openings \<or> what = status_session)
     | _ \<Rightarrow> False))"

definition visits :: "FortigateFirewall \<Rightarrow> (call \<Rightarrow> bool) \<Rightarrow> bool" where
  "visits fw Q \<longleftrightarrow> (\<forall>c. harmless fw c \<longrightarrow> Q c)"

lemma visits_reads: "visits fw Q \<Longrightarrow> reads Q"
  by (simp add: visits_def reads_def harmless_def)

lemma visitsD:
  "visits fw Q \<Longrightarrow> Q (KApply (OService (service_of fw)))"
  "visits fw Q \<Longrightarrow> what \<in> set openings \<Longrightarrow> Q (Ssh (fortiAddr fw) what)"
  "visits fw Q \<Longrightarrow> Q (Ssh (fortiAddr fw) status_session)"
  by (simp_all add: visits_def harmless_def)

lemma visits_True [simp]: "visits fw (\<lambda>_. True)"
  by (simp add: visits_def)

lemma does_read_claim:
  assumes "sv_claims s (ns, n) = Some p" and "\<And>ph. does s0 I Q (f (p\<lparr>pvc_Phase := ph\<rparr>)) s r t" and "reads Q"
  shows "does s0 I Q (orElse (kget (k_get_pvc (served rest phase s0)) kind ns n) g f) s r t"
proof (rule doesI)
  fix w :: world
  assume w: "after s0 (w_log w) = s" "I (w_fs w)"
  let ?w1 = "w\<lparr>w_log := w_log w @ [KGet kind ns n]\<rparr>"
  have "after s0 (w_log ?w1) = s" "I (w_fs ?w1)" using w by (simp_all add: commit_def)
  with assms(2) [of "phase (w_log w) ns n"] obtain cs where
    "f (p\<lparr>pvc_Phase := phase (w_log w) ns n\<rparr>) ?w1 = (r, ?w1\<lparr>w_log := w_log ?w1 @ cs\<rparr>)" "after s cs = t" "list_all Q cs"
    by (rule doesE)
  with w assms(1,3) show "\<exists>cs. orElse (kget (k_get_pvc (served rest phase s0)) kind ns n) g f w =
      (r, w\<lparr>w_log := w_log w @ cs\<rparr>) \<and> after s cs = t \<and> list_all Q cs"
    by (intro exI [of _ "KGet kind ns n # cs"]) (simp add: orElse_def kget_run commit_def)
qed

lemma does_no_claim:
  assumes "sv_claims s (ns, n) = None" and "does s0 I Q (g not_found) s r t" and "reads Q"
  shows "does s0 I Q (orElse (kget (k_get_pvc (served rest phase s0)) kind ns n) g f) s r t"
proof (rule does_orElse_err [where g = g and e = not_found, OF _ _ assms(2)])
  show "does s0 I Q (kget (k_get_pvc (served rest phase s0)) kind ns n) s (Inl not_found) s"
    by (rule does_kget) (simp_all add: assms(1,3))
qed simp

lemma does_clientset:
  "(\<And>h. k_do rest h KConfig = Inr ()) \<Longrightarrow> reads Q \<Longrightarrow> does s0 I Q (clientset (served rest phase s0)) s (Inr ()) s"
  unfolding clientset_def by (rule does_kdo) (simp_all add: verdict_def commit_def)

lemma does_size:
  assumes "reads Q"
  shows "does s0 I Q (pvcOriginalSize (served rest phase s0) ns n) s
     (Inr (case sv_claims s (ns, n) of None \<Rightarrow> [] | Some p \<Rightarrow> pvc_Storage p)) s"
proof (cases "sv_claims s (ns, n)")
  case None
  then show ?thesis unfolding pvcOriginalSize_def
    by (intro does_no_claim assms) (simp_all add: does_ret del: op_simps)
next
  case (Some p)
  then show ?thesis unfolding pvcOriginalSize_def
    by (intro does_read_claim [OF Some] assms) (simp add: does_ret del: op_simps)
qed

lemma does_clonePVC:
  assumes conf: "\<And>h. k_do rest h KConfig = Inr ()" and Q: "reads Q"
    and new: "sv_claims s (ns, target) = None \<Longrightarrow> (\<And>p. Q (KCreate (OPVC p)))"
  shows "does s0 I Q (clonePVC (served rest phase s0) source target ns sc) s (Inr ()) (cloned source target ns sc s)"
proof (cases "sv_claims s (ns, target)")
  case None
  show ?thesis unfolding clonePVC_def
    by (rule does_andThen [OF does_clientset [OF conf Q]], rule does_no_claim [OF None _ Q],
        rule does_andThen [OF does_size [OF Q]], rule does_kdo)
      (simp_all add: verdict_def commit_def pvc_key_def cloned_def None new)
next
  case (Some p)
  show ?thesis unfolding clonePVC_def
    by (rule does_andThen [OF does_clientset [OF conf Q]], rule does_read_claim [OF Some _ Q])
      (simp add: cloned_def Some does_ret del: op_simps)
qed

text \<open>The wait ends if the provisioner binds the claim at some time.\<close>

lemma does_pollPVC:
  assumes bound: "\<And>h. L \<le> length h \<Longrightarrow> phase h ns name = ''Bound''"
    and Q: "reads Q" and claim: "sv_claims s (ns, name) \<noteq> None" and n: "L < n"
  shows "does s0 I Q (pollPVC n (served rest phase s0) name ns) s (Inr ()) s"
proof (rule doesI)
  obtain p where p: "sv_claims s (ns, name) = Some p" using claim by auto
  have "\<exists>cs. pollPVC (Suc n) (served rest phase s0) name ns w = (Inr (), w\<lparr>w_log := w_log w @ cs\<rparr>) \<and>
      after s cs = s \<and> list_all Q cs" if "after s0 (w_log w) = s" "L \<le> length (w_log w) + 2 * n" for n and w :: world
    using that
  proof (induction n arbitrary: w)
    case 0
    then show ?case using p bound [of "w_log w"] Q
      by (intro exI [of _ "[KGet ''PersistentVolumeClaim'' ns name]"]) (simp add: andThen_def kget_run commit_def)
  next
    case (Suc n)
    let ?get = "KGet ''PersistentVolumeClaim'' ns name"
    show ?case
    proof (cases "phase (w_log w) ns name = ''Bound''")
      case True
      then show ?thesis using p Q Suc.prems
        by (intro exI [of _ "[?get]"]) (simp add: andThen_def kget_run commit_def del: pollPVC.simps(2) add: pollPVC.simps(2) [of "Suc n"])
    next
      case False
      let ?w1 = "w\<lparr>w_log := w_log w @ [?get, Sleep 3]\<rparr>"
      have "after s0 (w_log ?w1) = s" "L \<le> length (w_log ?w1) + 2 * n" using Suc.prems by (simp_all add: commit_def)
      from Suc.IH [OF this] obtain cs where cs: "pollPVC (Suc n) (served rest phase s0) name ns ?w1 =
          (Inr (), ?w1\<lparr>w_log := w_log ?w1 @ cs\<rparr>)" "after s cs = s" "list_all Q cs" by auto
      have "pollPVC (Suc (Suc n)) (served rest phase s0) name ns w = pollPVC (Suc n) (served rest phase s0) name ns ?w1"
        using False p Suc.prems(1)
        by (simp add: andThen_def kget_run ask_def del: pollPVC.simps(2) add: pollPVC.simps(2) [of "Suc n"])
      with cs Q show ?thesis by (intro exI [of _ "?get # Sleep 3 # cs"]) (simp add: commit_def)
    qed
  qed
  from this [of _ "n - 1"] n
  show "\<And>w. after s0 (w_log w) = s \<Longrightarrow> \<exists>cs. pollPVC n (served rest phase s0) name ns w =
      (Inr (), w\<lparr>w_log := w_log w @ cs\<rparr>) \<and> after s cs = s \<and> list_all Q cs"
    by (cases n) auto
qed

section \<open>The surroundings\<close>

text \<open>
  A cluster that works: the client finds its configuration, restarts are accepted, and a claim is
  bound at the latest when the log has \<open>L\<close> entries.
\<close>

definition working :: "cluster \<Rightarrow> (call list \<Rightarrow> string \<Rightarrow> string \<Rightarrow> string) \<Rightarrow> nat \<Rightarrow> bool" where
  "working rest phase L \<longleftrightarrow> (\<forall>h. k_do rest h KConfig = Inr ()) \<and> (\<forall>h a b. k_do rest h (Http a b) = Inr ()) \<and>
     (\<forall>h ns n. L \<le> length h \<longrightarrow> phase h ns n = ''Bound'')"

text \<open>
  A firewall that answers over SSH: every session opens; \<open>get system status\<close> shows a license status,
  and generating a key for an API user shows the key.  What else is printed, and which key, may be
  different each time.
\<close>

definition answering :: "ssh_api \<Rightarrow> string \<Rightarrow> string \<Rightarrow> bool" where
  "answering sh key addr \<longleftrightarrow> sh_parseKey sh key = Inr () \<and> (\<forall>h t. sh_step sh h addr t = Inr ()) \<and>
     (\<forall>h. \<exists>out err. sh_output sh h addr status_session = Some (out, err) \<and> license_status out \<noteq> None) \<and>
     (\<forall>h user password. \<exists>out. sh_output sh h addr (key_session user password) = Some (out, None) \<and>
        FindSubmatch ''New API key:'' re_alnum out \<noteq> None)"

definition has_key :: "string \<Rightarrow> fs \<Rightarrow> bool" where
  "has_key key f \<longleftrightarrow> \<not> refused f ''/ssh/id_rsa'' \<and> content_at f ''/ssh/id_rsa'' = Some key"

lemma does_CheckFirewallPVC:
  assumes "working rest phase L" and "reads Q" and "sv_claims s (ns, name) \<noteq> None" and "L < n"
  shows "does s0 I Q (CheckFirewallPVC n (served rest phase s0) name ns) s (Inr ()) s"
  unfolding CheckFirewallPVC_def
  by (rule does_andThen [OF does_clientset does_pollPVC [of L]]) (use assms in \<open>auto simp: working_def\<close>)

text \<open>The claims of a machine, cloned from the golden images.\<close>

definition provisioned :: "string \<Rightarrow> string \<Rightarrow> string \<Rightarrow> string \<Rightarrow> server \<Rightarrow> server" where
  "provisioned name v ns sc s =
     cloned (''fortigate-'' @ v @ ''-cloud-init'') (name @ ''-'' @ v @ ''-cloud-init'') ns sc
       (cloned (''fortigate-'' @ v @ ''-fgt'') (name @ ''-'' @ v) ns sc s)"

lemma cloned_claims:
  "sv_claims (cloned source target ns sc s) (ns, target) \<noteq> None"
  "sv_claims s k \<noteq> None \<Longrightarrow> sv_claims (cloned source target ns sc s) k = sv_claims s k"
  "k \<noteq> (ns, target) \<Longrightarrow> sv_claims (cloned source target ns sc s) k = sv_claims s k"
  by (auto simp: cloned_def)

lemma cloned_idem: "sv_claims s (ns, target) \<noteq> None \<Longrightarrow> cloned source target ns sc s = s"
  by (auto simp: cloned_def)

lemma cloned_others [simp]:
  "sv_vms (cloned a b ns sc s) = sv_vms s" "sv_services (cloned a b ns sc s) = sv_services s"
  "sv_fgts (cloned a b ns sc s) = sv_fgts s" "sv_secrets (cloned a b ns sc s) = sv_secrets s"
  "sv_classes (cloned a b ns sc s) = sv_classes s"
  by (simp_all add: cloned_def)

lemma does_provision:
  assumes w: "working rest phase L" and Q: "reads Q" and n: "L < n" and cls: "sv_classes s sc"
    and new: "sv_claims s (ns, name @ ''-'' @ v) = None \<or> sv_claims s (ns, name @ ''-'' @ v @ ''-cloud-init'') = None \<Longrightarrow>
      (\<And>p. Q (KCreate (OPVC p)))"
  shows "does s0 I Q (CreateNewFortigateFirewallPVC n (served rest phase s0) name v ns sc ''fortigate'') s
     (Inr ()) (provisioned name v ns sc s)"
proof -
  let ?cl = "served rest phase s0"
  let ?s1 = "cloned (''fortigate-'' @ v @ ''-fgt'') (name @ ''-'' @ v) ns sc s"
  let ?s2 = "provisioned name v ns sc s"
  have conf: "\<And>h. k_do rest h KConfig = Inr ()" using w by (simp add: working_def)
  have gi: "goldenImages ''fortigate'' v = Inr (''fortigate-'' @ v @ ''-fgt'', ''fortigate-'' @ v @ ''-cloud-init'')"
    by (simp add: goldenImages_def)
  have "does s0 I Q (createPVC n ?cl ''fortigate'' name v ns sc (Inr ()) True) s (Inr ()) ?s2"
    unfolding createPVC_def sum.case gi if_True
  proof (rule does_andThen [OF does_liftRes], unfold prod.case, rule does_andThen, rule does_ignoreErr)
    show "does s0 I Q (clonePVC ?cl (''fortigate-'' @ v @ ''-fgt'') (name @ ''-'' @ v) ns sc) s (Inr ()) ?s1"
      by (rule does_clonePVC [OF conf Q]) (simp_all add: new)
    show "does s0 I Q (andThen (ignoreErr (clonePVC ?cl (''fortigate-'' @ v @ ''-cloud-init'') (name @ ''-'' @ v @ ''-cloud-init'') ns sc))
        (\<lambda>_. andThen (ignoreErr (CheckFirewallPVC n ?cl (name @ ''-'' @ v) ns))
        (\<lambda>_. ignoreErr (CheckFirewallPVC n ?cl (name @ ''-'' @ v @ ''-cloud-init'') ns)))) ?s1 (Inr ()) ?s2"
    proof (rule does_andThen, rule does_ignoreErr)
      show "does s0 I Q (clonePVC ?cl (''fortigate-'' @ v @ ''-cloud-init'') (name @ ''-'' @ v @ ''-cloud-init'') ns sc) ?s1 (Inr ()) ?s2"
        unfolding provisioned_def
        by (rule does_clonePVC [OF conf Q]) (use new in \<open>auto simp: cloned_def split: if_splits\<close>)
      show "does s0 I Q (andThen (ignoreErr (CheckFirewallPVC n ?cl (name @ ''-'' @ v) ns))
        (\<lambda>_. ignoreErr (CheckFirewallPVC n ?cl (name @ ''-'' @ v @ ''-cloud-init'') ns))) ?s2 (Inr ()) ?s2"
        by (rule does_andThen; rule does_ignoreErr; rule does_CheckFirewallPVC [OF w Q _ n])
          (simp_all add: provisioned_def cloned_claims)
    qed
  qed
  then show ?thesis unfolding CreateNewFortigateFirewallPVC_def
    by (intro does_orElse [OF does_ask [of s0 s _ "Inr ()"]]) (simp_all add: cls commit_def Q)
qed

text \<open>The machine: created, or given the interfaces of the spec and restarted, or left alone.\<close>

definition installed :: "string \<Rightarrow> string \<Rightarrow> string \<Rightarrow> FortigateFirewallSpec \<Rightarrow> server \<Rightarrow> server" where
  "installed name v ns sp s =
     s\<lparr>sv_vms := (sv_vms s)((ns, name) := Some (case sv_vms s (ns, name) of
         None \<Rightarrow> createFortigateManifest name v ns sp
       | Some vm \<Rightarrow> updateNICs vm (createFortigateManifestNIC (ffs_Ports sp))))\<rparr>"

definition wf_server :: "server \<Rightarrow> bool" where
  "wf_server s \<longleftrightarrow> (\<forall>k vm. sv_vms s k = Some vm \<longrightarrow> vm_key vm = k)"

definition up_to_date :: "string \<Rightarrow> string \<Rightarrow> FortigateFirewallSpec \<Rightarrow> server \<Rightarrow> bool" where
  "up_to_date name ns sp s \<longleftrightarrow> (\<exists>vm. sv_vms s (ns, name) = Some vm \<and>
     updateNICs vm (createFortigateManifestNIC (ffs_Ports sp)) = vm)"

lemma does_install:
  assumes w: "working rest phase L" and Q: "reads Q" and wf: "wf_server s"
    and new: "\<not> up_to_date name ns sp s \<Longrightarrow> Q = (\<lambda>_. True)"
  shows "does s0 I Q (createFortigateFirewall (served rest phase s0) name v ns sp) s (Inr ()) (installed name v ns sp s)"
proof (cases "sv_vms s (ns, name)")
  case None
  have k: "vm_key (createFortigateManifest name v ns sp) = (ns, name)"
    by (simp add: createFortigateManifest_def vm_key_def split: prod.splits)
  have Q': "Q = (\<lambda>_. True)" using None by (intro new) (simp add: up_to_date_def)
  show ?thesis unfolding createFortigateFirewall_def
  proof (rule does_orElse_err [where e = not_found])
    show "does s0 I Q (kget (k_get_vm (served rest phase s0)) ''VirtualMachine'' ns name) s (Inl not_found) s"
      by (rule does_kget) (simp_all add: None Q)
    show "does s0 I Q (kdo (served rest phase s0) (KCreate (OVM (createFortigateManifest name v ns sp)))) s (Inr ())
        (installed name v ns sp s)"
      by (rule does_kdo) (simp_all add: verdict_def commit_def k None installed_def Q')
  qed simp
next
  case (Some vm)
  let ?vm' = "updateNICs vm (createFortigateManifestNIC (ffs_Ports sp))"
  have k: "vm_key vm = (ns, name)" "vm_key ?vm' = (ns, name)" using wf Some
    by (auto simp: wf_server_def vm_key_def updateNICs_def)
  have get: "does s0 I Q (kget (k_get_vm (served rest phase s0)) ''VirtualMachine'' ns name) s (Inr vm) s"
    by (rule does_kget) (simp_all add: Some Q)
  show ?thesis
  proof (cases "?vm' = vm")
    case True
    have "installed name v ns sp s = s" using Some True by (simp add: installed_def fun_upd_idem)
    then show ?thesis unfolding createFortigateFirewall_def
      by (intro does_orElse [OF get]) (simp add: Let_def True does_ret del: op_simps)
  next
    case False
    let ?s1 = "installed name v ns sp s"
    have Q': "Q = (\<lambda>_. True)" using Some False by (intro new) (simp add: up_to_date_def)
    have i: "sv_vms ?s1 (ns, name) = Some ?vm'" by (simp add: installed_def Some)
    have p: "does s0 I Q (kdo (served rest phase s0) (KPatch (OVM ?vm'))) s (Inr ()) ?s1"
      by (rule does_kdo) (simp_all add: verdict_def commit_def k Some installed_def Q')
    have "does s0 I Q (restartFortigateVM (served rest phase s0) name ns) ?s1 (Inr ()) ?s1"
      unfolding restartFortigateVM_def
    proof (rule does_andThen)
      show "does s0 I Q (kget (k_get_vm (served rest phase s0)) ''VirtualMachine'' ns name) ?s1 (Inr ?vm') ?s1"
        by (rule does_kget) (simp_all add: i Q)
      show "does s0 I Q (andThen (clientset (served rest phase s0)) (\<lambda>_. kdo (served rest phase s0)
          (Http ''PUT'' (restart_path (vm_Namespace ?vm') (vm_Name ?vm'))))) ?s1 (Inr ()) ?s1"
        by (rule does_andThen [OF does_clientset does_kdo])
          (use w in \<open>simp_all add: verdict_def commit_def working_def Q Q'\<close>)
    qed
    then show ?thesis unfolding createFortigateFirewall_def
      by (intro does_orElse [OF get]) (simp add: Let_def False does_andThen [OF p])
  qed
qed

definition serving :: "FortigateFirewall \<Rightarrow> server \<Rightarrow> server" where
  "serving fw s = s\<lparr>sv_services := (sv_services s)(svc_key (service_of fw) := Some (service_of fw))\<rparr>"

lemma does_serve: "visits fw Q \<Longrightarrow> does s0 I Q (createFortigateService (served rest phase s0) fw) s (Inr ()) (serving fw s)"
  unfolding createFortigateService_def service_of_def [symmetric]
  by (rule does_kdo) (simp_all add: verdict_def commit_def serving_def visitsD)

section \<open>The firewall\<close>

text \<open>
  \<open>yields s0 I Q m s R t\<close>: the same as \<open>does\<close>, where the operation succeeds and what it returns has
  the property \<open>R\<close>.
\<close>

definition yields :: "server \<Rightarrow> (fs \<Rightarrow> bool) \<Rightarrow> (call \<Rightarrow> bool) \<Rightarrow> (world, 'a) op \<Rightarrow> server \<Rightarrow> ('a \<Rightarrow> bool) \<Rightarrow> server \<Rightarrow>
    bool" where
  "yields s0 I Q m s R t \<longleftrightarrow> (\<forall>w. after s0 (w_log w) = s \<longrightarrow> I (w_fs w) \<longrightarrow>
     (\<exists>x cs. m w = (Inr x, w\<lparr>w_log := w_log w @ cs\<rparr>) \<and> R x \<and> after s cs = t \<and> list_all Q cs))"

lemma yieldsI:
  "(\<And>w. after s0 (w_log w) = s \<Longrightarrow> I (w_fs w) \<Longrightarrow>
     \<exists>x cs. m w = (Inr x, w\<lparr>w_log := w_log w @ cs\<rparr>) \<and> R x \<and> after s cs = t \<and> list_all Q cs) \<Longrightarrow> yields s0 I Q m s R t"
  by (simp add: yields_def)

lemma yieldsE:
  assumes "yields s0 I Q m s R t" and "after s0 (w_log w) = s" and "I (w_fs w)"
  obtains x cs where "m w = (Inr x, w\<lparr>w_log := w_log w @ cs\<rparr>)" "R x" "after s cs = t" "list_all Q cs"
  using assms unfolding yields_def by blast

lemma does_yields: "does s0 I Q m s (Inr x) t \<longleftrightarrow> yields s0 I Q m s (\<lambda>y. y = x) t"
  unfolding does_def yields_def by blast

lemma yields_ret: "R x \<Longrightarrow> yields s0 I Q (ret x) s R s"
  by (rule yieldsI) (auto intro: exI [of _ "[]"])

lemma yields_seq:
  assumes "yields s0 I Q m s R t" and "\<And>x. R x \<Longrightarrow> yields s0 I Q (f x) t R' u"
    and "\<And>w x w1. m w = (Inr x, w1) \<Longrightarrow> g w = f x w1"
  shows "yields s0 I Q g s R' u"
proof (rule yieldsI)
  fix w :: world
  assume w: "after s0 (w_log w) = s" "I (w_fs w)"
  with assms(1) obtain x cs where m: "m w = (Inr x, w\<lparr>w_log := w_log w @ cs\<rparr>)" and x: "R x" and t: "after s cs = t" "list_all Q cs"
    by (rule yieldsE)
  let ?w1 = "w\<lparr>w_log := w_log w @ cs\<rparr>"
  have "after s0 (w_log ?w1) = t" "I (w_fs ?w1)" using w t by (simp_all add: after_append)
  with assms(2) [OF x] obtain y ds where k: "f x ?w1 = (Inr y, ?w1\<lparr>w_log := w_log ?w1 @ ds\<rparr>)" "R' y" and u: "after t ds = u" "list_all Q ds"
    by (rule yieldsE)
  have "g w = (Inr y, w\<lparr>w_log := w_log w @ cs @ ds\<rparr>)" using assms(3) [OF m] k(1) by simp
  with k(2) t u show "\<exists>x cs. g w = (Inr x, w\<lparr>w_log := w_log w @ cs\<rparr>) \<and> R' x \<and> after s cs = u \<and> list_all Q cs"
    by (intro exI [of _ y] exI [of _ "cs @ ds"]) (simp add: after_append)
qed

lemma yields_andThen:
  "yields s0 I Q m s R t \<Longrightarrow> (\<And>x. R x \<Longrightarrow> yields s0 I Q (f x) t R' u) \<Longrightarrow> yields s0 I Q (andThen m f) s R' u"
  by (erule yields_seq, assumption) (simp add: andThen_Inr)

lemma yields_orElse:
  "yields s0 I Q m s R t \<Longrightarrow> (\<And>x. R x \<Longrightarrow> yields s0 I Q (f x) t R' u) \<Longrightarrow> yields s0 I Q (orElse m g f) s R' u"
  by (erule yields_seq, assumption) (simp add: orElse_def)

lemma yields_after: "does s0 I Q m s (Inr x) t \<Longrightarrow> yields s0 I Q (f x) t R u \<Longrightarrow> yields s0 I Q (andThen m f) s R u"
  unfolding does_yields by (erule yields_andThen) simp

text \<open>A session that ends well: what it prints is one of the outputs with the property.\<close>

lemma yields_type:
  assumes "\<And>h. \<exists>out err. sh_output sh h addr (typed ls) = Some (out, err) \<and> R (out, err)" and "Q (Ssh addr (typed ls))"
  shows "yields s0 I Q (ssh_type sh addr ls) s R s"
proof (rule yieldsI)
  fix w :: world
  obtain out err where o': "sh_output sh (w_log w) addr (typed ls) = Some (out, err)" "R (out, err)" using assms(1) by blast
  have "ssh_type sh addr ls w = (Inr (out, err), w\<lparr>w_log := w_log w @ [Ssh addr (typed ls)]\<rparr>)"
    using o'(1) by (simp add: ssh_type_def ask_def typed_def Let_def)
  with o'(2) assms(2) show "\<exists>x cs. ssh_type sh addr ls w = (Inr x, w\<lparr>w_log := w_log w @ cs\<rparr>) \<and> R x \<and> after s cs = s \<and> list_all Q cs"
    by (intro exI [of _ "(out, err)"] exI [of _ "[Ssh addr (typed ls)]"]) (simp add: commit_def)
qed

lemma does_ssh_steps:
  assumes "answering sh key addr" and "\<And>what. what \<in> set whats \<Longrightarrow> Q (Ssh addr what)"
  shows "does s0 I Q (ssh_steps sh addr whats) s (Inr ()) s"
  using assms(2)
proof (induction whats)
  case Nil
  show ?case by (simp add: does_ret del: op_simps)
next
  case (Cons what whats)
  have "does s0 I Q (ssh_step sh addr what) s (Inr ()) s"
    unfolding ssh_step_def by (rule does_ask) (use assms(1) Cons.prems in \<open>simp_all add: answering_def commit_def\<close>)
  with Cons show ?case by (simp add: does_andThen)
qed

definition session_op :: "cluster \<Rightarrow> ssh_api \<Rightarrow> string \<Rightarrow> SSHOperations \<Rightarrow> FortigateFirewall \<Rightarrow> (world, string) op" where
  "session_op cl sh ns operation fw = (case operation of
        GETTOKEN \<Rightarrow> getAPIToken cl sh (fortiAddr fw) ns
      | REGISTERLICENSE \<Rightarrow> registerLicense cl sh (fortiAddr fw) ns fw
      | FIREWALLREADY \<Rightarrow> executeFirewallReadyCommand sh (fortiAddr fw) False
      | FIREWALLREADYWITHLICENSE \<Rightarrow> executeFirewallReadyCommand sh (fortiAddr fw) True
      | UPGRADEFIRMWARE_SSH \<Rightarrow>
          upgradeFirmwareSSH sh (fortiAddr fw) ''http://firmware-server:80/FGT_7.2.0_Firewall.out''
      | _ \<Rightarrow> fail (Errorf ''operazione SSH non riconosciuta: %v'' []))"

lemma yields_session:
  assumes a: "answering sh key (fortiAddr fw)" and Q: "visits fw Q"
    and op: "yields s0 (has_key key) Q (session_op cl sh ns operation fw) s R t"
  shows "yields s0 (has_key key) Q (DoSSHOperations cl sh ns operation fw) s R t"
proof -
  have run: "DoSSHOperations cl sh ns operation fw = andThen (onFs (ReadFile ''/ssh/id_rsa'')) (\<lambda>key.
      andThen (liftRes (sh_parseKey sh key)) (\<lambda>_. andThen (ssh_steps sh (fortiAddr fw) openings)
      (\<lambda>_. session_op cl sh ns operation fw)))"
    unfolding DoSSHOperations_def Let_def session_op_def openings_def by (rule refl)
  have f: "does s0 (has_key key) Q (onFs (ReadFile ''/ssh/id_rsa'')) s (Inr key) s"
    by (rule does_onFs) (auto simp: has_key_def ReadFile_ok)
  have k: "does s0 (has_key key) Q (liftRes (sh_parseKey sh key)) s (Inr ()) s"
    using does_liftRes [of s0 "has_key key" Q "sh_parseKey sh key" s] a by (simp add: answering_def)
  have o': "does s0 (has_key key) Q (ssh_steps sh (fortiAddr fw) openings) s (Inr ()) s"
    by (rule does_ssh_steps [OF a]) (rule visitsD(2) [OF Q])
  show ?thesis unfolding run by (rule yields_after [OF f], rule yields_after [OF k], rule yields_after [OF o' op])
qed

lemma does_ready:
  assumes a: "answering sh key (fortiAddr fw)" and Q: "visits fw Q"
  shows "does s0 (has_key key) Q (GetFirewallReady cl sh ns fw) s (Inr True) s"
  unfolding does_yields GetFirewallReady_def waitFirewallReady_def waitReady.simps [of cl sh ns False fw 0] if_False
proof (rule yields_orElse)
  show "yields s0 (has_key key) Q (DoSSHOperations cl sh ns FIREWALLREADY fw) s (\<lambda>_. True) s"
  proof (rule yields_session [OF a Q], unfold session_op_def SSHOperations.case executeFirewallReadyCommand_def, rule yields_andThen)
    show "yields s0 (has_key key) Q (ssh_type sh (fortiAddr fw) [[], ''get system status'', ''exit'']) s
        (\<lambda>(out, err). license_status out \<noteq> None) s"
      using a visitsD(3) [OF Q] by (intro yields_type) (auto simp: answering_def status_session_def)
  qed (auto intro: yields_ret simp del: op_simps)
qed (simp add: yields_ret del: op_simps)

text \<open>The token: the one in the status, else one that the firewall printed.\<close>

definition token_of :: "ssh_api \<Rightarrow> FortigateFirewall \<Rightarrow> string \<Rightarrow> bool" where
  "token_of sh fw tok \<longleftrightarrow> tok \<noteq> [] \<and>
     (if ffst_Token (ff_Status fw) = []
      then \<exists>h user password out t. sh_output sh h (fortiAddr fw) (key_session user password) = Some (out, None) \<and>
             FindSubmatch ''New API key:'' re_alnum out = Some t \<and> tok = TrimSpace t
      else tok = ffst_Token (ff_Status fw))"

lemma FindSubmatch_class: "FindSubmatch label cls s = Some t \<Longrightarrow> t \<noteq> [] \<and> list_all cls t"
  by (induction s) (auto simp: capture_def list_all_iff dest: set_takeWhileD split: if_splits)

lemma re_alnum_no_space: "re_alnum c \<Longrightarrow> \<not> is_space c"
  by (auto simp: re_alnum_def re_letter_def is_space_def Let_def)

lemma TrimSpace_keeps:
  assumes "\<And>c. c \<in> set t \<Longrightarrow> \<not> is_space c"
  shows "TrimSpace t = t"
proof -
  have "dropWhile is_space u = u" if "set u \<subseteq> set t" for u
    using that assms by (cases u) auto
  then show ?thesis by (simp add: TrimSpace_def)
qed

lemma yields_token:
  assumes a: "answering sh key (fortiAddr fw)" and Q: "visits fw Q"
    and creds: "sv_secrets s (ns, ''forti-credentials'') = Some creds" "map_of creds ''adminPassword'' \<noteq> None"
      "map_of creds ''apiUserName'' \<noteq> None"
    and new: "ffst_Token (ff_Status fw) = [] \<Longrightarrow> Q = (\<lambda>_. True)"
  shows "yields s0 (has_key key) Q (tokenFor (served rest phase s0) sh ns fw) s (token_of sh fw) s"
proof (cases "ffst_Token (ff_Status fw) = []")
  case False
  then show ?thesis by (simp add: tokenFor_def token_of_def yields_ret del: op_simps)
next
  case True
  let ?cl = "served rest phase s0"
  have Q': "Q = (\<lambda>_. True)" by (rule new [OF True])
  obtain data where pick: "pickKeys creds [''adminPassword'', ''apiUserName''] [] = Inr data"
    using creds(2,3) by auto
  have sec: "does s0 (has_key key) Q (getSecretValues ?cl ns ''forti-credentials'' [''adminPassword'', ''apiUserName'']) s (Inr data) s"
    unfolding getSecretValues_def
  proof (rule does_andThen, rule does_wrapErr, rule does_kget)
    show "does s0 (has_key key) Q (liftRes (pickKeys creds [''adminPassword'', ''apiUserName''] [])) s (Inr data) s"
      unfolding pick by (rule does_liftRes)
  qed (simp_all add: creds(1) Q')
  let ?R = "\<lambda>(out, err). err = None \<and> (\<exists>t. FindSubmatch ''New API key:'' re_alnum out = Some t \<and> token_of sh fw (TrimSpace t))"
  have t: "token_of sh fw (TrimSpace t)" if "sh_output sh h (fortiAddr fw) (key_session user password) = Some (out, None)"
      "FindSubmatch ''New API key:'' re_alnum out = Some t" for h user password out t
  proof -
    have "TrimSpace t = t" "t \<noteq> []"
      using FindSubmatch_class [OF that(2)] re_alnum_no_space by (auto simp: list_all_iff intro!: TrimSpace_keeps)
    then have ne: "TrimSpace t \<noteq> []" by simp
    show ?thesis unfolding token_of_def if_P [OF True] using ne that by blast
  qed
  have "yields s0 (has_key key) Q (getAPIToken ?cl sh (fortiAddr fw) ns) s (token_of sh fw) s"
    unfolding getAPIToken_def Let_def
  proof (rule yields_after [OF does_wrapErr [OF sec]], rule yields_andThen [where R = ?R])
    show "yields s0 (has_key key) Q (ssh_type sh (fortiAddr fw) [[], ''execute api-user generate-key '' @
        (case map_of data ''apiUserName'' of Some v \<Rightarrow> v | None \<Rightarrow> []),
        case map_of data ''adminPassword'' of Some v \<Rightarrow> v | None \<Rightarrow> [], ''exit'']) s ?R s"
    proof (rule yields_type)
      fix h
      obtain out where "sh_output sh h (fortiAddr fw) (key_session
          (case map_of data ''apiUserName'' of Some v \<Rightarrow> v | None \<Rightarrow> []) (case map_of data ''adminPassword'' of Some v \<Rightarrow> v | None \<Rightarrow> [])) =
          Some (out, None)" "FindSubmatch ''New API key:'' re_alnum out \<noteq> None"
        using a unfolding answering_def by blast
      with t show "\<exists>out err. sh_output sh h (fortiAddr fw) (typed [[], ''execute api-user generate-key '' @
        (case map_of data ''apiUserName'' of Some v \<Rightarrow> v | None \<Rightarrow> []),
        case map_of data ''adminPassword'' of Some v \<Rightarrow> v | None \<Rightarrow> [], ''exit'']) = Some (out, err) \<and> ?R (out, err)"
        unfolding key_session_def by blast
    qed (simp add: Q')
  qed (auto intro: yields_ret simp del: op_simps FindSubmatch.simps)
  then have "yields s0 (has_key key) Q (DoSSHOperations ?cl sh ns GETTOKEN fw) s (token_of sh fw) s"
    by (intro yields_session [OF a Q]) (simp add: session_op_def)
  then have "yields s0 (has_key key) Q (orElse (DoSSHOperations ?cl sh ns GETTOKEN fw) (\<lambda>err. ret []) (\<lambda>token. ret token)) s (token_of sh fw) s"
    by (rule yields_orElse) (rule yields_ret)
  with True show ?thesis by (simp add: tokenFor_def del: op_simps)
qed

section \<open>A reconcile on a working server\<close>

definition brought_up :: "FortigateFirewall \<Rightarrow> server \<Rightarrow> server" where
  "brought_up fw s = serving fw (installed (fwName fw) (ffs_FortigateVersion (ff_Spec fw)) (om_Namespace (ff_Meta fw)) (ff_Spec fw)
     (provisioned (fwName fw) (ffs_FortigateVersion (ff_Spec fw)) (om_Namespace (ff_Meta fw))
        (ffs_PVCStorageClass (ff_Spec fw)) s))"

text \<open>Nothing is left to create for the firewall.\<close>

definition settled :: "FortigateFirewall \<Rightarrow> server \<Rightarrow> bool" where
  "settled fw s \<longleftrightarrow> up_to_date (fwName fw) (om_Namespace (ff_Meta fw)) (ff_Spec fw) s \<and>
     (\<forall>c \<in> set (pvcTargets (fwName fw) (ffs_FortigateVersion (ff_Spec fw)) True).
        sv_claims s (om_Namespace (ff_Meta fw), c) \<noteq> None)"

lemma provisioned_others [simp]:
  "sv_vms (provisioned name v ns sc s) = sv_vms s" "sv_services (provisioned name v ns sc s) = sv_services s"
  "sv_secrets (provisioned name v ns sc s) = sv_secrets s" "sv_classes (provisioned name v ns sc s) = sv_classes s"
  by (simp_all add: provisioned_def)

lemma provisioned_up_to_date [simp]:
  "up_to_date name ns sp (provisioned name' v ns' sc s) \<longleftrightarrow> up_to_date name ns sp s"
  "wf_server (provisioned name' v ns' sc s) \<longleftrightarrow> wf_server s"
  by (simp_all add: up_to_date_def wf_server_def)

lemma yields_reconcile:
  assumes w: "working rest phase L" and a: "answering sh key (fortiAddr fw)" and wf: "wf_server s"
    and cls: "sv_classes s (ffs_PVCStorageClass (ff_Spec fw))" and V: "visits fw Q"
    and lic: "ffs_LicenseType (ff_Spec fw) \<in> {''none'', ''flex'', ''file''}"
    and creds: "sv_secrets s (ns, ''forti-credentials'') = Some creds" "map_of creds ''adminPassword'' \<noteq> None"
      "map_of creds ''apiUserName'' \<noteq> None"
    and new: "\<not> settled fw s \<or> ffst_Token (ff_Status fw) = [] \<Longrightarrow> Q = (\<lambda>_. True)" and n: "L < n"
  shows "yields s0 (has_key key) Q (doReconcileFirewall n (served rest phase s0) sh ns fw) s
     (\<lambda>st. ffst_Conditions st = [] \<and> token_of sh fw (ffst_Token st)) (brought_up fw s)"
proof -
  let ?cl = "served rest phase s0"
  let ?v = "ffs_FortigateVersion (ff_Spec fw)" and ?ns = "om_Namespace (ff_Meta fw)" and ?sc = "ffs_PVCStorageClass (ff_Spec fw)"
  let ?s1 = "provisioned (fwName fw) ?v ?ns ?sc s"
  let ?s2 = "installed (fwName fw) ?v ?ns (ff_Spec fw) ?s1"
  have Q: "reads Q" by (rule visits_reads [OF V])
  have Q1: "Q (KCreate (OPVC p))" if "sv_claims s (?ns, fwName fw @ ''-'' @ ?v) = None \<or>
      sv_claims s (?ns, fwName fw @ ''-'' @ ?v @ ''-cloud-init'') = None" for p
    using new that by (auto simp: settled_def pvcTargets_def)
  have Q2: "Q = (\<lambda>_. True)" if "\<not> up_to_date (fwName fw) ?ns (ff_Spec fw) s" using new that by (auto simp: settled_def)
  have 1: "does s0 (has_key key) Q (CreateNewFortigateFirewallPVC n ?cl (fwName fw) ?v ?ns ?sc ''fortigate'') s (Inr ()) ?s1"
    by (rule does_provision [OF w Q n cls]) (rule Q1)
  have 2: "does s0 (has_key key) Q (createFortigateFirewall ?cl (fwName fw) ?v ?ns (ff_Spec fw)) ?s1 (Inr ()) ?s2"
    by (rule does_install [OF w Q]) (simp_all add: wf Q2)
  have 3: "does s0 (has_key key) Q (createFortigateService ?cl fw) ?s2 (Inr ()) (brought_up fw s)"
    unfolding brought_up_def by (rule does_serve [OF V])
  have "sv_secrets (brought_up fw s) (ns, ''forti-credentials'') = Some creds"
    by (simp add: brought_up_def serving_def installed_def creds(1) Let_def)
  note 4 = yields_token [OF a V this creds(2,3), of s0 rest phase]
  have 5: "does s0 (has_key key) Q (licensed ?cl sh ns fw) (brought_up fw s) (Inr ()) (brought_up fw s)"
    using lic by (auto simp: licensed_def does_ret simp del: op_simps)
  show ?thesis
    unfolding doReconcileFirewall_def Let_def
    by (rule yields_after [OF 1], rule yields_after [OF 2], rule yields_after [OF 3], rule yields_after [OF does_ready [OF a V]],
        simp del: op_simps, rule yields_after [OF 5], rule yields_andThen [OF 4 yields_ret]) (simp_all add: new)
qed

end
