(* ===== verification/Deploy_Properties.thy ===== *)
theory Deploy_Properties
  imports Server
begin

text \<open>
  The reconciler of \<open>FortigateFirewall\<close> on a working API server: the first run brings the firewall
  up, a second one changes nothing, and a deletion does not come to its end.
\<close>

section \<open>Bringing a firewall up\<close>

lemma installed_machine:
  "\<exists>vm. sv_vms (brought_up fw s) (om_Namespace (ff_Meta fw), fwName fw) = Some vm \<and>
     (vm_Interfaces vm, vm_Networks vm) = createFortigateManifestNIC (ffs_Ports (ff_Spec fw)) \<and>
     (sv_vms s (om_Namespace (ff_Meta fw), fwName fw) = None \<longrightarrow>
        vm = createFortigateManifest (fwName fw) (ffs_FortigateVersion (ff_Spec fw)) (om_Namespace (ff_Meta fw)) (ff_Spec fw))"
  by (auto simp: brought_up_def serving_def installed_def Let_def updateNICs_def createFortigateManifest_def
      split: option.split prod.split)

lemma brought_up_claims: "sv_claims (brought_up fw s) =
    sv_claims (provisioned (fwName fw) (ffs_FortigateVersion (ff_Spec fw)) (om_Namespace (ff_Meta fw))
      (ffs_PVCStorageClass (ff_Spec fw)) s)"
  by (simp add: brought_up_def serving_def installed_def Let_def)

lemma updateNICs_same: "updateNICs vm nics = vm \<longleftrightarrow> (vm_Interfaces vm, vm_Networks vm) = nics"
  by (cases vm; cases nics) (auto simp: updateNICs_def)

lemma settled_brought_up: "settled fw (brought_up fw s)"
proof -
  have "up_to_date (fwName fw) (om_Namespace (ff_Meta fw)) (ff_Spec fw) (brought_up fw s)"
    using installed_machine [of fw s] by (auto simp: up_to_date_def updateNICs_same)
  moreover have "sv_claims (brought_up fw s) (om_Namespace (ff_Meta fw), c) \<noteq> None"
    if "c \<in> set (pvcTargets (fwName fw) (ffs_FortigateVersion (ff_Spec fw)) True)" for c
    using that by (auto simp: brought_up_claims provisioned_def cloned_def pvcTargets_def split: if_splits)
  ultimately show ?thesis by (simp add: settled_def)
qed

lemma brought_up_again:
  assumes "ff_Meta fw' = ff_Meta fw" and "ff_Spec fw' = ff_Spec fw"
  shows "brought_up fw' (brought_up fw s) = brought_up fw s"
proof -
  let ?s = "brought_up fw s" and ?ns = "om_Namespace (ff_Meta fw)" and ?v = "ffs_FortigateVersion (ff_Spec fw)"
  have nm: "fwName fw' = fwName fw" by (simp add: fwName_def assms)
  have c: "sv_claims ?s (?ns, fwName fw @ ''-'' @ ?v) \<noteq> None" "sv_claims ?s (?ns, fwName fw @ ''-'' @ ?v @ ''-cloud-init'') \<noteq> None"
    using settled_brought_up [of fw s] by (auto simp: settled_def pvcTargets_def)
  have p: "provisioned (fwName fw) ?v ?ns (ffs_PVCStorageClass (ff_Spec fw)) ?s = ?s"
    unfolding provisioned_def cloned_idem [OF c(1)] cloned_idem [OF c(2)] by (rule refl)
  obtain vm where vm: "sv_vms ?s (?ns, fwName fw) = Some vm" "updateNICs vm (createFortigateManifestNIC (ffs_Ports (ff_Spec fw))) = vm"
    using settled_brought_up [of fw s] by (auto simp: settled_def up_to_date_def)
  have i: "installed (fwName fw) ?v ?ns (ff_Spec fw) ?s = ?s"
    using vm by (simp add: installed_def fun_upd_idem)
  have "serving fw' ?s = ?s"
    by (simp add: brought_up_def [of fw s] serving_def service_of_def assms)
  with p i show ?thesis unfolding brought_up_def [of fw'] assms nm by simp
qed

lemma wf_brought_up: "wf_server s \<Longrightarrow> wf_server (brought_up fw s)"
  by (auto simp: wf_server_def brought_up_def serving_def installed_def Let_def vm_key_def updateNICs_def fwName_def
      createFortigateManifest_def split: option.splits prod.splits)

text \<open>C9: a firewall is brought up. Take a working API server that has the storage class and the
  credentials, claims that are bound after some time, a \<open>FortigateFirewall\<close> whose license type is
  none, flex or file (so nothing is registered), and a machine that answers over SSH: it shows a
  license status when asked for its status and a key when asked to generate one. Then the work of a
  reconcile, \<open>doReconcileFirewall\<close>, succeeds, with the token of the status or, if there was none, one
  that the machine printed; on the server there is a machine with exactly the interfaces of the spec
  (the machine of the manifest if there was none), the claims cloned from the golden images of the
  version, and the service, and no object of another name was touched.\<close>

theorem firewall_brought_up:
  assumes "working rest phase L" and "answering sh key (fortiAddr fw)" and "has_key key (w_fs w)"
    and "after s0 (w_log w) = s" and "wf_server s" and "sv_classes s (ffs_PVCStorageClass (ff_Spec fw))"
    and "ffs_LicenseType (ff_Spec fw) \<in> {''none'', ''flex'', ''file''}"
    and "sv_secrets s (ns, ''forti-credentials'') = Some creds" "map_of creds ''adminPassword'' \<noteq> None"
      "map_of creds ''apiUserName'' \<noteq> None"
    and "L < n"
  shows "\<exists>st cs. doReconcileFirewall n (served rest phase s0) sh ns fw w = (Inr st, w\<lparr>w_log := w_log w @ cs\<rparr>) \<and>
    ffst_Conditions st = [] \<and> token_of sh fw (ffst_Token st) \<and>
    (let t = after s0 (w_log w @ cs); ns' = om_Namespace (ff_Meta fw); nm = fwName fw; v = ffs_FortigateVersion (ff_Spec fw);
         svc = mutateService nm (createFortigateFirewallService nm v ns')
     in (\<exists>vm. sv_vms t (ns', nm) = Some vm \<and>
           (vm_Interfaces vm, vm_Networks vm) = createFortigateManifestNIC (ffs_Ports (ff_Spec fw)) \<and>
           (sv_vms s (ns', nm) = None \<longrightarrow> vm = createFortigateManifest nm v ns' (ff_Spec fw))) \<and>
        (\<forall>k. k \<noteq> (ns', nm) \<longrightarrow> sv_vms t k = sv_vms s k) \<and>
        sv_claims t = sv_claims (provisioned nm v ns' (ffs_PVCStorageClass (ff_Spec fw)) s) \<and>
        sv_services t = (sv_services s)(svc_key svc := Some svc) \<and>
        sv_fgts t = sv_fgts s \<and> sv_secrets t = sv_secrets s)"
proof -
  have "yields s0 (has_key key) (\<lambda>_. True) (doReconcileFirewall n (served rest phase s0) sh ns fw) s
     (\<lambda>st. ffst_Conditions st = [] \<and> token_of sh fw (ffst_Token st)) (brought_up fw s)"
    by (rule yields_reconcile [OF assms(1,2,5,6) _ assms(7-10) _ assms(11)]) simp_all
  then obtain st cs where cs: "doReconcileFirewall n (served rest phase s0) sh ns fw w = (Inr st, w\<lparr>w_log := w_log w @ cs\<rparr>)"
    "ffst_Conditions st = [] \<and> token_of sh fw (ffst_Token st)" "after s cs = brought_up fw s"
    by (rule yieldsE [where I = "has_key key", OF _ assms(4,3)])
  have t: "after s0 (w_log w @ cs) = brought_up fw s" using cs(3) assms(4) by (simp add: after_append)
  have o': "sv_vms (brought_up fw s) k = sv_vms s k" if "k \<noteq> (om_Namespace (ff_Meta fw), fwName fw)" for k
    using that by (simp add: brought_up_def serving_def installed_def Let_def)
  have f: "sv_fgts (brought_up fw s) = sv_fgts s" "sv_secrets (brought_up fw s) = sv_secrets s"
    "sv_services (brought_up fw s) = sv_services (serving fw s)"
    by (simp_all add: brought_up_def serving_def installed_def Let_def provisioned_def)
  show ?thesis using cs(1,2) installed_machine [of fw s] o' f
    by (intro exI [of _ st] exI [of _ cs]) (simp add: t brought_up_claims Let_def serving_def service_of_def fwName_def)
qed

text \<open>C13: reconciling again changes nothing. Once \<open>doReconcileFirewall\<close> has brought a firewall up (in
  the setting of C9: a working API server, a machine that answers, license type none, flex or file),
  running it again on the same object with the status it was given makes no other calls than reading
  objects, waiting, applying the firewall's own service, and opening sessions to the firewall in which
  its status is asked; in particular it creates, patches, deletes and restarts nothing and generates
  no second API key. It returns the same status, and the server is afterwards as it was before. (With
  license type trial the license would be registered again each time.)\<close>

theorem second_reconcile_changes_nothing:
  assumes "working rest phase L" and "answering sh key (fortiAddr fw)" and "has_key key (w_fs w)"
    and "after s0 (w_log w) = s" and "wf_server s" and "sv_classes s (ffs_PVCStorageClass (ff_Spec fw))"
    and "ffs_LicenseType (ff_Spec fw) \<in> {''none'', ''flex'', ''file''}"
    and "sv_secrets s (ns, ''forti-credentials'') = Some creds" "map_of creds ''adminPassword'' \<noteq> None"
      "map_of creds ''apiUserName'' \<noteq> None"
    and "L < n" and "doReconcileFirewall n (served rest phase s0) sh ns fw w = (Inr st, w1)"
  shows "\<exists>cs. doReconcileFirewall n (served rest phase s0) sh ns (fw\<lparr>ff_Status := st\<rparr>) w1 =
      (Inr st, w1\<lparr>w_log := w_log w1 @ cs\<rparr>) \<and> list_all (harmless fw) cs \<and>
      after s0 (w_log w1 @ cs) = after s0 (w_log w1)"
proof -
  let ?fw = "fw\<lparr>ff_Status := st\<rparr>" and ?s = "brought_up fw s"
  have one: "yields s0 (has_key key) (\<lambda>_. True) (doReconcileFirewall n (served rest phase s0) sh ns fw) s
     (\<lambda>st. ffst_Conditions st = [] \<and> token_of sh fw (ffst_Token st)) ?s"
    by (rule yields_reconcile [OF assms(1,2,5,6) _ assms(7-10) _ assms(11)]) simp_all
  then obtain st0 cs where "doReconcileFirewall n (served rest phase s0) sh ns fw w = (Inr st0, w\<lparr>w_log := w_log w @ cs\<rparr>)"
    "ffst_Conditions st0 = [] \<and> token_of sh fw (ffst_Token st0)" "after s cs = ?s"
    by (rule yieldsE [where I = "has_key key", OF _ assms(4,3)])
  then have w1: "after s0 (w_log w1) = ?s" "has_key key (w_fs w1)" and st: "ffst_Conditions st = []" "ffst_Token st \<noteq> []"
    using assms(3,4,12) by (auto simp: after_append token_of_def)
  have f: "sv_classes ?s = sv_classes s" "sv_secrets ?s = sv_secrets s"
    by (simp_all add: brought_up_def serving_def installed_def Let_def)
  have nm: "fwName ?fw = fwName fw" "fortiAddr ?fw = fortiAddr fw" by (simp_all add: fwName_def fortiAddr_def)
  have "service_of ?fw = service_of fw" by (simp add: service_of_def)
  with nm have h: "harmless ?fw = harmless fw" unfolding harmless_def fun_eq_iff by (simp only: simp_thms)
  have "yields s0 (has_key key) (harmless fw) (doReconcileFirewall n (served rest phase s0) sh ns ?fw) ?s
     (\<lambda>st'. ffst_Conditions st' = [] \<and> token_of sh ?fw (ffst_Token st')) (brought_up ?fw ?s)"
  proof (rule yields_reconcile [OF assms(1) _ wf_brought_up [OF assms(5)]])
    show "harmless fw = (\<lambda>_. True)" if "\<not> settled ?fw ?s \<or> ffst_Token (ff_Status ?fw) = []"
      using that settled_brought_up [of fw s] st(2) by (auto simp: settled_def nm)
  qed (use assms in \<open>simp_all add: f visits_def h nm\<close>)
  then obtain st' ds where "doReconcileFirewall n (served rest phase s0) sh ns ?fw w1 = (Inr st', w1\<lparr>w_log := w_log w1 @ ds\<rparr>)"
    "ffst_Conditions st' = [] \<and> token_of sh ?fw (ffst_Token st')" "after ?s ds = brought_up ?fw ?s" "list_all (harmless fw) ds"
    by (rule yieldsE [where I = "has_key key", OF _ w1])
  moreover from this(2) st have "st' = st" by (cases st; cases st') (simp add: token_of_def)
  ultimately show ?thesis using w1(1) brought_up_again [of ?fw fw s] by (auto simp: after_append)
qed

section \<open>Deleting a firewall\<close>

text \<open>The claim the clean-up deletes, and the calls that could help: creating it, or updating the object.\<close>

definition mounted_claim :: "string \<Rightarrow> string \<Rightarrow> string" where
  "mounted_claim name v = name @ ''-'' @ v @ ''-fgt''"

definition helps :: "string \<Rightarrow> string \<Rightarrow> string \<Rightarrow> call \<Rightarrow> bool" where
  "helps ns name v c = (case c of
       KCreate (OPVC p) \<Rightarrow> pvc_key p = (ns, mounted_claim name v)
     | KUpdate kind ns' n fs \<Rightarrow> kind = ''FortigateFirewall'' \<and> (ns', n) = (ns, name)
     | _ \<Rightarrow> False)"

text \<open>
  What happens after the deletion: the operator reconciles the object, any number of times, and
  others make other calls; the rest of the world may change as well.
\<close>

inductive continues :: "cluster \<Rightarrow> external \<Rightarrow> ssh_api \<Rightarrow> string \<Rightarrow> string \<Rightarrow> string \<Rightarrow> world \<Rightarrow> world \<Rightarrow> bool"
  for cl ext sh ns name v where
  reconciled: "continues cl ext sh ns name v w (snd (ReconcileFortigateFirewall n cl ext sh ns name w))"
| other: "\<not> helps ns name v c \<Longrightarrow> w_log w' = w_log w @ [c] \<Longrightarrow> continues cl ext sh ns name v w w'"

definition awaiting_deletion :: "string \<Rightarrow> string \<Rightarrow> string \<Rightarrow> server \<Rightarrow> bool" where
  "awaiting_deletion ns name v s \<longleftrightarrow> sv_claims s (ns, mounted_claim name v) = None \<and>
     (\<exists>fw. sv_fgts s (ns, name) = Some fw \<and> om_Deleted (ff_Meta fw) \<and> om_Namespace (ff_Meta fw) = ns \<and>
        om_Name (ff_Meta fw) = name \<and> ffs_FortigateVersion (ff_Spec fw) = v \<and>
        firewallFinalizer \<in> set (om_Finalizers (ff_Meta fw)))"

lemma awaiting_commit: "awaiting_deletion ns name v s \<Longrightarrow> \<not> helps ns name v c \<Longrightarrow> awaiting_deletion ns name v (commit c s)"
  by (auto simp: awaiting_deletion_def commit_def helps_def split: call.splits kobj.splits)

lemma awaiting_after:
  "list_all (\<lambda>c. \<not> helps ns name v c) cs \<Longrightarrow> awaiting_deletion ns name v s \<Longrightarrow> awaiting_deletion ns name v (after s cs)"
  by (induction cs arbitrary: s) (simp_all add: awaiting_commit)

lemma cleanup_fails:
  assumes s: "awaiting_deletion ns name v (after s0 (w_log w))"
    and fw: "om_Namespace (ff_Meta fw) = ns" "fwName fw = name" "ffs_FortigateVersion (ff_Spec fw) = v"
  shows "\<exists>e w1. deleteFirewallResources (served rest phase s0) fw w = (Inl e, w1)"
proof (rule ccontr)
  let ?svc = "name @ ''-'' @ v @ ''-ssh-gui''" and ?fgt = "KDelete ''PersistentVolumeClaim'' ns (mounted_claim name v)"
  let ?cs = "[KDelete ''VirtualMachine'' ns name, KDelete ''VirtualMachineInstance'' ns name, KGet ''Service'' ns ?svc,
    KDelete ''Service'' ns ?svc, KConfig]"
  assume "\<nexists>e w1. deleteFirewallResources (served rest phase s0) fw w = (Inl e, w1)"
  then obtain u w1 where "deleteFirewallResources (served rest phase s0) fw w = (Inr u, w1)"
    by (cases "deleteFirewallResources (served rest phase s0) fw w"; cases "fst (deleteFirewallResources (served rest phase s0) fw w)") auto
  then have "k_do (served rest phase s0) (w_log w @ ?cs) ?fgt = Inr ()"
    by (auto simp: deleteFirewallResources_def DeleteFortigateFirewall_def DeleteFortigateFirewallSvc_def
      DeleteFirewallPVC_def pvcToDelete_def mounted_claim_def clientset_def Let_def andThen_ok kdo_run ask_def fw
      simp del: served_simps)
  moreover have "awaiting_deletion ns name v (after (after s0 (w_log w)) ?cs)"
    by (rule awaiting_after [OF _ s]) (simp add: helps_def)
  then have "sv_claims (after s0 (w_log w @ ?cs)) (ns, mounted_claim name v) = None"
    by (simp only: awaiting_deletion_def after_append)
  ultimately show False by (simp add: verdict_def del: after_simps)
qed

lemma quiet_helps_cleanup: "quiet (helps ns name v) (deleteFirewallResources cl fw)"
  unfolding deleteFirewallResources_def DeleteFortigateFirewall_def DeleteFortigateFirewallSvc_def
    DeleteFirewallPVC_def clientset_def Let_def
  by (intro quiet_intros quiet_deletePVCs; simp add: quiet_ask helps_def)

lemma reconcile_keeps_waiting:
  fixes rest :: cluster
  assumes "awaiting_deletion ns name v (after s0 (w_log w))"
    and cl_def: "cl = served rest phase s0"
  obtains e w1 where "ReconcileFortigateFirewall n cl ext sh ns name w = (Inl e, w1)"
    "awaiting_deletion ns name v (after s0 (w_log w1))"
proof -
  let ?w1 = "was_read w ''FortigateFirewall'' ns name"
  obtain fw where fw: "sv_fgts (after s0 (w_log w)) (ns, name) = Some fw" "om_Deleted (ff_Meta fw)"
    "om_Namespace (ff_Meta fw) = ns" "om_Name (ff_Meta fw) = name" "ffs_FortigateVersion (ff_Spec fw) = v"
    "ContainsFinalizer (ff_Meta fw) firewallFinalizer"
    using assms(1) by (auto simp: awaiting_deletion_def ContainsFinalizer_def)
  have get: "k_get_fgt cl (w_log w) ns name = Inr fw" by (simp add: cl_def fw(1))
  have wait: "awaiting_deletion ns name v (after s0 (w_log ?w1))"
    using awaiting_commit [OF assms(1), of "KGet ''FortigateFirewall'' ns name"] by (simp add: was_read_def helps_def)
  obtain e w2 where del: "deleteFirewallResources cl fw ?w1 = (Inl e, w2)"
    using cleanup_fails [OF wait fw(3) _ fw(5), of rest phase] fw(4) unfolding cl_def fwName_def by blast
  have run: "ReconcileFortigateFirewall n cl ext sh ns name w = (Inl e, w2)"
    using reconcile_deleted_firewall [OF get fw(2)] fgt_cleanup.kept_on_error(1) [OF fw(2,6) del] by simp
  obtain cs where "w_log w2 = w_log ?w1 @ cs" "\<forall>c \<in> set cs. \<not> helps ns name v c"
    using quietE [OF quiet_helps_cleanup [of ns name v cl fw], of ?w1] del by auto
  with awaiting_after [OF _ wait, of cs] have "awaiting_deletion ns name v (after s0 (w_log w2))"
    by (simp add: after_append list_all_iff)
  with run show thesis by (rule that)
qed

text \<open>C8: a deletion does not come to its end. The clean-up of a deleted \<open>FortigateFirewall\<close> deletes the
  claim \<open>name-version-fgt\<close>, which the operator never creates for it (it creates \<open>name-version\<close>), and
  takes a missing claim for an error. So unless somebody else creates that claim or edits the
  object, however often the operator reconciles it and whatever else happens, the object stays,
  with the finalizer, and every further reconcile fails.\<close>

theorem deletion_never_completes:
  assumes "awaiting_deletion ns name v (after s0 (w_log w))"
    and "rtranclp (continues (served rest phase s0) ext sh ns name v) w w'"
  shows "(\<exists>fw. sv_fgts (after s0 (w_log w')) (ns, name) = Some fw \<and>
      firewallFinalizer \<in> set (om_Finalizers (ff_Meta fw))) \<and>
    (\<exists>e. fst (ReconcileFortigateFirewall n (served rest phase s0) ext sh ns name w') = Inl e)"
proof -
  have wait: "awaiting_deletion ns name v (after s0 (w_log w'))"
    using assms(2)
  proof (induction rule: rtranclp_induct)
    case base
    show ?case by (rule assms(1))
  next
    case (step w1 w2)
    from step.hyps(2) show ?case
    proof cases
      case (reconciled m)
      then show ?thesis by (metis reconcile_keeps_waiting [OF step.IH refl] snd_conv)
    next
      case (other c)
      then show ?thesis using awaiting_commit [OF step.IH] by simp
    qed
  qed
  obtain e w1 where "ReconcileFortigateFirewall n (served rest phase s0) ext sh ns name w' = (Inl e, w1)"
    by (rule reconcile_keeps_waiting [OF wait refl])
  with wait show ?thesis by (auto simp: awaiting_deletion_def)
qed

section \<open>The example installation\<close>

definition demo_store :: server where
  "demo_store =
     \<lparr>sv_fgts = (\<lambda>_. None)((''ns'', ''fw'') := Some demo_fw),
      sv_vms = (\<lambda>_. None),
      sv_claims = (\<lambda>_. None)((''ns'', ''fortigate-7.2.0-fgt'') := Some (demo_pvc ''Bound'')),
      sv_services = (\<lambda>_. None),
      sv_secrets = (\<lambda>_. None)((''ns'', ''forti-credentials'') := Some [(''adminPassword'', ''pw''), (''apiUserName'', ''op'')]),
      sv_classes = (\<lambda>n. n = ''std'')\<rparr>"

definition demo_phase :: "call list \<Rightarrow> string \<Rightarrow> string \<Rightarrow> string" where
  "demo_phase h ns n = (if length h < 8 then ''Pending'' else ''Bound'')"

text \<open>The firewall before it has a token.\<close>

definition demo_new_fw :: FortigateFirewall where
  "demo_new_fw = demo_fw\<lparr>ff_Status := \<lparr>ffst_Conditions = [], ffst_Token = []\<rparr>\<rparr>"

lemma demo_surroundings:
  "working demo_cluster demo_phase 8" "answering demo_ssh ''key'' (fortiAddr demo_new_fw)" "has_key ''key'' (w_fs demo_world)"
  "wf_server demo_store" "sv_classes demo_store (ffs_PVCStorageClass (ff_Spec demo_new_fw))"
  "ffs_LicenseType (ff_Spec demo_new_fw) \<in> {''none'', ''flex'', ''file''}"
  "sv_secrets demo_store (''ns'', ''forti-credentials'') = Some [(''adminPassword'', ''pw''), (''apiUserName'', ''op'')]"
  "after demo_store (w_log demo_world) = demo_store"
proof -
  have l: "license_status ''License Status: Valid'' \<noteq> None" "FindSubmatch ''New API key:'' re_alnum ''New API key: abc1'' \<noteq> None" by code_simp+
  have k: "key_session user password \<noteq> status_session" for user password
    by (simp add: key_session_def status_session_def typed_def)
  have t: "[CHR 0x0D] @ ''get system status'' @ [CHR 0x0D] @ ''exit'' @ [CHR 0x0D] = status_session"
    by (simp add: status_session_def typed_def)
  show "answering demo_ssh ''key'' (fortiAddr demo_new_fw)"
    unfolding answering_def demo_ssh_def t using l k by (simp del: FindSubmatch.simps)
  show "has_key ''key'' (w_fs demo_world)" by (simp add: has_key_def demo_world_def content_at_def file_at_def)
qed (simp_all add: working_def demo_cluster_def demo_phase_def wf_server_def demo_store_def demo_new_fw_def demo_fw_def demo_world_def)

theorem firewall_brought_up_witness:
  "\<exists>st cs. doReconcileFirewall 9 (served demo_cluster demo_phase demo_store) demo_ssh ''ns'' demo_new_fw demo_world =
      (Inr st, demo_world\<lparr>w_log := cs\<rparr>) \<and> ffst_Token st = ''abc1'' \<and>
    (\<exists>vm. sv_vms (after demo_store cs) (''ns'', ''fw'') = Some vm \<and>
       map vv_ClaimName (vm_Volumes vm) = [''fw-7.2.0-fgt'', ''fw-7.2.0-cloud-init''])"
proof -
  note d = demo_surroundings
  have n: "8 < (9 :: nat)" by simp
  have l: "w_log demo_world = []" by (simp add: demo_world_def)
  have m: "map vv_ClaimName (vm_Volumes (createFortigateManifest ''fw'' ''7.2.0'' ''ns'' (ff_Spec demo_new_fw))) =
      [''fw-7.2.0-fgt'', ''fw-7.2.0-cloud-init'']" by code_simp
  have k: "FindSubmatch ''New API key:'' re_alnum ''New API key: abc1'' = Some ''abc1''"
    "FindSubmatch ''New API key:'' re_alnum ''License Status: Valid'' = None" "TrimSpace ''abc1'' = ''abc1''" by code_simp+
  have o': "fst (the (sh_output demo_ssh h a t)) \<in> {''New API key: abc1'', ''License Status: Valid''}" for h a t
    by (simp add: demo_ssh_def)
  have t: "ffst_Token st = ''abc1''" if "token_of demo_ssh demo_new_fw (ffst_Token st)" for st
  proof -
    have "ffst_Token (ff_Status demo_new_fw) = []" by (simp add: demo_new_fw_def)
    with that obtain h user password out t where s: "sh_output demo_ssh h (fortiAddr demo_new_fw) (key_session user password) = Some (out, None)"
      "FindSubmatch ''New API key:'' re_alnum out = Some t" "ffst_Token st = TrimSpace t"
      unfolding token_of_def by (auto simp del: FindSubmatch.simps)
    from o' [of h "fortiAddr demo_new_fw" "key_session user password"] s(1)
    have "out \<in> {''New API key: abc1'', ''License Status: Valid''}" by simp
    with s(2,3) k show ?thesis by (auto simp del: FindSubmatch.simps)
  qed
  have f: "fwName demo_new_fw = ''fw''" "ffs_FortigateVersion (ff_Spec demo_new_fw) = ''7.2.0''" "om_Namespace (ff_Meta demo_new_fw) = ''ns''"
    "sv_vms demo_store k = None" for k
    by (simp_all add: demo_new_fw_def demo_fw_def fwName_def demo_meta_def demo_store_def)
  from firewall_brought_up [OF d(1-3,8,4-7) _ _ n] obtain st cs where
    "doReconcileFirewall 9 (served demo_cluster demo_phase demo_store) demo_ssh ''ns'' demo_new_fw demo_world =
      (Inr st, demo_world\<lparr>w_log := cs\<rparr>)" "token_of demo_ssh demo_new_fw (ffst_Token st)"
    "sv_vms (after demo_store cs) (''ns'', ''fw'') = Some (createFortigateManifest ''fw'' ''7.2.0'' ''ns'' (ff_Spec demo_new_fw))"
    unfolding Let_def f l by auto
  with t [OF this(2)] m show ?thesis by (intro exI [of _ st] exI [of _ cs]) simp
qed

theorem second_reconcile_changes_nothing_witness:
  "\<exists>st w1 cs. doReconcileFirewall 9 (served demo_cluster demo_phase demo_store) demo_ssh ''ns'' demo_new_fw demo_world = (Inr st, w1) \<and>
    doReconcileFirewall 9 (served demo_cluster demo_phase demo_store) demo_ssh ''ns'' (demo_new_fw\<lparr>ff_Status := st\<rparr>) w1 =
      (Inr st, w1\<lparr>w_log := w_log w1 @ cs\<rparr>) \<and> list_all (harmless demo_new_fw) cs"
proof -
  note d = demo_surroundings
  have n: "8 < (9 :: nat)" by simp
  have c: "map_of [(''adminPassword'', ''pw''), (''apiUserName'', ''op'')] ''adminPassword'' \<noteq> None"
    "map_of [(''adminPassword'', ''pw''), (''apiUserName'', ''op'')] ''apiUserName'' \<noteq> None" by simp_all
  have "yields demo_store (has_key ''key'') (\<lambda>_. True)
      (doReconcileFirewall 9 (served demo_cluster demo_phase demo_store) demo_ssh ''ns'' demo_new_fw) demo_store
     (\<lambda>st. ffst_Conditions st = [] \<and> token_of demo_ssh demo_new_fw (ffst_Token st)) (brought_up demo_new_fw demo_store)"
    by (rule yields_reconcile [OF d(1,2,4,5) _ d(6,7) c _ n]) simp_all
  then obtain st w1 where r: "doReconcileFirewall 9 (served demo_cluster demo_phase demo_store) demo_ssh ''ns'' demo_new_fw demo_world = (Inr st, w1)"
    by (rule yieldsE [where I = "has_key ''key''", OF _ d(8,3)])
  from second_reconcile_changes_nothing [OF d(1-3,8,4-7) c n r] r show ?thesis by blast
qed

definition demo_leaving :: server where
  "demo_leaving = demo_store\<lparr>sv_fgts := (\<lambda>_. None)((''ns'', ''fw'') := Some demo_gone_fw)\<rparr>"

theorem deletion_never_completes_witness:
  "\<exists>e. fst (ReconcileFortigateFirewall 9 (served demo_cluster demo_phase demo_leaving) demo_ext demo_ssh ''ns'' ''fw''
     (snd (ReconcileFortigateFirewall 9 (served demo_cluster demo_phase demo_leaving) demo_ext demo_ssh ''ns'' ''fw'' demo_world))) = Inl e"
proof -
  have l: "w_log demo_world = []" by (simp add: demo_world_def)
  have s: "awaiting_deletion ''ns'' ''fw'' ''7.2.0'' (after demo_leaving (w_log demo_world))"
    by (simp add: l awaiting_deletion_def demo_leaving_def demo_store_def mounted_claim_def demo_gone_fw_def demo_gone_def
        demo_fw_def demo_meta_def)
  have "rtranclp (continues (served demo_cluster demo_phase demo_leaving) demo_ext demo_ssh ''ns'' ''fw'' ''7.2.0'') demo_world
      (snd (ReconcileFortigateFirewall 9 (served demo_cluster demo_phase demo_leaving) demo_ext demo_ssh ''ns'' ''fw'' demo_world))"
    by (rule r_into_rtranclp) (rule continues.reconciled)
  from deletion_never_completes [OF s this] show ?thesis by blast
qed

end
