(* ===== verification/Buckets.thy ===== *)
theory Buckets
  imports Terraform_Facts
begin

text \<open>
  The functions of \<open>internal/controller/s3_utils.go\<close> that look at a whole bucket: listing buckets
  and objects, reading one object and creating a bucket.  No controller calls them.  Errors are
  printed and turned into an empty result; a nil pointer in an answer is a panic.
\<close>

definition deref :: "'a option \<Rightarrow> 'a res" where
  "deref p = (case p of None \<Rightarrow> Inl (Panic ''nil pointer dereference'') | Some x \<Rightarrow> Inr x)"

definition ToString :: "string option \<Rightarrow> string" where
  "ToString p = (case p of None \<Rightarrow> [] | Some s \<Rightarrow> s)"

definition awsToInt64 :: "int option \<Rightarrow> int" where
  "awsToInt64 v = (case v of None \<Rightarrow> 0 | Some n \<Rightarrow> n)"

definition createS3Bucket :: "external \<Rightarrow> s3access \<Rightarrow> string \<Rightarrow> (world, unit) op" where
  "createS3Bucket ext acc bucketName =
     orElse (createS3Client ext acc) (\<lambda>err. ret ()) (\<lambda>_.
     orElse (ask (S3CreateBucket bucketName) (\<lambda>h. x_s3_create ext h bucketName))
       (\<lambda>err. ret ()) (\<lambda>_. ret ()))"

definition getS3Buckets :: "external \<Rightarrow> (world, Bucket list) op" where
  "getS3Buckets ext =
     orElse (ask S3Buckets (x_s3_buckets ext)) (\<lambda>err. ret []) (\<lambda>bs. if bs = [] then ret [] else ret bs)"

definition getS3Bucket :: "external \<Rightarrow> string \<Rightarrow> (world, Bucket option) op" where
  "getS3Bucket ext bucketName =
     andThen (getS3Buckets ext) (\<lambda>buckets.
     ret (List.find (\<lambda>b. ToString (bk_Name b) = bucketName) buckets))"

text \<open>The names are printed twice, through the pointer.\<close>

primrec printAll :: "Bucket list \<Rightarrow> (world, unit) op" where
  "printAll [] = ret ()"
| "printAll (b # bs) = andThen (liftRes (deref (bk_Name b))) (\<lambda>_. printAll bs)"

definition getS3AllBuckets :: "external \<Rightarrow> s3access \<Rightarrow> (world, unit) op" where
  "getS3AllBuckets ext acc =
     orElse (createS3Client ext acc) (\<lambda>err. ret ()) (\<lambda>_.
     andThen (getS3Buckets ext) (\<lambda>buckets. printAll buckets))"

text \<open>The region is printed through the pointer; a listing that fails is only logged, and its nil
  result dereferenced.\<close>

definition readS3Dir :: "external \<Rightarrow> string \<Rightarrow> (world, S3Object list) op" where
  "readS3Dir ext bucketName =
     andThen (getS3Bucket ext bucketName) (\<lambda>bucket.
     case bucket of
       None \<Rightarrow> ret []
     | Some b \<Rightarrow>
       (let bName = ToString (bk_Name b) in
        andThen (liftRes (deref (bk_Region b))) (\<lambda>_.
        orElse (ask (S3List bName []) (\<lambda>h. x_s3_objects ext h bName))
          (\<lambda>err. fail (Panic ''nil ListObjectsV2Output''))
          (\<lambda>contents. ret contents))))"

text \<open>A body that breaks off is only logged, and the part that was read is the result.\<close>

primrec readFirst :: "external \<Rightarrow> string \<Rightarrow> string \<Rightarrow> S3Object list \<Rightarrow> (world, string) op" where
  "readFirst ext bucketName filename [] = ret []"
| "readFirst ext bucketName filename (object # objects) =
     andThen (liftRes (deref (so_Key object))) (\<lambda>key.
     if key = filename then
       orElse (ask (S3Get bucketName key) (\<lambda>h. x_s3_get ext h bucketName key))
         (\<lambda>err. ret []) (\<lambda>(body, broken). ret body)
     else readFirst ext bucketName filename objects)"

definition readS3FileContent :: "external \<Rightarrow> s3access \<Rightarrow> string \<Rightarrow> string \<Rightarrow> (world, string) op" where
  "readS3FileContent ext acc bucketName filename =
     orElse (createS3Client ext acc) (\<lambda>err. ret []) (\<lambda>_.
     andThen (readS3Dir ext bucketName) (\<lambda>allfiles. readFirst ext bucketName filename allfiles))"

text \<open>Reading never writes: no object is put or deleted and no bucket created.\<close>

definition s3_write :: "call \<Rightarrow> bool" where
  "s3_write c = (case c of S3Put b k v \<Rightarrow> True | S3Delete b ks \<Rightarrow> True | S3CreateBucket b \<Rightarrow> True | _ \<Rightarrow> False)"

lemma s3_write_simps [simp]:
  "\<not> s3_write (S3Config u k s r)" "\<not> s3_write S3Buckets" "\<not> s3_write (S3List b p)" "\<not> s3_write (S3Get b k)"
  by (simp_all add: s3_write_def)

lemma quiet_getS3Buckets: "quiet s3_write (getS3Buckets ext)"
  unfolding getS3Buckets_def by (auto intro!: quiet_intros simp: quiet_ask simp del: op_simps)

lemma quiet_readS3Dir: "quiet s3_write (readS3Dir ext b)"
proof -
  have opt: "quiet s3_write (case bk of None \<Rightarrow> ret [] | Some x \<Rightarrow> f x)"
    if "\<And>x. quiet s3_write (f x)" for bk :: "Bucket option" and f :: "Bucket \<Rightarrow> (world, S3Object list) op"
    using that by (cases bk) (simp_all add: quiet_basic del: op_simps)
  show ?thesis
    unfolding readS3Dir_def getS3Bucket_def Let_def
    by (auto intro!: quiet_intros opt quiet_getS3Buckets simp: quiet_ask simp del: op_simps)
qed

lemma quiet_readFirst: "quiet s3_write (readFirst ext b f objs)"
  by (induction objs) (auto intro!: quiet_intros simp: quiet_ask simp del: op_simps)

lemma readS3FileContent_reads: "quiet s3_write (readS3FileContent ext acc b f)"
  unfolding readS3FileContent_def
  by (auto intro!: quiet_intros quiet_createS3Client quiet_readS3Dir quiet_readFirst simp del: op_simps)

lemma readFirst_first:
  assumes "\<forall>o' \<in> set pre. \<exists>k. so_Key o' = Some k \<and> k \<noteq> f" and "so_Key o1 = Some f"
    and "x_s3_get ext (w_log w) b f = Inr (body, broken)"
  shows "fst (readFirst ext b f (pre @ o1 # post) w) = Inr body"
  using assms by (induction pre) (auto simp: andThen_def deref_def orElse_def ask_def)

end
