(* ===== verification/Paths.thy ===== *)
theory Paths
  imports Store
begin

text \<open>
  Absolute paths as lists of components: how cleaning, joining, the directory, the base name and
  the ancestors of such a path are computed by the path functions of \<^theory_text>\<open>Store\<close>.
\<close>

section \<open>Components\<close>

definition component :: "string \<Rightarrow> bool" where
  "component c \<longleftrightarrow> c \<noteq> [] \<and> c \<noteq> ''.'' \<and> c \<noteq> ''..'' \<and> CHR ''/'' \<notin> set c"

abbreviation components :: "string list \<Rightarrow> bool" where
  "components \<equiv> list_all component"

primrec abs_path :: "string list \<Rightarrow> string" where
  "abs_path [] = []"
| "abs_path (c # cs) = CHR ''/'' # c @ abs_path cs"

lemma abs_path_append [simp]: "abs_path (cs @ ds) = abs_path cs @ abs_path ds"
  by (induction cs) simp_all

lemma abs_path_Nil [simp]: "abs_path cs = [] \<longleftrightarrow> cs = []"
  by (cases cs) simp_all

lemma Split_abs: "components (c # cs) \<Longrightarrow> Split (c @ abs_path cs) (CHR ''/'') = c # cs"
proof (induction cs arbitrary: c)
  case Nil
  then show ?case by (simp add: component_def Split_atom)
next
  case (Cons d ds)
  then show ?case by (simp add: component_def Split_append_sep)
qed

lemma Split_abs_path: "components cs \<Longrightarrow> cs \<noteq> [] \<Longrightarrow> Split (abs_path cs) (CHR ''/'') = [] # cs"
  by (cases cs) (use Split_append_sep [of "CHR ''/''" "[]"] Split_abs in auto)

lemma Join_abs: "components (c # cs) \<Longrightarrow> Join (c # cs) ''/'' = c @ abs_path cs"
  by (induction cs arbitrary: c) simp_all

lemma abs_path_Join: "cs \<noteq> [] \<Longrightarrow> CHR ''/'' # Join cs ''/'' = abs_path cs"
  by (induction cs rule: induct_list012) simp_all

lemma clean_parts_components: "components cs \<Longrightarrow> clean_parts rooted acc cs = rev acc @ cs"
  by (induction cs arbitrary: acc) (simp_all add: component_def)

lemma abs_path_inj: "components cs \<Longrightarrow> components ds \<Longrightarrow> abs_path cs = abs_path ds \<longleftrightarrow> cs = ds"
  by (metis Split_abs_path abs_path_Nil list.inject)

section \<open>The path functions\<close>

text \<open>Empty parts, from doubled or trailing slashes, vanish when a path is cleaned.\<close>

definition part :: "string \<Rightarrow> bool" where
  "part c \<longleftrightarrow> c = [] \<or> component c"

lemma part_no_slash: "part c \<Longrightarrow> CHR ''/'' \<notin> set c"
  by (auto simp: part_def component_def)

lemma clean_parts_part: "list_all part ps \<Longrightarrow> clean_parts rooted acc ps = rev acc @ filter (\<lambda>c. c \<noteq> []) ps"
  by (induction ps arbitrary: acc) (auto simp: part_def component_def)

lemma Split_rooted:
  assumes "list_all part ps" "ps \<noteq> []"
  shows "Split (CHR ''/'' # Join ps ''/'') (CHR ''/'') = [] # ps"
  using Split_append_sep [of "CHR ''/''" "[]" "Join ps ''/''"] Split_Join [OF assms(2), of "CHR ''/''"] assms(1)
  by (auto simp: list_all_iff part_no_slash)

lemma Clean_rooted:
  assumes "list_all part ps" "filter (\<lambda>c. c \<noteq> []) ps \<noteq> []"
  shows "filepath_Clean (CHR ''/'' # Join ps ''/'') = abs_path (filter (\<lambda>c. c \<noteq> []) ps)"
proof -
  have ps: "ps \<noteq> []" using assms(2) by auto
  have "clean_parts True [] (Split (CHR ''/'' # Join ps ''/'') (CHR ''/'')) = filter (\<lambda>c. c \<noteq> []) ps"
    unfolding Split_rooted [OF assms(1) ps] by (simp add: clean_parts_part [OF assms(1)])
  then show ?thesis
    by (simp add: filepath_Clean_def HasPrefix_def abs_path_Join [OF assms(2)] del: Split.simps)
qed

lemma components_part: "components cs \<Longrightarrow> list_all part cs \<and> filter (\<lambda>c. c \<noteq> []) cs = cs"
  by (induction cs) (auto simp: part_def component_def)

lemma Clean_abs: "components cs \<Longrightarrow> cs \<noteq> [] \<Longrightarrow> filepath_Clean (abs_path cs) = abs_path cs"
  using Clean_rooted [of cs] components_part [of cs] by (simp add: abs_path_Join)

lemma Join_trailing: "cs \<noteq> [] \<Longrightarrow> CHR ''/'' # Join (cs @ [[]]) ''/'' = abs_path cs @ ''/''"
  by (induction cs rule: induct_list012) simp_all

lemma Clean_trailing: "components cs \<Longrightarrow> cs \<noteq> [] \<Longrightarrow> filepath_Clean (abs_path cs @ ''/'') = abs_path cs"
  using Clean_rooted [of "cs @ [[]]"] components_part [of cs] Join_trailing [of cs] by (simp add: part_def)

lemma abs_path_last:
  assumes "component c"
  shows "rev (dropWhile (\<lambda>x. x \<noteq> CHR ''/'') (rev (abs_path (cs @ [c])))) = abs_path cs @ ''/''"
    and "rev (takeWhile (\<lambda>x. x \<noteq> CHR ''/'') (rev (abs_path (cs @ [c])))) = c"
proof -
  have c: "CHR ''/'' \<notin> set (rev c)" using assms by (simp add: component_def)
  then have "takeWhile (\<lambda>x. x \<noteq> CHR ''/'') (rev c @ CHR ''/'' # rev (abs_path cs)) = rev c"
    "dropWhile (\<lambda>x. x \<noteq> CHR ''/'') (rev c @ CHR ''/'' # rev (abs_path cs)) = CHR ''/'' # rev (abs_path cs)"
    by (auto simp: takeWhile_append dropWhile_append)
  then show "rev (dropWhile (\<lambda>x. x \<noteq> CHR ''/'') (rev (abs_path (cs @ [c])))) = abs_path cs @ ''/''"
    "rev (takeWhile (\<lambda>x. x \<noteq> CHR ''/'') (rev (abs_path (cs @ [c])))) = c" by simp_all
qed

lemma Dir_abs: "components cs \<Longrightarrow> cs \<noteq> [] \<Longrightarrow> component c \<Longrightarrow> filepath_Dir (abs_path (cs @ [c])) = abs_path cs"
  using abs_path_last [of c cs] Clean_trailing [of cs] by (simp add: filepath_Dir_def)

lemma Base_abs:
  assumes "component c"
  shows "filepath_Base (abs_path (cs @ [c])) = c"
proof -
  have "dropWhile (\<lambda>x. x = CHR ''/'') (rev (abs_path (cs @ [c]))) = rev (abs_path (cs @ [c]))"
    using assms by (cases c rule: rev_cases) (auto simp: component_def)
  with abs_path_last [OF assms, of cs] show ?thesis by (simp add: filepath_Base_def)
qed

lemma Join_append: "cs \<noteq> [] \<Longrightarrow> ps \<noteq> [] \<Longrightarrow> Join (cs @ ps) sep = Join cs sep @ sep @ Join ps sep"
  by (induction cs rule: induct_list012) simp_all

lemma Join_dirs:
  assumes cs: "components cs" "cs \<noteq> []" and ps: "list_all part ps" "filter (\<lambda>c. c \<noteq> []) ps \<noteq> []"
  shows "filepath_Join [abs_path cs, Join ps ''/''] = abs_path (cs @ filter (\<lambda>c. c \<noteq> []) ps)"
    and "filepath_Join [abs_path cs @ ''/'', Join ps ''/''] = abs_path (cs @ filter (\<lambda>c. c \<noteq> []) ps)"
proof -
  have ne: "ps \<noteq> []" using ps(2) by auto
  have j: "filepath_Join [a, b] = filepath_Clean (a @ ''/'' @ b)" if "a \<noteq> []" for a b
    using that by (simp add: filepath_Join_def)
  have j1: "CHR ''/'' # Join (cs @ ps) ''/'' = abs_path cs @ ''/'' @ Join ps ''/''"
    using abs_path_Join [OF cs(2)] by (simp add: Join_append [OF cs(2) ne] flip: append_Cons)
  have j2: "CHR ''/'' # Join (cs @ [] # ps) ''/'' = (abs_path cs @ ''/'') @ ''/'' @ Join ps ''/''"
    using abs_path_Join [OF cs(2)] ne by (simp add: Join_append [OF cs(2)] flip: append_Cons)
  note c = components_part [OF cs(1)]
  show "filepath_Join [abs_path cs, Join ps ''/''] = abs_path (cs @ filter (\<lambda>c. c \<noteq> []) ps)"
    using cs(2) Clean_rooted [of "cs @ ps"] c ps by (simp add: j j1)
  show "filepath_Join [abs_path cs @ ''/'', Join ps ''/''] = abs_path (cs @ filter (\<lambda>c. c \<noteq> []) ps)"
    using Clean_rooted [of "cs @ [] # ps"] c ps by (simp add: j j2 part_def del: append.append_Nil)
qed

section \<open>Ancestors\<close>

lemma ancestors_abs:
  assumes "components cs" "cs \<noteq> []"
  shows "set (ancestors (abs_path cs)) = {abs_path (take i cs) | i. 0 < i \<and> i \<le> length cs}"
proof -
  have j: "Join (take (Suc i) ([] # cs)) ''/'' = abs_path (take i cs)" for i
    using abs_path_Join [of "take i cs"] by (cases cs; cases i) auto
  have "map (\<lambda>i. Join (take i ([] # cs)) ''/'') [1..<length ([] # cs) + 1] =
      map (\<lambda>i. abs_path (take i cs)) [0..<Suc (length cs)]"
    unfolding j [symmetric] by (rule nth_equalityI) (simp_all del: upt_Suc take_Suc_Cons)
  then have "set (ancestors (abs_path cs)) = (\<lambda>i. abs_path (take i cs)) ` {0..<Suc (length cs)} - {[]}"
    using assms by (auto simp: ancestors_def Let_def Clean_abs Split_abs_path simp del: upt_Suc)
  then show ?thesis using assms(2) by (auto simp: less_Suc_eq_le)
qed

end
