(* ===== verification/Delivery.thy ===== *)
theory Delivery
  imports Cluster_Properties Paths
begin

text \<open>
  What OpenTofu sees when a \<open>FortigateConfig\<close> is reconciled: from the template in the bucket over the
  download, the copy, the engine and the rule to the files in the working directory.  A download may
  fail, or break off: the code then works on what the file holds.
\<close>

section \<open>What downloading leaves alone\<close>

text \<open>
  Up to the depth \<open>n\<close> no file has changed, and below it no directory has been made.
\<close>

definition within :: "nat \<Rightarrow> fs \<Rightarrow> fs \<Rightarrow> bool" where
  "within n s s' \<longleftrightarrow> refused s' = refused s \<and>
     (\<forall>ds. components ds \<and> length ds \<le> n \<longrightarrow> file_at s' (abs_path ds) = file_at s (abs_path ds)) \<and>
     (\<forall>ds. components ds \<and> n < length ds \<and> is_dir s' (abs_path ds) \<longrightarrow> is_dir s (abs_path ds))"

lemma within_refl [simp]: "within n s s"
  by (simp add: within_def)

lemma within_trans: "within n s s1 \<Longrightarrow> within n s1 s2 \<Longrightarrow> within n s s2"
  by (simp add: within_def)

lemma mkdirs_dirs: "mkdirs ps s = (r, s') \<Longrightarrow> set (dirs s') \<subseteq> set (dirs s) \<union> set ps"
proof (induction ps arbitrary: s)
  case Nil
  then show ?case by simp
next
  case (Cons p ps)
  obtain r1 s1 where m: "Mkdir1 p s = (r1, s1)" by (cases "Mkdir1 p s")
  then have "set (dirs s1) \<subseteq> insert p (set (dirs s))" by (auto simp: Mkdir1_def split: if_splits)
  with m Cons show ?case by (cases r1) (fastforce simp: andThen_def)+
qed

lemma within_MkdirAll:
  assumes "MkdirAll (abs_path cs) s = (r, s')" "components cs" "cs \<noteq> []" "length cs \<le> n"
  shows "within n s s'"
proof -
  have files: "files s' = files s" "refused s' = refused s"
    using mkdirs_files assms(1) by (auto simp: MkdirAll_def)
  have "is_dir s (abs_path ds)"
    if ds: "components ds" "n < length ds" "is_dir s' (abs_path ds)" for ds
  proof (rule ccontr)
    assume "\<not> is_dir s (abs_path ds)"
    with ds(3) mkdirs_dirs [of "ancestors (abs_path cs)" s r s'] assms(1)
    have "abs_path ds \<in> set (ancestors (abs_path cs))" by (auto simp: is_dir_def MkdirAll_def)
    then obtain i where i: "abs_path ds = abs_path (take i cs)" by (auto simp: ancestors_abs [OF assms(2,3)])
    have "components (take i cs)" using assms(2) by (auto simp: list_all_iff dest: in_set_takeD)
    with i ds(1) have "ds = take i cs" by (simp add: abs_path_inj)
    with ds(2) assms(4) show False by simp
  qed
  with files show ?thesis by (auto simp: within_def file_at_def)
qed

lemma within_WriteFile:
  assumes "WriteFile (abs_path cs) c perm s = (r, s')" "components cs" "n < length cs"
  shows "within n s s'"
proof -
  have "dirs s' = dirs s" "refused s' = refused s"
    "files s' = files s \<or> (\<exists>f. files s' = map_put (files s) (abs_path cs) f)"
    using assms(1) by (auto simp: WriteFile_def split: if_splits option.splits)
  moreover have "abs_path ds \<noteq> abs_path cs" if "components ds" "length ds \<le> n" for ds
    using that assms(2,3) by (auto simp: abs_path_inj)
  ultimately show ?thesis by (auto simp: within_def is_dir_def file_at_def update_conv')
qed

section \<open>Room for a file\<close>

text \<open>
  Nothing is in the way of writing the file \<open>cs\<close>: the system refuses neither it nor any directory
  above it, none of these directories is a file, and it is no directory.
\<close>

definition room :: "fs \<Rightarrow> string list \<Rightarrow> bool" where
  "room s cs \<longleftrightarrow> \<not> refused s (abs_path cs) \<and> \<not> is_dir s (abs_path cs) \<and>
     (\<forall>i \<in> {1..<length cs}. \<not> refused s (abs_path (take i cs)) \<and> file_at s (abs_path (take i cs)) = None)"

lemma components_take: "components cs \<Longrightarrow> components (take i cs)"
  by (auto simp: list_all_iff dest: in_set_takeD)

lemma room_within: "within n s s' \<Longrightarrow> length cs = Suc n \<Longrightarrow> components cs \<Longrightarrow> room s cs \<Longrightarrow> room s' cs"
  by (auto simp: within_def room_def components_take)

lemma mkdirs_succeed:
  assumes "\<forall>p \<in> set ps. is_dir s p \<or> (file_at s p = None \<and> \<not> refused s p)"
  shows "\<exists>s'. mkdirs ps s = (Inr (), s') \<and> (\<forall>p \<in> set ps \<union> set (dirs s). is_dir s' p)"
  using assms
proof (induction ps arbitrary: s)
  case Nil
  then show ?case by (simp add: is_dir_def)
next
  case (Cons p ps)
  define s1 where "s1 = (if is_dir s p then s else s\<lparr>dirs := p # dirs s\<rparr>)"
  then have p: "is_dir s1 p" and s1: "set (dirs s) \<subseteq> set (dirs s1)" by (auto simp: is_dir_def)
  have "is_dir s p \<or> (file_at s p = None \<and> \<not> refused s p)" using Cons.prems by simp
  then have m: "Mkdir1 p s = (Inr (), s1)" by (auto simp: Mkdir1_def s1_def)
  have "\<forall>p \<in> set ps. is_dir s1 p \<or> (file_at s1 p = None \<and> \<not> refused s1 p)"
    using Cons.prems by (simp add: s1_def is_dir_def) blast
  from Cons.IH [OF this] obtain s' where "mkdirs ps s1 = (Inr (), s')"
    and "\<forall>p \<in> set ps \<union> set (dirs s1). is_dir s' p" by blast
  moreover have "is_dir s' p" using p \<open>\<forall>p \<in> set ps \<union> set (dirs s1). is_dir s' p\<close> by (auto simp: is_dir_def)
  ultimately show ?case using m s1 by (intro exI [of _ s']) (auto simp: andThen_Inr)
qed

lemma room_write:
  assumes "room s (cs @ [c])" "components (cs @ [c])" "cs \<noteq> []"
  obtains s1 s2 where "MkdirAll (abs_path cs) s = (Inr (), s1)"
    "WriteFile (abs_path (cs @ [c])) x perm s1 = (Inr (), s2)"
proof -
  have cs: "components cs" "component c" using assms(2) by simp_all
  have "\<forall>p \<in> set (ancestors (abs_path cs)). is_dir s p \<or> (file_at s p = None \<and> \<not> refused s p)"
  proof
    fix p assume "p \<in> set (ancestors (abs_path cs))"
    then obtain i where "p = abs_path (take i (cs @ [c]))" "0 < i" "i < length (cs @ [c])"
      by (auto simp: ancestors_abs [OF cs(1) assms(3)])
    with assms(1) show "is_dir s p \<or> (file_at s p = None \<and> \<not> refused s p)" by (auto simp: room_def)
  qed
  from mkdirs_succeed [OF this] obtain s1 where m: "MkdirAll (abs_path cs) s = (Inr (), s1)"
    and d: "\<forall>p \<in> set (ancestors (abs_path cs)). is_dir s1 p" by (auto simp: MkdirAll_def)
  have "abs_path cs \<in> set (ancestors (abs_path cs))"
    using assms(3) by (auto simp: ancestors_abs [OF cs(1) assms(3)] intro!: exI [of _ "length cs"])
  with d have dir: "is_dir s1 (filepath_Dir (abs_path (cs @ [c])))" using Dir_abs [OF cs(1) assms(3) cs(2)] by simp
  have "within (length cs) s s1" by (rule within_MkdirAll [OF m cs(1) assms(3)]) simp
  from room_within [OF this _ assms(2,1)] have r: "room s1 (cs @ [c])" by simp
  obtain r2 s2 where w: "WriteFile (abs_path (cs @ [c])) x perm s1 = (r2, s2)"
    by (cases "WriteFile (abs_path (cs @ [c])) x perm s1")
  with r dir have "r2 = Inr ()" by (auto simp: WriteFile_def room_def simp del: abs_path_append split: option.splits)
  with m w that show ?thesis by blast
qed

section \<open>Downloading\<close>

text \<open>\<open>keeps n w w'\<close>: up to the depth \<open>n\<close> nothing happened to the files, and the package variables are the same.\<close>

definition keeps :: "nat \<Rightarrow> world \<Rightarrow> world \<Rightarrow> bool" where
  "keeps n w w' \<longleftrightarrow> within n (w_fs w) (w_fs w') \<and> w_reg w' = w_reg w"

lemma keeps_refl [simp]: "keeps n w w"
  by (simp add: keeps_def)

lemma keeps_trans: "keeps n w w1 \<Longrightarrow> keeps n w1 w2 \<Longrightarrow> keeps n w w2"
  by (auto simp: keeps_def intro: within_trans)

lemma keeps_same: "w_fs w' = w_fs w \<Longrightarrow> w_reg w' = w_reg w \<Longrightarrow> keeps n w w'"
  by (simp add: keeps_def)

text \<open>
  \<open>brought n p body w w'\<close>: the same, and the file \<open>p\<close> holds what it held or \<open>body\<close>; the others what
  they held.
\<close>

definition brought :: "nat \<Rightarrow> string \<Rightarrow> string \<Rightarrow> world \<Rightarrow> world \<Rightarrow> bool" where
  "brought n p body w w' \<longleftrightarrow> keeps n w w' \<and>
     (\<forall>q. content_at (w_fs w') q = content_at (w_fs w) q \<or> (q = p \<and> content_at (w_fs w') q = Some body))"

lemma brought_refl [simp]: "brought n p body w w"
  by (simp add: brought_def)

lemma brought_trans: "brought n p body w w1 \<Longrightarrow> brought n p body w1 w2 \<Longrightarrow> brought n p body w w2"
  unfolding brought_def using keeps_trans by metis

lemma brought_has: "brought n p body w w' \<Longrightarrow> content_at (w_fs w) p = Some body \<Longrightarrow> content_at (w_fs w') p = Some body"
  unfolding brought_def by metis

lemma brought_other: "brought n p body w w' \<Longrightarrow> q \<noteq> p \<Longrightarrow> content_at (w_fs w') q = content_at (w_fs w) q"
  unfolding brought_def by blast

lemma downloadFile_files:
  "w_reg (snd (downloadFile ext b key p w)) = w_reg w \<and> w_fs (snd (downloadFile ext b key p w)) =
     (case MkdirAll (filepath_Dir p) (w_fs w) of
        (Inl e, s1) \<Rightarrow> s1
      | (Inr _, s1) \<Rightarrow>
          (case x_s3_get ext (w_log w) b key of
             Inl e \<Rightarrow> s1
           | Inr (body, broken) \<Rightarrow> snd (WriteFile p body 438 s1)))"
proof -
  obtain r1 s1 where m: "MkdirAll (filepath_Dir p) (w_fs w) = (r1, s1)" by (cases "MkdirAll (filepath_Dir p) (w_fs w)")
  show ?thesis
  proof (cases "x_s3_get ext (w_log w) b key")
    case (Inl e)
    with m show ?thesis by (cases r1) (simp_all add: downloadFile_def andThen_def wrapErr_def onFs_def ask_def)
  next
    case (Inr x)
    obtain body broken where x: "x = (body, broken)" by (cases x)
    obtain r2 s2 where f: "WriteFile p body 438 s1 = (r2, s2)" by (cases "WriteFile p body 438 s1")
    with m Inr x show ?thesis
      by (cases r1; cases r2; cases broken) (simp_all add: downloadFile_def andThen_def wrapErr_def onFs_def ask_def ret_def fail_def)
  qed
qed

text \<open>Whatever S3 sends for the key is the text \<open>body\<close>, be it the whole object or the part before a break.\<close>

definition only_sends :: "external \<Rightarrow> string \<Rightarrow> string \<Rightarrow> string \<Rightarrow> bool" where
  "only_sends ext b key body \<longleftrightarrow> (\<forall>h c broken. x_s3_get ext h b key = Inr (c, broken) \<longrightarrow> c = body)"

lemma downloadFile_brings:
  assumes run: "downloadFile ext b key (abs_path (cs @ [c])) w = (r, w')"
    and cs: "components (cs @ [c])" "cs \<noteq> []" and body: "only_sends ext b key body"
  shows "brought (length cs) (abs_path (cs @ [c])) body w w'"
proof -
  let ?p = "abs_path (cs @ [c])"
  have comp: "components cs" "component c" using cs(1) by simp_all
  have d: "filepath_Dir ?p = abs_path cs" by (rule Dir_abs [OF comp(1) cs(2) comp(2)])
  obtain r1 s1 where m: "MkdirAll (abs_path cs) (w_fs w) = (r1, s1)" by (cases "MkdirAll (abs_path cs) (w_fs w)")
  have k1: "within (length cs) (w_fs w) s1" by (rule within_MkdirAll [OF m comp(1) cs(2)]) simp
  have c1: "content_at s1 q = content_at (w_fs w) q" for q using MkdirAll_files [OF m] by blast
  have w': "w_reg w' = w_reg w" "w_fs w' = (case r1 of Inl e \<Rightarrow> s1 | Inr _ \<Rightarrow>
      (case x_s3_get ext (w_log w) b key of Inl e \<Rightarrow> s1 | Inr (x, broken) \<Rightarrow> snd (WriteFile ?p x 438 s1)))"
    using downloadFile_files [of ext b key ?p w] run d m by (simp_all split: sum.splits)
  consider "w_fs w' = s1" | x broken r2 where "x_s3_get ext (w_log w) b key = Inr (x, broken)"
      "WriteFile ?p x 438 s1 = (r2, w_fs w')"
  proof (cases r1)
    case (Inr u)
    show thesis
    proof (cases "x_s3_get ext (w_log w) b key")
      case (Inr y)
      then have "x_s3_get ext (w_log w) b key = Inr (fst y, snd y)"
        "WriteFile ?p (fst y) 438 s1 = (fst (WriteFile ?p (fst y) 438 s1), w_fs w')"
        using w'(2) \<open>r1 = Inr u\<close> by (simp_all add: split_beta)
      with that(2) show thesis by blast
    qed (use w'(2) Inr that(1) in simp)
  qed (use w'(2) that(1) in simp)
  then have "within (length cs) (w_fs w) (w_fs w') \<and>
    (\<forall>q. content_at (w_fs w') q = content_at (w_fs w) q \<or> (q = ?p \<and> content_at (w_fs w') q = Some body))"
  proof cases
    case 1
    with k1 c1 show ?thesis by simp
  next
    case (2 x broken r2)
    have x: "x = body" using body 2(1) by (auto simp: only_sends_def)
    have "within (length cs) s1 (w_fs w')" by (rule within_WriteFile [OF 2(2) cs(1)]) simp
    with k1 have "within (length cs) (w_fs w) (w_fs w')" by (rule within_trans)
    moreover have "content_at (w_fs w') q = content_at (w_fs w) q \<or> (q = ?p \<and> content_at (w_fs w') q = Some body)" for q
    proof (cases r2)
      case (Inl e)
      with WriteFile_err 2(2) c1 show ?thesis by metis
    next
      case (Inr u)
      with WriteFile_ok [of ?p x 438 s1 u "w_fs w'" q] 2(2) c1 x show ?thesis by auto
    qed
    ultimately show ?thesis by blast
  qed
  with w'(1) show ?thesis by (simp add: brought_def keeps_def)
qed

text \<open>The file is there if S3 answers and there is room for it, even if the body breaks off.\<close>

lemma downloadFile_room:
  assumes "room (w_fs w) (cs @ [c])" "components (cs @ [c])" "cs \<noteq> []"
    and "only_sends ext b key body" and "\<And>h. \<exists>x. x_s3_get ext h b key = Inr x"
  shows "content_at (w_fs (snd (downloadFile ext b key (abs_path (cs @ [c])) w))) (abs_path (cs @ [c])) = Some body"
proof -
  obtain s1 s2 where m: "MkdirAll (abs_path cs) (w_fs w) = (Inr (), s1)"
    and f: "WriteFile (abs_path (cs @ [c])) body 438 s1 = (Inr (), s2)"
    using room_write [OF assms(1-3)] by blast
  have cs: "components cs" "component c" using assms(2) by simp_all
  have d: "filepath_Dir (abs_path (cs @ [c])) = abs_path cs" by (rule Dir_abs [OF cs(1) assms(3) cs(2)])
  obtain broken where "x_s3_get ext (w_log w) b key = Inr (body, broken)"
    using assms(4) assms(5) [of "w_log w"] unfolding only_sends_def by (metis surj_pair)
  then have "w_fs (snd (downloadFile ext b key (abs_path (cs @ [c])) w)) = s2"
    using m f downloadFile_files [of ext b key "abs_path (cs @ [c])" w] by (simp add: d del: abs_path_append)
  then show ?thesis using WriteFile_ok [OF f, of "abs_path (cs @ [c])"] by simp
qed

text \<open>
  \<open>at_hand\<close>: the local file holds the text, or S3 lists the key, answers every request for it and
  there is room for the file.
\<close>

definition at_hand :: "external \<Rightarrow> string \<Rightarrow> string \<Rightarrow> string \<Rightarrow> fs \<Rightarrow> string list \<Rightarrow> bool" where
  "at_hand ext b key body s cs \<longleftrightarrow> content_at s (abs_path cs) = Some body \<or>
     (room s cs \<and> (\<forall>h. (\<exists>ks. Inr ks \<in> set (x_s3_pages ext h b key) \<and> ks \<noteq> []) \<and> (\<exists>x. x_s3_get ext h b key = Inr x)))"

lemma at_hand_download:
  assumes "at_hand ext b key body (w_fs w) (cs @ [c])" "components (cs @ [c])" "cs \<noteq> []" "only_sends ext b key body"
  shows "content_at (w_fs (snd (downloadFile ext b key (abs_path (cs @ [c])) w))) (abs_path (cs @ [c])) = Some body"
proof (cases "content_at (w_fs w) (abs_path (cs @ [c])) = Some body")
  case True
  have "brought (length cs) (abs_path (cs @ [c])) body w (snd (downloadFile ext b key (abs_path (cs @ [c])) w))"
    by (rule downloadFile_brings [OF _ assms(2-4)]) (rule prod.collapse [symmetric])
  then show ?thesis using True by (rule brought_has)
next
  case False
  with assms(1) have "room (w_fs w) (cs @ [c])" "\<And>h. \<exists>x. x_s3_get ext h b key = Inr x"
    by (simp_all add: at_hand_def)
  with downloadFile_room assms(2-4) show ?thesis by blast
qed

lemma downloadPage_brings:
  assumes "downloadPage ext b dir keys w = (r, w')" "set keys \<subseteq> {key}" "\<not> HasSuffix key ''/''"
    and j: "filepath_Join [dir, key] = abs_path (cs @ [c])"
    and cs: "components (cs @ [c])" "cs \<noteq> []" "only_sends ext b key body"
  shows "brought (length cs) (abs_path (cs @ [c])) body w w' \<and>
    (keys \<noteq> [] \<and> at_hand ext b key body (w_fs w) (cs @ [c]) \<longrightarrow> content_at (w_fs w') (abs_path (cs @ [c])) = Some body)"
  using assms(1,2)
proof (induction keys arbitrary: w)
  case Nil
  then show ?case by simp
next
  case (Cons k keys)
  let ?w1 = "snd (downloadFile ext b key (abs_path (cs @ [c])) w)"
  have k: "k = key" and ks: "set keys \<subseteq> {key}" using Cons.prems(2) by auto
  have run: "downloadPage ext b dir keys ?w1 = (r, w')" using Cons.prems(1) k assms(3) j by simp
  have d: "brought (length cs) (abs_path (cs @ [c])) body w ?w1"
    by (rule downloadFile_brings [OF _ cs]) (rule prod.collapse [symmetric])
  note ih = Cons.IH [OF run ks]
  with d have "brought (length cs) (abs_path (cs @ [c])) body w w'" by (blast intro: brought_trans)
  moreover have "content_at (w_fs w') (abs_path (cs @ [c])) = Some body"
    if "at_hand ext b key body (w_fs w) (cs @ [c])"
    using brought_has [OF conjunct1 [OF ih] at_hand_download [OF that cs]] .
  ultimately show ?case by blast
qed

lemma downloadPages_bring:
  assumes "downloadPages ext b dir pages w = (Inr u, w')" "\<And>ks. Inr ks \<in> set pages \<Longrightarrow> set ks \<subseteq> {key}"
    and key: "\<not> HasSuffix key ''/''" and j: "filepath_Join [dir, key] = abs_path (cs @ [c])"
    and cs: "components (cs @ [c])" "cs \<noteq> []" "only_sends ext b key body"
  shows "brought (length cs) (abs_path (cs @ [c])) body w w' \<and>
    ((\<exists>ks. Inr ks \<in> set pages \<and> ks \<noteq> []) \<and> at_hand ext b key body (w_fs w) (cs @ [c]) \<longrightarrow>
       content_at (w_fs w') (abs_path (cs @ [c])) = Some body)"
  using assms(1,2)
proof (induction pages arbitrary: w)
  case Nil
  then show ?case by simp
next
  case (Cons page pages)
  let ?p = "abs_path (cs @ [c])"
  obtain keys x w1 where p: "page = Inr keys" and 1: "downloadPage ext b dir keys w = (Inr x, w1)"
    and 2: "downloadPages ext b dir pages w1 = (Inr u, w')"
    using Cons.prems(1) by (auto simp: andThen_ok)
  have "set keys \<subseteq> {key}" using Cons.prems(2) p by simp
  note d = downloadPage_brings [OF 1 this key j cs]
  have ih: "brought (length cs) ?p body w1 w' \<and>
    ((\<exists>ks. Inr ks \<in> set pages \<and> ks \<noteq> []) \<and> at_hand ext b key body (w_fs w1) (cs @ [c]) \<longrightarrow> content_at (w_fs w') ?p = Some body)"
    using Cons.IH [OF 2] Cons.prems(2) by simp
  with d have "brought (length cs) ?p body w w'" by (blast intro: brought_trans)
  moreover have "content_at (w_fs w') ?p = Some body"
    if a: "\<exists>ks. Inr ks \<in> set (page # pages) \<and> ks \<noteq> []" "at_hand ext b key body (w_fs w) (cs @ [c])"
  proof (cases "keys = []")
    case True
    with 1 have "w1 = w" by simp
    with a True p ih show ?thesis by auto
  next
    case False
    with d a(2) have "content_at (w_fs w1) ?p = Some body" by blast
    with ih brought_has show ?thesis by blast
  qed
  ultimately show ?case by blast
qed

text \<open>
  The prefix lists no other key, in any of its pages, and whatever S3 sends for the key is \<open>body\<close>.
  Pages, requests and bodies may fail at any time.
\<close>

definition delivers :: "external \<Rightarrow> string \<Rightarrow> string \<Rightarrow> string \<Rightarrow> bool" where
  "delivers ext b key body \<longleftrightarrow> only_sends ext b key body \<and>
     (\<forall>h ks. Inr ks \<in> set (x_s3_pages ext h b key) \<longrightarrow> set ks \<subseteq> {key})"

text \<open>The key \<open>rules-templates/t\<close>, and the file it is downloaded to.\<close>

definition tmpl_key :: "string \<Rightarrow> string" where
  "tmpl_key t = ''rules-templates/'' @ t"

lemma tmpl_key_path:
  assumes "components cs" "cs \<noteq> []" "component t"
  shows "filepath_Join [abs_path cs @ ''/'', tmpl_key t] = abs_path (cs @ [''rules-templates'', t])"
proof -
  have r: "part ''rules-templates'' \<and> part t" using assms(3) by (simp add: part_def component_def)
  have "t \<noteq> []" using assms(3) by (simp add: component_def)
  then show ?thesis
    using Join_dirs(2) [OF assms(1,2), of "[''rules-templates'', t]"] r by (simp add: tmpl_key_def)
qed

lemma copyS3_brings:
  assumes "copyS3DirContent ext b acc (tmpl_key t) (abs_path cs @ ''/'') w = (Inr u, w')"
    and del: "delivers ext b (tmpl_key t) body"
    and cs: "components cs" "cs \<noteq> []" "component t"
    and hand: "at_hand ext b (tmpl_key t) body (w_fs w) (cs @ [''rules-templates'', t])"
  shows "keeps (Suc (length cs)) w w'"
    and "content_at (w_fs w') q =
      (if q = abs_path (cs @ [''rules-templates'', t]) then Some body else content_at (w_fs w) q)"
proof -
  let ?d = "cs @ [''rules-templates'']"
  from assms(1) obtain w1 where c: "createS3Client ext acc w = (Inr (), w1)"
    and p: "downloadPages ext b (abs_path cs @ ''/'') (x_s3_pages ext (w_log w1) b (tmpl_key t))
      (w1\<lparr>w_log := w_log w1 @ [S3List b (tmpl_key t)]\<rparr>) = (Inr u, w')"
    by (auto simp: copyS3DirContent_def andThen_ok ask_def)
  let ?w2 = "w1\<lparr>w_log := w_log w1 @ [S3List b (tmpl_key t)]\<rparr>"
  have same: "w_fs ?w2 = w_fs w" "w_reg ?w2 = w_reg w"
    using c by (auto simp: createS3Client_def andThen_ok getReg_def ask_def)
  have slash: "\<not> HasSuffix (tmpl_key t) ''/''"
    using cs(3) by (cases t rule: rev_cases) (auto simp: component_def tmpl_key_def HasSuffix_iff)
  have join: "filepath_Join [abs_path cs @ ''/'', tmpl_key t] = abs_path (?d @ [t])"
    using tmpl_key_path [OF cs] by (simp del: abs_path_append)
  have comp: "components (?d @ [t])" "?d \<noteq> []" using cs by (simp_all add: component_def)
  have hand2: "at_hand ext b (tmpl_key t) body (w_fs ?w2) (?d @ [t])" using hand same(1) by simp
  have d: "only_sends ext b (tmpl_key t) body" "\<And>ks. Inr ks \<in> set (x_s3_pages ext (w_log w1) b (tmpl_key t)) \<Longrightarrow> set ks \<subseteq> {tmpl_key t}"
    using del by (auto simp: delivers_def)
  note run = downloadPages_bring [OF p d(2) slash join comp d(1)]
  have "content_at (w_fs w') (abs_path (?d @ [t])) = Some body"
  proof (cases "content_at (w_fs ?w2) (abs_path (?d @ [t])) = Some body")
    case True
    with run brought_has show ?thesis by blast
  next
    case False
    with hand2 have "\<exists>ks. Inr ks \<in> set (x_s3_pages ext (w_log w1) b (tmpl_key t)) \<and> ks \<noteq> []"
      by (simp add: at_hand_def)
    with run hand2 show ?thesis by blast
  qed
  with run same show "keeps (Suc (length cs)) w w'"
    "content_at (w_fs w') q = (if q = abs_path (cs @ [''rules-templates'', t]) then Some body else content_at (w_fs w) q)"
    using brought_other [of "length ?d" "abs_path (?d @ [t])" body ?w2 w' q]
    by (auto simp: brought_def keeps_def simp del: abs_path_append)
qed

section \<open>Preparing the working directory\<close>

text \<open>A name of one path component without wildcards.\<close>

definition plain :: "string \<Rightarrow> bool" where
  "plain c \<longleftrightarrow> component c \<and> \<not> has_meta c"

definition work_path :: "FortigateConfig \<Rightarrow> FortigateFirewall \<Rightarrow> string list" where
  "work_path cfg fw = [''tmp'', fwName fw, fcName cfg, om_UID (fc_Meta cfg)]"

definition plain_names :: "FortigateConfig \<Rightarrow> FortigateFirewall \<Rightarrow> bool" where
  "plain_names cfg fw \<longleftrightarrow> plain (fwName fw) \<and> plain (fcName cfg) \<and> plain (om_UID (fc_Meta cfg))"

lemma work_path_dir: "abs_path (work_path cfg fw) = base_dir cfg fw (om_UID (fc_Meta cfg))"
  by (simp add: work_path_def base_dir_def)

lemma work_path_components: "plain_names cfg fw \<Longrightarrow> components (work_path cfg fw) \<and> work_path cfg fw \<noteq> []"
  by (simp add: work_path_def plain_names_def plain_def) (simp add: component_def)

lemma creaDirectory_keeps:
  assumes "onFs (creaDirectory (abs_path cs)) w = (Inr u, w')" "components cs" "cs \<noteq> []" "length cs \<le> n"
  shows "keeps n w w'" "content_at (w_fs w') q = content_at (w_fs w) q"
  using assms(1) within_MkdirAll [OF _ assms(2-4)] MkdirAll_files [of "abs_path cs"]
  by (auto simp: onFs_def creaDirectory_def wrapErr_def keeps_def split: prod.splits sum.splits)

text \<open>
  For the common file \<open>u\<close> and the template \<open>t\<close> of a resource, S3 sends nothing but \<open>cu\<close> and \<open>ct\<close>.
\<close>

definition templates :: "external \<Rightarrow> FortigateFirewall \<Rightarrow> string \<Rightarrow> string \<Rightarrow> string \<Rightarrow> string \<Rightarrow> bool" where
  "templates ext fw u cu t ct \<longleftrightarrow> plain u \<and> plain t \<and> u \<noteq> t \<and>
     delivers ext (ffs_S3BucketName (ff_Spec fw)) (tmpl_key u) cu \<and>
     delivers ext (ffs_S3BucketName (ff_Spec fw)) (tmpl_key t) ct"

definition local_file :: "FortigateConfig \<Rightarrow> FortigateFirewall \<Rightarrow> string \<Rightarrow> string list" where
  "local_file cfg fw t = work_path cfg fw @ [''rules-templates'', t]"

definition has_local :: "external \<Rightarrow> FortigateConfig \<Rightarrow> FortigateFirewall \<Rightarrow> world \<Rightarrow> string \<Rightarrow> string \<Rightarrow> bool" where
  "has_local ext cfg fw w t body \<longleftrightarrow>
     at_hand ext (ffs_S3BucketName (ff_Spec fw)) (tmpl_key t) body (w_fs w) (local_file cfg fw t)"

lemma local_file_components: "plain_names cfg fw \<Longrightarrow> plain t \<Longrightarrow> components (local_file cfg fw t)"
  using work_path_components by (simp add: local_file_def plain_def component_def)

lemma has_local_keeps:
  assumes "has_local ext cfg fw w t body" "keeps 5 w w'" "plain_names cfg fw" "plain t"
    and "content_at (w_fs w') (abs_path (local_file cfg fw t)) = content_at (w_fs w) (abs_path (local_file cfg fw t))"
  shows "has_local ext cfg fw w' t body"
proof -
  have "length (local_file cfg fw t) = Suc 5" by (simp add: local_file_def work_path_def)
  with room_within local_file_components [OF assms(3,4)] assms(1,2,5) show ?thesis
    unfolding has_local_def at_hand_def keeps_def by metis
qed

lemma prepare_delivers:
  assumes run: "prepareTerraformEnvironment ext cfg fw acc w = (Inr id', w')"
    and t: "t = fcs_TerraformTemplateS3Key (fc_Spec cfg)" and u: "u = oc_CommonTemplateSuffix (CurrentOperatorConfig (w_reg w))"
    and tm: "templates ext fw u cu t ct" and n: "plain_names cfg fw"
    and hand: "has_local ext cfg fw w u cu" "has_local ext cfg fw w t ct"
  shows "keeps 5 w w' \<and> id' = om_UID (fc_Meta cfg) \<and>
    content_at (w_fs w') (abs_path (work_path cfg fw @ [''rules-templates'', u])) = Some cu \<and>
    content_at (w_fs w') (abs_path (work_path cfg fw @ [''rules-templates'', t])) = Some ct"
proof -
  let ?W = "work_path cfg fw" and ?b = "ffs_S3BucketName (ff_Spec fw)"
  let ?D = "?W @ [''data-dir'']" and ?P = "[''tmp'', fwName fw, ''plugin-cache-dir'']"
  let ?pu = "abs_path (local_file cfg fw u)" and ?pt = "abs_path (local_file cfg fw t)"
  have W: "components ?W" "?W \<noteq> []" "length ?W = 4" using work_path_components [OF n] by (simp_all add: work_path_def)
  have D: "components ?D" using W by (simp add: component_def)
  have P: "components ?P" using n by (simp add: plain_names_def plain_def component_def)
  have pt: "plain u" "plain t" "u \<noteq> t" "delivers ext ?b (tmpl_key u) cu" "delivers ext ?b (tmpl_key t) ct"
    using tm by (simp_all add: templates_def)
  have ne: "?pt \<noteq> ?pu"
    using abs_path_inj local_file_components [OF n pt(1)] local_file_components [OF n pt(2)] pt(3)
    by (auto simp: local_file_def simp del: abs_path_append)
  from run obtain w1 w2 w3 where
    1: "onFs (creaDirectory (abs_path ?D)) w = (Inr (), w1)"
    and 2: "onFs (creaDirectory (abs_path ?P)) w1 = (Inr (), w2)"
    and 3: "copyS3DirContent ext ?b acc (tmpl_key (oc_CommonTemplateSuffix (CurrentOperatorConfig (w_reg w2)))) (abs_path ?W @ ''/'') w2 = (Inr (), w3)"
    and 4: "copyS3DirContent ext ?b acc (tmpl_key t) (abs_path ?W @ ''/'') w3 = (Inr (), w')"
    and id: "id' = om_UID (fc_Meta cfg)"
    by (auto simp: prepareTerraformEnvironment_def Let_def andThen_ok getReg_def work_path_dir t tmpl_key_def
      split: if_splits)
  note k1 = creaDirectory_keeps [OF 1 D, of 5] and k2 = creaDirectory_keeps [OF 2 P, of 5]
  have k12: "keeps 5 w w2" using keeps_trans [OF k1(1) k2(1)] W by simp
  have c12: "content_at (w_fs w2) q = content_at (w_fs w) q" for q using k1(2) k2(2) W by simp
  from k12 have u2: "oc_CommonTemplateSuffix (CurrentOperatorConfig (w_reg w2)) = u" by (simp add: keeps_def u)
  have comp: "component u" "component t" using pt by (simp_all add: plain_def)
  note h2 = has_local_keeps [OF hand(1) k12 n pt(1) c12] has_local_keeps [OF hand(2) k12 n pt(2) c12]
  note c3 = copyS3_brings [OF 3 [unfolded u2] pt(4) W(1,2) comp(1) h2(1) [unfolded has_local_def local_file_def]]
  have k23: "keeps 5 w2 w3" using c3(1) W(3) by simp
  have "content_at (w_fs w3) ?pt = content_at (w_fs w2) ?pt" using c3(2) ne by (simp add: local_file_def del: abs_path_append)
  note h3 = has_local_keeps [OF h2(2) k23 n pt(2) this]
  note c4 = copyS3_brings [OF 4 pt(5) W(1,2) comp(2) h3 [unfolded has_local_def local_file_def]]
  have "keeps 5 w w'" using keeps_trans [OF keeps_trans [OF k12 k23]] c4(1) W(3) by simp
  then show ?thesis using c3(2) c4(2) ne id by (simp add: local_file_def del: abs_path_append)
qed

section \<open>Copying\<close>

lemma has_meta_append [simp]: "has_meta (a @ b) \<longleftrightarrow> has_meta a \<or> has_meta b"
  by (auto simp: has_meta_def)

lemma has_meta_abs: "has_meta (abs_path cs) \<longleftrightarrow> list_ex has_meta cs"
proof (induction cs)
  case Nil
  then show ?case by (simp add: has_meta_def)
next
  case (Cons c cs)
  have "has_meta (CHR ''/'' # c @ abs_path cs) \<longleftrightarrow> has_meta (c @ abs_path cs)" by (simp add: has_meta_def)
  with Cons show ?case by simp
qed

lemma work_path_plain:
  assumes "plain_names cfg fw" "plain t"
  shows "\<not> has_meta (abs_path (work_path cfg fw @ [''rules-templates'', t]))"
proof -
  have "\<not> has_meta ''tmp''" "\<not> has_meta ''rules-templates''" by (simp_all add: has_meta_def)
  then show ?thesis
    unfolding has_meta_abs using assms by (simp add: work_path_def plain_names_def plain_def)
qed

text \<open>The name a template has in the working directory.\<close>

definition own_name :: "FortigateFirewall \<Rightarrow> string \<Rightarrow> string" where
  "own_name fw t = fwName fw @ ''_'' @ t"

lemma own_name_component: "component (fwName fw) \<Longrightarrow> component t \<Longrightarrow> component (own_name fw t)"
  by (cases "fwName fw"; cases "tl (fwName fw)") (auto simp: component_def own_name_def)

lemma own_name_path:
  assumes "plain_names cfg fw" "component t"
  shows "filepath_Join [abs_path (work_path cfg fw), own_name fw t] = abs_path (work_path cfg fw @ [own_name fw t])"
proof -
  have c: "component (own_name fw t)" using assms by (simp add: own_name_component plain_names_def plain_def)
  then have "own_name fw t \<noteq> []" by (simp add: component_def)
  with c Join_dirs(1) [of "work_path cfg fw" "[own_name fw t]"] work_path_components [OF assms(1)]
  show ?thesis by (simp add: part_def)
qed

lemma copyFiles_one:
  assumes run: "copyFiles (abs_path (work_path cfg fw @ [''rules-templates'', t])) (abs_path (work_path cfg fw)) (fwName fw) s = (Inr u, s')"
    and n: "plain_names cfg fw" "plain t"
    and c: "content_at s (abs_path (work_path cfg fw @ [''rules-templates'', t])) = Some c"
  shows "content_at s' q = (if q = abs_path (work_path cfg fw @ [own_name fw t]) then Some c else content_at s q)"
proof -
  let ?W = "work_path cfg fw" and ?f = "abs_path (work_path cfg fw @ [''rules-templates'', t])"
  have t: "component t" using n(2) by (simp add: plain_def)
  have "Glob ?f s = (Inr [?f], s)"
    using work_path_plain [OF n] c by (auto simp: Glob_def content_at_def simp del: abs_path_append)
  moreover have "filepath_Base ?f = t" using Base_abs [OF t, of "?W @ [''rules-templates'']"] by simp
  moreover have "filepath_Join [abs_path ?W, fwName fw @ ''_'' @ t] = abs_path (?W @ [own_name fw t])"
    using own_name_path [OF n(1) t] by (simp add: own_name_def del: abs_path_append)
  ultimately obtain s1 where m: "MkdirAll (abs_path ?W) s = (Inr (), s1)"
    and cp: "copyFile ?f (abs_path (?W @ [own_name fw t])) s1 = (Inr (), s')"
    using run by (auto simp: copyFiles_def andThen_ok simp del: abs_path_append)
  have "components (?W @ [''rules-templates'', t])" "components (?W @ [own_name fw t])"
    using work_path_components [OF n(1)] n t own_name_component [of fw t]
    by (simp_all add: plain_names_def plain_def) (simp_all add: component_def)
  then have "?f \<noteq> abs_path (?W @ [own_name fw t])" by (simp add: abs_path_inj del: abs_path_append)
  from copyFile_content [OF cp this, of q] MkdirAll_files [OF m, of q] MkdirAll_files [OF m, of ?f] c show ?thesis by auto
qed

lemma copied:
  assumes run: "copyTerraformFiles ext fw (base_dir cfg fw (om_UID (fc_Meta cfg))) t w = (Inr tf, w')"
    and n: "plain_names cfg fw" and u: "u = oc_CommonTemplateSuffix (CurrentOperatorConfig (w_reg w))"
    and tu: "plain u" "plain t" "u \<noteq> t"
    and c: "content_at (w_fs w) (abs_path (work_path cfg fw @ [''rules-templates'', u])) = Some cu"
      "content_at (w_fs w) (abs_path (work_path cfg fw @ [''rules-templates'', t])) = Some ct"
  shows "w_reg w' = w_reg w \<and> tf = base_dir cfg fw (om_UID (fc_Meta cfg)) \<and>
    content_at (w_fs w') (abs_path (work_path cfg fw @ [own_name fw u])) = Some cu \<and>
    content_at (w_fs w') (abs_path (work_path cfg fw @ [own_name fw t])) = Some ct"
proof -
  let ?W = "work_path cfg fw" and ?f = "\<lambda>t. abs_path (work_path cfg fw @ [''rules-templates'', t])"
  let ?cp = "\<lambda>t. copyFiles (?f t) (abs_path ?W) (fwName fw)"
  let ?d = "base_dir cfg fw (om_UID (fc_Meta cfg))"
  have f: "?f x = ?d @ ''/rules-templates/'' @ x" for x by (simp add: work_path_dir)
  from run obtain w1 w2 where new: "createNewTerraform ext ?d w = (Inr tf, w1)"
    and 1: "onFs (copyFiles (?d @ ''/rules-templates/'' @ oc_CommonTemplateSuffix (CurrentOperatorConfig (w_reg w1))) ?d (fwName fw)) w1 = (Inr (), w2)"
    and 2: "onFs (copyFiles (?d @ ''/rules-templates/'' @ t) ?d (fwName fw)) w2 = (Inr (), w')"
    unfolding copyTerraformFiles_def getReg_def by (simp add: andThen_ok) blast
  from new have w1: "w_fs w1 = w_fs w" "w_reg w1 = w_reg w" and tf: "tf = ?d"
    by (auto simp: createNewTerraform_def andThen_ok ask_def)
  from 1 obtain s1 where 1: "?cp u (w_fs w1) = (Inr (), s1)" and w2: "w2 = w1\<lparr>w_fs := s1\<rparr>"
    unfolding f work_path_dir w1(2) u [symmetric] onFs_def by (cases "copyFiles (?d @ ''/rules-templates/'' @ u) ?d (fwName fw) (w_fs w1)") simp
  from 2 w2 obtain s2 where 2: "?cp t s1 = (Inr (), s2)" and w': "w' = w2\<lparr>w_fs := s2\<rparr>"
    unfolding f work_path_dir onFs_def by (cases "copyFiles (?d @ ''/rules-templates/'' @ t) ?d (fwName fw) s1") simp
  have comp: "components (?W @ [own_name fw t])" "components (?W @ [own_name fw u])"
    "components (?W @ [''rules-templates'', t])"
    using work_path_components [OF n] n tu own_name_component [of fw t] own_name_component [of fw u]
    by (simp_all add: plain_names_def plain_def) (simp_all add: component_def)
  have ne: "?f t \<noteq> abs_path (?W @ [own_name fw u])" "abs_path (?W @ [own_name fw u]) \<noteq> abs_path (?W @ [own_name fw t])"
    using abs_path_inj comp tu(3) by (auto simp: own_name_def simp del: abs_path_append)
  note s1 = copyFiles_one [OF 1 n tu(1) c(1) [folded w1]]
  have "content_at s1 (?f t) = Some ct" using s1 [of "?f t"] ne(1) c(2) w1 by simp
  note s2 = copyFiles_one [OF 2 n tu(2) this]
  show ?thesis
    using s1 [of "abs_path (?W @ [own_name fw u])"] s2 ne(2) w' w2 w1 tf by simp
qed

section \<open>Engine, rule and common file\<close>

text \<open>
  What the template means for the resource: the file of every element holds its denotation for the
  element, with the placeholders of the rule filled.
\<close>

definition elements_filled :: "RuleMappingConfig \<Rightarrow> FortigateConfig \<Rightarrow> string \<Rightarrow> node list \<Rightarrow> node list \<Rightarrow> fs \<Rightarrow> string \<Rightarrow> bool" where
  "elements_filled rc cfg tag body rest s f \<longleftrightarrow> (\<exists>m. buildSpecMap cfg = Inr m \<and>
     (\<forall>j im im'. j < length (fcs_ExtraItems (fc_Spec cfg)) \<and> fcs_ExtraItems (fc_Spec cfg) ! j = JObj im \<and>
        normalizzaMappaInMaiuscolo (JObj im) = JObj im' \<longrightarrow>
        (\<exists>ps. denote_split tag body rest m (j + 1) im' = Inr ps \<and>
           content_at s (IndexedResourceFile f j) = Some (print_pieces (concat (map
             (fill (mapping_values (rc_ItemMappings rc) (fcName cfg) im (item_suffix j))) ps))))))"

text \<open>A template that opens with a loop over the extra items, and a list rule over them.\<close>

definition list_setup :: "RuleMappingConfig \<Rightarrow> FortigateConfig \<Rightarrow> string \<Rightarrow> string \<Rightarrow> node list \<Rightarrow> node list \<Rightarrow> string \<Rightarrow> bool" where
  "list_setup rc cfg c tag body rest f \<longleftrightarrow>
     TrimSpace c = print_nodes (Loop tag body # rest) \<and> wf_node (Loop tag body) \<and> list_all wf_node rest \<and>
     ToUpper tag = ''EXTRAITEMS'' \<and> clean_cfg cfg \<and> fcs_ExtraItems (fc_Spec cfg) \<noteq> [] \<and>
     rc_ListField rc = ''spec.extraItems'' \<and> list_all (\<lambda>(t, p). wf_name t) (rc_ItemMappings rc) \<and>
     splitTerraformExt (finalName f) = splitTerraformExt f"

text \<open>The file \<open>q\<close> is none of the files generated from \<open>f\<close>.\<close>

definition not_generated :: "FortigateConfig \<Rightarrow> string \<Rightarrow> string \<Rightarrow> bool" where
  "not_generated cfg f q \<longleftrightarrow> q \<noteq> f \<and> (\<forall>j < length (fcs_ExtraItems (fc_Spec cfg)). q \<noteq> IndexedResourceFile f j)"

lemma split_keeps:
  assumes ls: "list_setup rc cfg c tag body rest f" and c: "content_at s f = Some c"
    and run: "smartNestedProcess f cfg s = (Inr (), s1)" and q: "not_generated cfg f q"
  shows "content_at s1 q = content_at s q"
proof -
  let ?ns = "Loop tag body # rest" and ?items = "fcs_ExtraItems (fc_Spec cfg)"
  obtain b bs where b: "node_blocks ?ns 0 = b # bs" "lb_tag b = ToUpper tag" "lb_start b = 0"
    using node_blocks_first by blast
  have find: "findTopLevelLoops (TrimSpace c) = Inr (b # bs)"
    using ls findTopLevelLoops_print [of ?ns] b(1) by (simp add: list_setup_def)
  obtain m where m: "buildSpecMap cfg = Inr m" using buildSpecMap_ok by blast
  have "\<not> refused s f" using run c by (auto simp: smartNestedProcess_def andThen_ok wrapErr_ok ReadFile_ok)
  with smartNestedProcess_split [OF run c _ m find] b(3)
  have split: "splitIntoFiles (TrimSpace c) f (b # bs) m s = (Inr (), s1)" by simp
  have items: "resolveListPath m (lb_tag (hd (b # bs))) = Some (map normalizzaMappaInMaiuscolo ?items)"
    using resolve_EXTRAITEMS [OF m refl] ls b(2) by (simp add: list_setup_def)
  show ?thesis
    by (rule splitIntoFiles_frame [OF split]) (use q items in \<open>auto simp: not_generated_def\<close>)
qed

lemma list_rule_keeps:
  assumes ls: "list_setup rc cfg c tag body rest f" and q: "not_generated cfg f q"
    and run: "applyConfigDrivenRule re rc cfg (finalName f) s = (Inr (), s')"
  shows "content_at s' q = content_at s q"
proof -
  let ?items = "fcs_ExtraItems (fc_Spec cfg)"
  have lf: "rc_ListField rc \<noteq> []" using ls by (simp add: list_setup_def)
  obtain items where "lookupRawPath (spec_fields (fc_Spec cfg)) (rc_ListField rc) = Some (JArr items)"
    and ap: "applyItems rc (om_Name (fc_Meta cfg)) (finalName f) 0 items s = (Inr (), s')"
    by (rule applyConfigDrivenRule_list_ok [OF run lf]) blast
  with lookup_extraItems [of cfg ?items] ls have items: "items = ?items" by (simp add: list_setup_def)
  have "splitTerraformExt (finalName f) = splitTerraformExt f" using ls by (simp add: list_setup_def)
  note stable = IndexedResourceFile_stable [OF this]
  show ?thesis
    by (rule applyItems_frame [OF ap]) (use q items stable in \<open>auto simp: not_generated_def\<close>)
qed

lemma rule_applied:
  assumes run: "applyRule ext t (base_dir cfg fw (om_UID (fc_Meta cfg))) cfg fw w = (Inr tf, w')"
    and n: "plain_names cfg fw" and u: "u = oc_CommonTemplateSuffix (CurrentOperatorConfig (w_reg w))"
    and tu: "plain u" "plain t" "u \<noteq> t"
    and c: "content_at (w_fs w) (abs_path (work_path cfg fw @ [''rules-templates'', u])) = Some cu"
      "content_at (w_fs w) (abs_path (work_path cfg fw @ [''rules-templates'', t])) = Some ct"
    and rule: "lookupOperatorRule (w_reg w) (fcs_OperatorRule (fc_Spec cfg)) = Some (applyConfigDrivenRule re rc)"
    and f_def: "f = abs_path (work_path cfg fw @ [own_name fw t])" and q_def: "q = abs_path (work_path cfg fw @ [own_name fw u])"
    and ls: "list_setup rc cfg ct tag body rest f" and q: "not_generated cfg f q"
  shows "w_reg w' = w_reg w \<and> tf = base_dir cfg fw (om_UID (fc_Meta cfg)) \<and>
    content_at (w_fs w') q = Some cu \<and> elements_filled rc cfg tag body rest (w_fs w') f"
proof -
  let ?d = "base_dir cfg fw (om_UID (fc_Meta cfg))"
  have f: "?d @ ''/'' @ fwName fw @ ''_'' @ t = f" by (simp add: f_def work_path_dir own_name_def)
  from applyRule_ok [OF run, unfolded f] obtain h w1 f0 where
    cp: "copyTerraformFiles ext fw ?d t w = (Inr tf, w1)"
    and s: "smartNestedProcess f cfg (w_fs w1) = (Inr (), f0)"
    and l: "lookupOperatorRule (w_reg w1) (fcs_OperatorRule (fc_Spec cfg)) = Some h"
    and h: "h cfg (finalName f) f0 = (Inr (), w_fs w')" and reg: "w_reg w' = w_reg w1" by blast
  note co = copied [OF cp n u tu c]
  have ct: "content_at (w_fs w1) f = Some ct" using co by (simp add: f_def)
  have h: "applyConfigDrivenRule re rc cfg (finalName f) f0 = (Inr (), w_fs w')" using h l rule co by simp
  obtain m where m: "buildSpecMap cfg = Inr m" using buildSpecMap_ok by blast
  have "elements_filled rc cfg tag body rest (w_fs w') f"
    unfolding elements_filled_def fcName_def
    using list_rule_output [OF ct, where rc = rc and re = re and cfg = cfg and m = m and ?s1.0 = f0 and ?s2.0 = "w_fs w'"] ls s h m
    by (auto simp: list_setup_def)
  moreover have "content_at (w_fs w') q = Some cu"
    using split_keeps [OF ls ct s q] list_rule_keeps [OF ls q h] co by (simp add: q_def)
  ultimately show ?thesis using co reg by simp
qed

lemma elements_filled_frame:
  assumes "elements_filled rc cfg tag body rest s f"
    and "\<And>j. j < length (fcs_ExtraItems (fc_Spec cfg)) \<Longrightarrow>
      content_at s' (IndexedResourceFile f j) = content_at s (IndexedResourceFile f j)"
  shows "elements_filled rc cfg tag body rest s' f"
  using assms unfolding elements_filled_def by (metis (no_types, lifting))

lemma common_filled:
  assumes run: "tfCommon tok ip b key url q w = (Inr mods, w')" and c: "content_at (w_fs w) q = Some cu"
    and q: "not_generated cfg f q" "not_generated cfg f (finalName q)"
    and e: "elements_filled rc cfg tag body rest (w_fs w) f"
  shows "content_at (w_fs w') (finalName q) = Some (replace_mods cu (buildCommonMods (w_reg w) tok ip b key url)) \<and>
    elements_filled rc cfg tag body rest (w_fs w') f"
proof -
  obtain c' where mods: "mods = buildCommonMods (w_reg w) tok ip b key url" and c': "content_at (w_fs w) q = Some c'"
    and all: "\<forall>p. content_at (w_fs w') p = (if p = finalName q then Some (replace_mods c' mods)
         else if p = q then None else content_at (w_fs w) p)"
    using common_file_effect [OF run] by blast
  have "elements_filled rc cfg tag body rest (w_fs w') f"
    by (rule elements_filled_frame [OF e]) (use q all in \<open>auto simp: not_generated_def\<close>)
  with all c c' mods show ?thesis by simp
qed

section \<open>The world a call is made from\<close>

text \<open>
  Every call in \<open>P\<close> that \<open>g\<close> makes is made after a point where \<open>Q\<close> holds of the world and of the
  calls to come.
\<close>

definition guarded :: "(call \<Rightarrow> bool) \<Rightarrow> (call list \<Rightarrow> world \<Rightarrow> bool) \<Rightarrow> (world, 'a) op \<Rightarrow> world \<Rightarrow> bool" where
  "guarded P Q g w \<longleftrightarrow> list_all (\<lambda>c. \<not> P c) (made g w) \<or>
     (\<exists>pre cs w1. made g w = pre @ cs \<and> list_all (\<lambda>c. \<not> P c) pre \<and> w_log w1 = w_log w @ pre \<and> Q cs w1)"

lemma guarded_here: "Q (made g w) w \<Longrightarrow> guarded P Q g w"
  unfolding guarded_def by (rule disjI2) (intro exI [of _ "[]"] exI [of _ "made g w"] exI [of _ w], simp)

lemma guarded_shift:
  assumes "guarded P Q g' w1" and "made g w = pre @ made g' w1"
    and "list_all (\<lambda>c. \<not> P c) pre" "w_log w1 = w_log w @ pre"
  shows "guarded P Q g w"
  using assms(1) unfolding guarded_def [of _ _ g']
proof (elim disjE exE conjE)
  assume "list_all (\<lambda>c. \<not> P c) (made g' w1)"
  with assms(2,3) show ?thesis by (simp add: guarded_def)
next
  fix pre' cs w2
  assume "made g' w1 = pre' @ cs" "list_all (\<lambda>c. \<not> P c) pre'" "w_log w2 = w_log w1 @ pre'" "Q cs w2"
  with assms(2-4) show ?thesis
    unfolding guarded_def by (intro disjI2 exI [of _ "pre @ pre'"] exI [of _ cs] exI [of _ w2]) simp
qed

lemma guarded_andThen:
  assumes "quiet P m" "\<And>x. logs (f x)" "\<And>x w1. m w = (Inr x, w1) \<Longrightarrow> guarded P Q (f x) w1"
  shows "guarded P Q (andThen m f) w"
proof (cases "m w")
  case (Pair r w1)
  have q: "list_all (\<lambda>c. \<not> P c) (made m w)" using assms(1) by (auto simp: quiet_def list_all_iff)
  have l: "logs m" by (rule quiet_logs [OF assms(1)])
  show ?thesis
  proof (cases r)
    case (Inl e)
    with Pair q show ?thesis by (simp add: guarded_def made_andThen_Inl)
  next
    case (Inr x)
    with Pair have m: "m w = (Inr x, w1)" by simp
    have "w_log w1 = w_log w @ made m w" using logs_after [OF l, of w] m by simp
    with guarded_shift [OF assms(3) [OF m] made_andThen_Inr [of m f, OF l assms(2) m] q] show ?thesis by blast
  qed
qed

lemma guarded_then:
  assumes g: "guarded P Q m w" and m: "logs m" and f: "\<And>x. quiet P (f x)"
    and Q: "\<And>cs w1 post. Q cs w1 \<Longrightarrow> list_all (\<lambda>c. \<not> P c) post \<Longrightarrow> Q (cs @ post) w1"
  shows "guarded P Q (andThen m f) w"
proof -
  obtain post where made: "made (andThen m f) w = made m w @ post" and post: "list_all (\<lambda>c. \<not> P c) post"
  proof (cases "m w")
    case (Pair r w1)
    show ?thesis
    proof (cases r)
      case (Inl e)
      with Pair that [of "[]"] show ?thesis by (simp add: made_andThen_Inl)
    next
      case (Inr x)
      with Pair made_andThen_Inr [of m f x w w1, OF m quiet_logs [OF f]]
      have "made (andThen m f) w = made m w @ made (f x) w1" by simp
      moreover have "list_all (\<lambda>c. \<not> P c) (made (f x) w1)" using f [of x] by (auto simp: quiet_def list_all_iff)
      ultimately show ?thesis by (rule that)
    qed
  qed
  from g show ?thesis
    unfolding guarded_def made
  proof (elim disjE exE conjE)
    assume "list_all (\<lambda>c. \<not> P c) (made m w)"
    with post show "list_all (\<lambda>c. \<not> P c) (made m w @ post) \<or> (\<exists>pre cs w1. made m w @ post = pre @ cs \<and>
        list_all (\<lambda>c. \<not> P c) pre \<and> w_log w1 = w_log w @ pre \<and> Q cs w1)" by simp
  next
    fix pre cs w1
    assume "made m w = pre @ cs" "list_all (\<lambda>c. \<not> P c) pre" "w_log w1 = w_log w @ pre" "Q cs w1"
    with Q [OF _ post] show "list_all (\<lambda>c. \<not> P c) (made m w @ post) \<or> (\<exists>pre cs w1. made m w @ post = pre @ cs \<and>
        list_all (\<lambda>c. \<not> P c) pre \<and> w_log w1 = w_log w @ pre \<and> Q cs w1)"
      by (intro disjI2 exI [of _ pre] exI [of _ "cs @ post"] exI [of _ w1]) simp
  qed
qed

section \<open>A reconcile\<close>

text \<open>
  Everything fits for the resource: its names are plain, the bucket has both files, the operator
  rule is the list rule \<open>rc\<close> and the template \<open>ct\<close> is one for it.
\<close>

definition deliverable :: "external \<Rightarrow> FortigateConfig \<Rightarrow> FortigateFirewall \<Rightarrow> registry \<Rightarrow> RuleMappingConfig \<Rightarrow> string \<Rightarrow>
    string \<Rightarrow> string \<Rightarrow> node list \<Rightarrow> node list \<Rightarrow> bool" where
  "deliverable ext cfg fw g rc cu ct tag body rest \<longleftrightarrow>
     (let u = oc_CommonTemplateSuffix (CurrentOperatorConfig g); t = fcs_TerraformTemplateS3Key (fc_Spec cfg);
          f = abs_path (work_path cfg fw @ [own_name fw t]); q = abs_path (work_path cfg fw @ [own_name fw u])
      in plain_names cfg fw \<and> templates ext fw u cu t ct \<and>
         (\<exists>re. lookupOperatorRule g (fcs_OperatorRule (fc_Spec cfg)) = Some (applyConfigDrivenRule re rc)) \<and>
         list_setup rc cfg ct tag body rest f \<and> not_generated cfg f q \<and> not_generated cfg f (finalName q))"

text \<open>
  What OpenTofu finds in the working directory: the files of the elements as the template means
  them, and the common file with the values of the firewall.
\<close>

definition seen :: "FortigateConfig \<Rightarrow> FortigateFirewall \<Rightarrow> registry \<Rightarrow> RuleMappingConfig \<Rightarrow> string \<Rightarrow> string \<Rightarrow> node list \<Rightarrow>
    node list \<Rightarrow> s3access \<Rightarrow> fs \<Rightarrow> bool" where
  "seen cfg fw g rc cu tag body rest acc s \<longleftrightarrow>
     (let oc = CurrentOperatorConfig g; id' = om_UID (fc_Meta cfg); dir = base_dir cfg fw id' @ ''/'' @ fwName fw @ ''_''
      in elements_filled rc cfg tag body rest s (dir @ fcs_TerraformTemplateS3Key (fc_Spec cfg)) \<and>
         content_at s (finalName (dir @ oc_CommonTemplateSuffix oc)) = Some (replace_mods cu
           (buildCommonMods g (ffst_Token (ff_Status fw))
              (ssh_gui_host (fwName fw) (ffs_FortigateVersion (ff_Spec fw)) (om_Namespace (fc_Meta cfg)))
              (ffs_S3BucketName (ff_Spec fw)) (state_key cfg fw id' oc) (a_s3Url acc))))"

text \<open>The calls to come are those of a run of OpenTofu on what is seen, and others that are none of its.\<close>

definition run_of :: "external \<Rightarrow> FortigateConfig \<Rightarrow> FortigateFirewall \<Rightarrow> registry \<Rightarrow> RuleMappingConfig \<Rightarrow> string \<Rightarrow>
    string \<Rightarrow> node list \<Rightarrow> node list \<Rightarrow> call list \<Rightarrow> world \<Rightarrow> bool" where
  "run_of ext cfg fw g rc cu tag body rest cs w1 \<longleftrightarrow> (\<exists>acc post.
     cs = made (execTerraform ext (base_dir cfg fw (om_UID (fc_Meta cfg))) cfg fw acc (om_UID (fc_Meta cfg))) w1 @ post \<and>
     list_all (\<lambda>c. \<not> is_tofu c) post \<and> w_reg w1 = g \<and> seen cfg fw g rc cu tag body rest acc (w_fs w1))"

lemma run_of_append:
  "run_of ext cfg fw g rc cu tag body rest cs w1 \<Longrightarrow> list_all (\<lambda>c. \<not> is_tofu c) post \<Longrightarrow>
     run_of ext cfg fw g rc cu tag body rest (cs @ post) w1"
  unfolding run_of_def by (metis append.assoc list_all_append)

lemma tfCommon_reg: "tfCommon tok ip b key url q w = (Inr mods, w') \<Longrightarrow> w_reg w' = w_reg w"
  unfolding tfCommon_def Let_def
  by (auto simp: andThen_ok wrapErr_ok getReg_def onFs_def split: prod.splits if_splits)

lemma guarded_run_then:
  assumes "guarded is_tofu (run_of ext cfg fw g rc cu tag body rest) m w" "logs m" "\<And>x. quiet is_tofu (f x)"
  shows "guarded is_tofu (run_of ext cfg fw g rc cu tag body rest) (andThen m f) w"
  using assms by (rule guarded_then) (rule run_of_append)

lemma guarded_rule:
  assumes d: "deliverable ext cfg fw (w_reg w) rc cu ct tag body rest"
    and c: "content_at (w_fs w) (abs_path (work_path cfg fw @ [''rules-templates'', oc_CommonTemplateSuffix (CurrentOperatorConfig (w_reg w))])) = Some cu"
      "content_at (w_fs w) (abs_path (work_path cfg fw @ [''rules-templates'', fcs_TerraformTemplateS3Key (fc_Spec cfg)])) = Some ct"
  shows "guarded is_tofu (run_of ext cfg fw (w_reg w) rc cu tag body rest) (modifyTFFiles ext cfg fw acc (om_UID (fc_Meta cfg))) w"
proof -
  let ?u = "oc_CommonTemplateSuffix (CurrentOperatorConfig (w_reg w))" and ?t = "fcs_TerraformTemplateS3Key (fc_Spec cfg)"
  let ?f = "abs_path (work_path cfg fw @ [own_name fw ?t])" and ?q = "abs_path (work_path cfg fw @ [own_name fw ?u])"
  let ?id = "om_UID (fc_Meta cfg)"
  let ?dir = "base_dir cfg fw ?id" and ?tok = "ffst_Token (ff_Status fw)"
  let ?ip = "ssh_gui_host (fwName fw) (ffs_FortigateVersion (ff_Spec fw)) (om_Namespace (fc_Meta cfg))"
  obtain re where n: "plain_names cfg fw" and tm: "templates ext fw ?u cu ?t ct"
    and re: "lookupOperatorRule (w_reg w) (fcs_OperatorRule (fc_Spec cfg)) = Some (applyConfigDrivenRule re rc)"
    and ls: "list_setup rc cfg ct tag body rest ?f" and q: "not_generated cfg ?f ?q" "not_generated cfg ?f (finalName ?q)"
    using d by (auto simp: deliverable_def Let_def simp del: abs_path_append)
  have tu: "plain ?u" "plain ?t" "?u \<noteq> ?t" using tm by (simp_all add: templates_def)
  let ?after = "\<lambda>oc tf. after_rule ext ?dir ?tok ?ip cfg fw acc ?id True oc tf"
  let ?common = "\<lambda>oc. common_step ?dir ?tok ?ip cfg fw acc ?id oc"
  have l: "logs (andThen (?common oc) (\<lambda>_. ?after oc tf))" for oc tf
    by (intro logsI quiet_andThen quiet_common_step logs_after_rule)
  show ?thesis
    unfolding modifyTFFiles_def runRule_def selectOperatorRule_alt
  proof (intro guarded_andThen [OF quiet_applyRule])
    fix tf w1 assume a: "applyRule ext ?t ?dir cfg fw w = (Inr tf, w1)"
    have r: "w_reg w1 = w_reg w" "tf = ?dir" "content_at (w_fs w1) ?q = Some cu" "elements_filled rc cfg tag body rest (w_fs w1) ?f"
      using rule_applied [OF a n refl tu c re refl refl ls q(1)] by simp_all
    show "guarded is_tofu (run_of ext cfg fw (w_reg w) rc cu tag body rest)
        (andThen (getReg CurrentOperatorConfig) (\<lambda>oc. andThen (?common oc) (\<lambda>_. ?after oc tf))) w1"
    proof (intro guarded_andThen quiet_basic quiet_common_step l logsI logs_after_rule)
      fix oc w2 x w3
      assume "getReg CurrentOperatorConfig w1 = (Inr oc, w2)" and x: "?common oc w2 = (Inr x, w3)"
      then have oc: "oc = CurrentOperatorConfig (w_reg w)" and w2: "w2 = w1" using r(1) by (simp_all add: getReg_def)
      have qd: "common_file ?dir fw oc = ?q" by (simp add: common_file_def oc work_path_dir own_name_def)
      from x have m: "tfCommon ?tok ?ip (ffs_S3BucketName (ff_Spec fw)) (state_key cfg fw ?id oc) (a_s3Url acc) ?q w1 = (Inr x, w3)"
        unfolding common_step_def wrapErr_ok w2 qd .
      have reg: "w_reg w3 = w_reg w" using tfCommon_reg [OF m] r(1) by simp
      have "seen cfg fw (w_reg w) rc cu tag body rest acc (w_fs w3)"
        using common_filled [OF m r(3) q r(4)] oc r(1) by (simp add: seen_def Let_def work_path_dir own_name_def)
      then have "run_of ext cfg fw (w_reg w) rc cu tag body rest (made (?after oc tf) w3) w3"
        unfolding run_of_def after_rule_def if_True made_wrapErr r(2)
        using reg by (intro exI [of _ acc] exI [of _ "[]"]) simp
      then show "guarded is_tofu (run_of ext cfg fw (w_reg w) rc cu tag body rest) (?after oc tf) w3" by (rule guarded_here)
    qed
  qed (intro logsI quiet_andThen quiet_basic quiet_common_step logs_after_rule)
qed

text \<open>The other steps keep the files and the package variables.\<close>

definition unmoved :: "world \<Rightarrow> world \<Rightarrow> bool" where
  "unmoved w w' \<longleftrightarrow> w_fs w' = w_fs w \<and> w_reg w' = w_reg w"

lemma kget_unmoved: "kget f kind ns n w = (r, w') \<Longrightarrow> unmoved w w'"
  by (auto simp: kget_run unmoved_def)

lemma credentials_unmoved: "getS3CredentialsFromSecret cl fw ns w = (r, w') \<Longrightarrow> unmoved w w'"
  by (auto simp: getS3CredentialsFromSecret_def getSecretValues_def Let_def andThen_def wrapErr_def kget_run unmoved_def
      split: if_splits sum.splits prod.splits)

lemma finalizers_unmoved: "UpdateFinalizers cl kind m fs w = (r, w') \<Longrightarrow> unmoved w w'"
  by (auto simp: UpdateFinalizers_def kdo_run unmoved_def)

text \<open>
  What a reconcile starts from: everything fits, and for the common file and the template the local
  copy of an earlier run is there, or S3 sends one.
\<close>

definition starts :: "external \<Rightarrow> FortigateConfig \<Rightarrow> FortigateFirewall \<Rightarrow> RuleMappingConfig \<Rightarrow> string \<Rightarrow> string \<Rightarrow> string \<Rightarrow>
    node list \<Rightarrow> node list \<Rightarrow> world \<Rightarrow> bool" where
  "starts ext cfg fw rc cu ct tag body rest w \<longleftrightarrow> deliverable ext cfg fw (w_reg w) rc cu ct tag body rest \<and>
     has_local ext cfg fw w (oc_CommonTemplateSuffix (CurrentOperatorConfig (w_reg w))) cu \<and>
     has_local ext cfg fw w (fcs_TerraformTemplateS3Key (fc_Spec cfg)) ct"

lemma starts_unmoved:
  "starts ext cfg fw rc cu ct tag body rest w \<Longrightarrow> unmoved w w' \<Longrightarrow>
     starts ext cfg fw rc cu ct tag body rest w' \<and> w_reg w' = w_reg w"
  by (simp add: starts_def unmoved_def has_local_def)

lemma starts_prepare:
  assumes "starts ext cfg fw rc cu ct tag body rest w" "prepareTerraformEnvironment ext cfg fw acc w = (Inr id', w')"
  shows "starts ext cfg fw rc cu ct tag body rest w' \<and> w_reg w' = w_reg w \<and> id' = om_UID (fc_Meta cfg) \<and>
    content_at (w_fs w') (abs_path (work_path cfg fw @ [''rules-templates'', oc_CommonTemplateSuffix (CurrentOperatorConfig (w_reg w))])) = Some cu \<and>
    content_at (w_fs w') (abs_path (work_path cfg fw @ [''rules-templates'', fcs_TerraformTemplateS3Key (fc_Spec cfg)])) = Some ct"
proof -
  let ?u = "oc_CommonTemplateSuffix (CurrentOperatorConfig (w_reg w))" and ?t = "fcs_TerraformTemplateS3Key (fc_Spec cfg)"
  have "plain_names cfg fw" "templates ext fw ?u cu ?t ct" "has_local ext cfg fw w ?u cu" "has_local ext cfg fw w ?t ct"
    "deliverable ext cfg fw (w_reg w) rc cu ct tag body rest"
    using assms(1) by (simp_all add: starts_def deliverable_def Let_def)
  with prepare_delivers [OF assms(2) refl refl] show ?thesis
    by (simp add: starts_def has_local_def at_hand_def local_file_def keeps_def)
qed

lemma tofu_others [simp]:
  "\<not> is_tofu (KGet kind ns n)" "\<not> is_tofu (KUpdate kind ns n fs)" "\<not> is_tofu (KStatus x)"
  "\<not> is_tofu (S3Get b k)" "\<not> is_tofu (S3List b k)" "\<not> is_tofu (S3Config u k s r)"
  by (simp_all add: is_tofu_def)

lemma logs_modifyTFFiles: "quiet (\<lambda>_. False) (modifyTFFiles ext cfg fw acc uuid)"
  unfolding modifyTFFiles_def runRule_def by (rule quiet_selectOperatorRule) simp

lemma logs_doReconcileConfig: "quiet (\<lambda>_. False) (doReconcileConfig cl ext ns cfg fw)"
  unfolding doReconcileConfig_def by (intro quiet_intros quiet_getS3Credentials quiet_prepare logs_modifyTFFiles) simp_all

lemma guarded_doReconcile:
  assumes st: "starts ext cfg fw rc cu ct tag body rest w"
  shows "guarded is_tofu (run_of ext cfg fw (w_reg w) rc cu tag body rest) (doReconcileConfig cl ext ns cfg fw) w"
proof -
  let ?Q = "run_of ext cfg fw (w_reg w) rc cu tag body rest"
  let ?m = "\<lambda>acc uuid. andThen (modifyTFFiles ext cfg fw acc uuid) (\<lambda>_. ret \<lparr>fcst_Conditions = [], fcst_FortigateRuleUUID = []\<rparr>)"
  have m: "guarded is_tofu ?Q (?m acc uuid) w2"
    if c: "getS3CredentialsFromSecret cl fw ns w = (Inr acc, w1)" and p: "prepareTerraformEnvironment ext cfg fw acc w1 = (Inr uuid, w2)"
    for acc w1 uuid w2
  proof -
    note s1 = starts_unmoved [OF st credentials_unmoved [OF c]]
    note p1 = starts_prepare [OF conjunct1 [OF s1] p]
    have reg: "w_reg w1 = w_reg w" "w_reg w2 = w_reg w" and id: "uuid = om_UID (fc_Meta cfg)" using s1 p1 by simp_all
    have d: "deliverable ext cfg fw (w_reg w2) rc cu ct tag body rest" using p1 unfolding starts_def by blast
    note c = p1 [THEN conjunct2, THEN conjunct2, THEN conjunct2, unfolded reg(1), folded reg(2)]
    have "guarded is_tofu ?Q (modifyTFFiles ext cfg fw acc uuid) w2"
      unfolding id reg(2) [symmetric] by (rule guarded_rule [OF d conjunct1 [OF c] conjunct2 [OF c]])
    then show ?thesis by (rule guarded_run_then [OF _ logsI [OF logs_modifyTFFiles] quiet_basic(1)])
  qed
  have lm: "quiet (\<lambda>_. False) (?m acc uuid)" for acc uuid by (intro quiet_andThen logs_modifyTFFiles quiet_basic)
  have lp: "quiet (\<lambda>_. False) (andThen (prepareTerraformEnvironment ext cfg fw acc) (?m acc))" for acc
    by (intro quiet_andThen [OF quiet_prepare] lm) simp_all
  show ?thesis
    unfolding doReconcileConfig_def
  proof (rule guarded_andThen)
    show "quiet is_tofu (getS3CredentialsFromSecret cl fw ns)" by (rule quiet_getS3Credentials) simp
    fix acc w1 assume c: "getS3CredentialsFromSecret cl fw ns w = (Inr acc, w1)"
    show "guarded is_tofu ?Q (andThen (prepareTerraformEnvironment ext cfg fw acc) (?m acc)) w1"
      by (rule guarded_andThen [OF quiet_prepare logsI [OF lm] m [OF c]]) simp_all
  qed (rule logsI [OF lp])
qed

text \<open>A live resource: the finalizer is put in place first, if it is missing.\<close>

lemma guarded_finalizing:
  assumes st: "starts ext cfg fw rc cu ct tag body rest w" and live: "\<not> om_Deleted m"
  shows "guarded is_tofu (run_of ext cfg fw (w_reg w) rc cu tag body rest)
    (finalizing cl kind fin m cleanup (andThen (doReconcileConfig cl ext ns cfg fw) (\<lambda>statusInfo.
        andThen (updateFortigateConfigStatus cl cfg statusInfo) (\<lambda>_. ret 0)))) w"
proof -
  let ?k = "andThen (doReconcileConfig cl ext ns cfg fw) (\<lambda>statusInfo.
        andThen (updateFortigateConfigStatus cl cfg statusInfo) (\<lambda>_. ret 0)) :: (world, result) op"
  have upd: "quiet P (andThen (updateFortigateConfigStatus cl cfg st) (\<lambda>_. ret (0 :: result)))" if "\<And>x. \<not> P (KStatus x)" for P st
    unfolding updateFortigateConfigStatus_def by (intro quiet_intros) (simp add: that)
  have k: "guarded is_tofu (run_of ext cfg fw (w_reg w1) rc cu tag body rest) ?k w1" if "starts ext cfg fw rc cu ct tag body rest w1" for w1
    by (rule guarded_run_then [OF guarded_doReconcile [OF that] logsI [OF logs_doReconcileConfig] upd]) simp
  have lk: "logs ?k" by (rule logsI) (intro quiet_andThen [OF logs_doReconcileConfig] upd, simp)
  show ?thesis
  proof (cases "ContainsFinalizer m fin")
    case True
    with live k [OF st] show ?thesis by (simp add: finalizing_def)
  next
    case False
    have "guarded is_tofu (run_of ext cfg fw (w_reg w) rc cu tag body rest)
        (andThen (UpdateFinalizers cl kind m (om_Finalizers m @ [fin])) (\<lambda>_. ?k)) w"
    proof (rule guarded_andThen)
      show "quiet is_tofu (UpdateFinalizers cl kind m (om_Finalizers m @ [fin]))" by (simp add: UpdateFinalizers_def)
      fix w1 and x :: unit assume "UpdateFinalizers cl kind m (om_Finalizers m @ [fin]) w = (Inr x, w1)"
      from starts_unmoved [OF st finalizers_unmoved [OF this]] k
      show "guarded is_tofu (run_of ext cfg fw (w_reg w) rc cu tag body rest) ?k w1" by fastforce
    qed (rule lk)
    with live False show ?thesis by (simp add: finalizing_def)
  qed
qed

lemma logs_finalizing_cfg:
  "logs (finalizing cl kind fin m (deleteConfigResources ext cfg fw acc uuid)
     (andThen (doReconcileConfig cl ext ns cfg fw) (\<lambda>statusInfo.
        andThen (updateFortigateConfigStatus cl cfg statusInfo) (\<lambda>_. ret 0))))"
proof (rule logsI)
  have "quiet (\<lambda>_. False) (deleteConfigResources ext cfg fw acc uuid)" using logs_deleteConfigResources by (simp add: logs_quiet)
  moreover have "quiet (\<lambda>_. False) (andThen (doReconcileConfig cl ext ns cfg fw) (\<lambda>statusInfo.
        andThen (updateFortigateConfigStatus cl cfg statusInfo) (\<lambda>_. ret 0)))"
    unfolding updateFortigateConfigStatus_def by (intro quiet_andThen [OF logs_doReconcileConfig] quiet_intros) simp
  ultimately show "quiet (\<lambda>_. False) (finalizing cl kind fin m (deleteConfigResources ext cfg fw acc uuid)
     (andThen (doReconcileConfig cl ext ns cfg fw) (\<lambda>statusInfo.
        andThen (updateFortigateConfigStatus cl cfg statusInfo) (\<lambda>_. ret 0))))" by (intro quiet_finalizing) simp_all
qed

lemma guarded_reconcile:
  assumes cfg: "k_get_config cl (w_log w) ns name = Inr cfg" "\<not> om_Deleted (fc_Meta cfg)"
    and fw: "k_get_fgt cl (w_log w @ [KGet ''FortigateConfig'' ns name]) ns (fcs_FortigateName (fc_Spec cfg)) = Inr fw"
    and st: "starts ext cfg fw rc cu ct tag body rest w"
  shows "guarded is_tofu (run_of ext cfg fw (w_reg w) rc cu tag body rest) (ReconcileFortigateConfig cl ext ns name) w"
proof -
  let ?Q = "run_of ext cfg fw (w_reg w) rc cu tag body rest"
  let ?k = "\<lambda>fw. andThen (doReconcileConfig cl ext ns cfg fw) (\<lambda>statusInfo.
        andThen (updateFortigateConfigStatus cl cfg statusInfo) (\<lambda>_. ret 0)) :: (world, result) op"
  let ?fin = "\<lambda>fw acc uuid. finalizing cl ''FortigateConfig'' configFinalizer (fc_Meta cfg) (deleteConfigResources ext cfg fw acc uuid) (?k fw)"
  let ?rest = "\<lambda>fw. andThen (getS3CredentialsFromSecret cl fw ns) (\<lambda>acc. andThen (prepareTerraformEnvironment ext cfg fw acc) (?fin fw acc))"
  let ?w0 = "was_read w ''FortigateConfig'' ns name"
  let ?g = "andThen (kget (k_get_fgt cl) ''FortigateFirewall'' ns (fcs_FortigateName (fc_Spec cfg))) ?rest"
  have run: "ReconcileFortigateConfig cl ext ns name w = ?g ?w0"
    unfolding ReconcileFortigateConfig_def by (simp add: orElse_def kget_run cfg(1) was_read_def)
  have lk: "logs (?fin fw acc uuid)" for fw acc uuid by (rule logs_finalizing_cfg)
  have lr: "logs (?rest fw)" for fw
    by (rule logsI) (intro quiet_andThen quiet_getS3Credentials quiet_prepare lk [unfolded logs_quiet], simp_all)
  have s0: "starts ext cfg fw rc cu ct tag body rest ?w0 \<and> w_reg ?w0 = w_reg w"
    by (rule starts_unmoved [OF st]) (simp add: was_read_def unmoved_def)
  have g: "guarded is_tofu ?Q ?g ?w0"
  proof (intro guarded_andThen quiet_getS3Credentials quiet_prepare tofu_others lr lk)
    fix fw' w1 acc w2 uuid w3
    assume 1: "kget (k_get_fgt cl) ''FortigateFirewall'' ns (fcs_FortigateName (fc_Spec cfg)) ?w0 = (Inr fw', w1)"
      and 2: "getS3CredentialsFromSecret cl fw' ns w1 = (Inr acc, w2)"
      and 3: "prepareTerraformEnvironment ext cfg fw' acc w2 = (Inr uuid, w3)"
    have fw': "fw' = fw" using 1 fw by (simp add: kget_run was_read_def)
    note s1 = starts_unmoved [OF conjunct1 [OF s0] kget_unmoved [OF 1]]
    note s2 = starts_unmoved [OF conjunct1 [OF s1] credentials_unmoved [OF 2]]
    note s3 = starts_prepare [OF conjunct1 [OF s2] 3 [unfolded fw']]
    from guarded_finalizing [OF conjunct1 [OF s3] cfg(2)] s0 s1 s2 s3
    show "guarded is_tofu ?Q (?fin fw' acc uuid) w3" unfolding fw' by simp
  next
    show "quiet is_tofu (kget (k_get_fgt cl) ''FortigateFirewall'' ns (fcs_FortigateName (fc_Spec cfg)))" by simp
  qed (rule logsI, intro quiet_andThen quiet_prepare lk [unfolded logs_quiet], simp_all)
  have "logs ?g" by (rule logsI) (intro quiet_andThen lr [unfolded logs_quiet], simp)
  note m = made_after_read [where m = "ReconcileFortigateConfig cl ext ns name" and m' = ?g, OF run this]
  show ?thesis
    by (rule guarded_shift [OF g, where pre = "[KGet ''FortigateConfig'' ns name]"]) (simp_all add: m, simp add: was_read_def)
qed

text \<open>C3: OpenTofu sees what the local template means. Take a \<open>FortigateConfig\<close> that is not being
  deleted, with names of one path component and without wildcards, whose operator rule is a list rule
  over \<open>spec.extraItems\<close>, none of whose scalars prints with an opening bracket (so none is null), and
  whose template text opens with an EXTRAITEMS loop. The text of the template, and of the common
  file, is the one that S3 sends, the whole object or the part before a break, or, where S3 lists or
  sends nothing, the one that an earlier run left in the working directory: the code goes on in all
  these cases. The working directory may hold anything else. If the reconcile calls OpenTofu at all,
  then all these calls belong to one run of \<open>execTerraform\<close>, and in the world it starts from the file
  of every extra item that is an object has as its text the denotation of this template for this item
  with the placeholders of the rule filled by its values, and the common file is this text with the
  values of the firewall.\<close>

theorem tofu_sees_rendered_template:
  assumes "k_get_config cl (w_log w) ns name = Inr cfg" and "\<not> om_Deleted (fc_Meta cfg)"
    and "k_get_fgt cl (w_log w @ [KGet ''FortigateConfig'' ns name]) ns (fcs_FortigateName (fc_Spec cfg)) = Inr fw"
    and "starts ext cfg fw rc cu ct tag body rest w"
    and "c \<in> set (made (ReconcileFortigateConfig cl ext ns name) w)" and "is_tofu c"
  shows "\<exists>pre acc w1 post. made (ReconcileFortigateConfig cl ext ns name) w =
      pre @ made (execTerraform ext (base_dir cfg fw (om_UID (fc_Meta cfg))) cfg fw acc (om_UID (fc_Meta cfg))) w1 @ post \<and>
    list_all (\<lambda>c. \<not> is_tofu c) (pre @ post) \<and> w_log w1 = w_log w @ pre \<and>
    seen cfg fw (w_reg w) rc cu tag body rest acc (w_fs w1)"
  using guarded_reconcile [OF assms(1-4)] assms(5,6) unfolding guarded_def run_of_def
  by (fastforce simp: list_all_iff)

lemma room_list:
  "room s cs \<longleftrightarrow> \<not> refused s (abs_path cs) \<and> \<not> is_dir s (abs_path cs) \<and>
     list_all (\<lambda>i. \<not> refused s (abs_path (take i cs)) \<and> file_at s (abs_path (take i cs)) = None) [1..<length cs]"
  by (simp add: room_def list_all_iff)

lemma demo_starts:
  "starts demo_ext demo_cfg demo_fw demo_rule ''ip=<FGT_IP_OR_NAME>'' demo_tmpl ''EXTRAITEMS'' demo_body [] demo_world"
proof -
  have u: "oc_CommonTemplateSuffix (CurrentOperatorConfig (w_reg demo_world)) = ''00_common.tf''" by code_simp
  have t: "fcs_TerraformTemplateS3Key (fc_Spec demo_cfg) = ''vip.tf''" by code_simp
  have f: "abs_path (work_path demo_cfg demo_fw @ [own_name demo_fw ''vip.tf'']) = ''/tmp/fw/cr1/u1/fw_vip.tf''"
    "abs_path (work_path demo_cfg demo_fw @ [own_name demo_fw ''00_common.tf'']) = ''/tmp/fw/cr1/u1/fw_00_common.tf''" by code_simp+
  have n: "plain_names demo_cfg demo_fw" "plain ''00_common.tf''" "plain ''vip.tf''" by code_simp+
  have pre: "HasPrefix (tmpl_key ''00_common.tf'') ''rules-templates/''" "HasPrefix (tmpl_key ''vip.tf'') ''rules-templates/''"
    "\<not> HasSuffix (tmpl_key ''00_common.tf'') ''vip.tf''" "HasSuffix (tmpl_key ''vip.tf'') ''vip.tf''" by code_simp+
  then have tm: "templates demo_ext demo_fw ''00_common.tf'' ''ip=<FGT_IP_OR_NAME>'' ''vip.tf'' demo_tmpl"
    using n by (simp add: templates_def delivers_def only_sends_def demo_ext_def)
  have re: "lookupOperatorRule (w_reg demo_world) (fcs_OperatorRule (fc_Spec demo_cfg)) = Some (applyConfigDrivenRule demo_re demo_rule)"
    by (simp add: lookupOperatorRule_def demo_world_def demo_cfg_def)
  have ls: "list_setup demo_rule demo_cfg demo_tmpl ''EXTRAITEMS'' demo_body [] ''/tmp/fw/cr1/u1/fw_vip.tf''" by code_simp
  have "IndexedResourceFile ''/tmp/fw/cr1/u1/fw_vip.tf'' 0 = ''/tmp/fw/cr1/u1/fw_vip_1.tf''"
    "IndexedResourceFile ''/tmp/fw/cr1/u1/fw_vip.tf'' (Suc 0) = ''/tmp/fw/cr1/u1/fw_vip_2.tf''" by code_simp+
  then have q: "not_generated demo_cfg ''/tmp/fw/cr1/u1/fw_vip.tf'' ''/tmp/fw/cr1/u1/fw_00_common.tf''"
    by (auto simp: not_generated_def demo_cfg_def less_Suc_eq)
  have final: "finalName ''/tmp/fw/cr1/u1/fw_00_common.tf'' = ''/tmp/fw/cr1/u1/fw_00_common.tf''" by code_simp
  have "deliverable demo_ext demo_cfg demo_fw (w_reg demo_world) demo_rule ''ip=<FGT_IP_OR_NAME>'' demo_tmpl ''EXTRAITEMS'' demo_body []"
    unfolding deliverable_def Let_def u t f final
    by (intro conjI exI [of _ demo_re]) (fact n(1) tm re ls q)+
  moreover have "room (w_fs demo_world) (local_file demo_cfg demo_fw ''00_common.tf'')"
    "room (w_fs demo_world) (local_file demo_cfg demo_fw ''vip.tf'')"
    unfolding room_list by code_simp+
  then have "has_local demo_ext demo_cfg demo_fw demo_world ''00_common.tf'' ''ip=<FGT_IP_OR_NAME>''"
    "has_local demo_ext demo_cfg demo_fw demo_world ''vip.tf'' demo_tmpl"
    using pre by (simp_all add: has_local_def at_hand_def demo_ext_def)
  ultimately show ?thesis by (simp add: starts_def u t)
qed

theorem tofu_sees_rendered_template_witness:
  "\<exists>pre acc w1 post. made (ReconcileFortigateConfig demo_cluster demo_ext ''ns'' ''cr1'') demo_world =
      pre @ made (execTerraform demo_ext ''/tmp/fw/cr1/u1'' demo_cfg demo_fw acc ''u1'') w1 @ post \<and>
    content_at (w_fs w1) ''/tmp/fw/cr1/u1/fw_vip_2.tf'' = Some ''dns:53''"
proof -
  have c: "TofuPlan ''/tmp/fw/cr1/u1'' \<in> set (made (ReconcileFortigateConfig demo_cluster demo_ext ''ns'' ''cr1'') demo_world)"
    by code_simp
  have p: "is_tofu (TofuPlan ''/tmp/fw/cr1/u1'')" by (simp add: is_tofu_def)
  have g: "k_get_config demo_cluster (w_log demo_world) ''ns'' ''cr1'' = Inr demo_cfg" "\<not> om_Deleted (fc_Meta demo_cfg)"
    "k_get_fgt demo_cluster (w_log demo_world @ [KGet ''FortigateConfig'' ''ns'' ''cr1'']) ''ns''
       (fcs_FortigateName (fc_Spec demo_cfg)) = Inr demo_fw"
    by (simp_all add: demo_cluster_def demo_cfg_def demo_meta_def)
  have d: "om_UID (fc_Meta demo_cfg) = ''u1''" "base_dir demo_cfg demo_fw ''u1'' = ''/tmp/fw/cr1/u1''"
    "''/tmp/fw/cr1/u1'' @ ''/'' @ fwName demo_fw @ ''_'' @ fcs_TerraformTemplateS3Key (fc_Spec demo_cfg) = ''/tmp/fw/cr1/u1/fw_vip.tf''"
    by code_simp+
  obtain pre acc w1 post where run: "made (ReconcileFortigateConfig demo_cluster demo_ext ''ns'' ''cr1'') demo_world =
      pre @ made (execTerraform demo_ext ''/tmp/fw/cr1/u1'' demo_cfg demo_fw acc ''u1'') w1 @ post"
    and s: "seen demo_cfg demo_fw (w_reg demo_world) demo_rule ''ip=<FGT_IP_OR_NAME>'' ''EXTRAITEMS'' demo_body [] acc (w_fs w1)"
    using tofu_sees_rendered_template [OF g demo_starts c p] unfolding d by blast
  have e: "elements_filled demo_rule demo_cfg ''EXTRAITEMS'' demo_body [] (w_fs w1) ''/tmp/fw/cr1/u1/fw_vip.tf''"
    using s d by (simp add: seen_def Let_def)
  have i: "fcs_ExtraItems (fc_Spec demo_cfg) = [JObj demo_item1, JObj demo_item2]" by (simp add: demo_cfg_def)
  have v: "normalizzaMappaInMaiuscolo (JObj demo_item2) = JObj [(''NAME'', JStr ''dns''), (''PORT'', num_of_int 53)]" by code_simp
  obtain m ps where "buildSpecMap demo_cfg = Inr m" and ps: "denote_split ''EXTRAITEMS'' demo_body [] m (1 + 1)
      [(''NAME'', JStr ''dns''), (''PORT'', num_of_int 53)] = Inr ps"
    and out: "content_at (w_fs w1) (IndexedResourceFile ''/tmp/fw/cr1/u1/fw_vip.tf'' 1) = Some (print_pieces (concat (map
        (fill (mapping_values (rc_ItemMappings demo_rule) (fcName demo_cfg) demo_item2 (item_suffix 1))) ps)))"
    using e i v unfolding elements_filled_def by (auto dest!: spec [of _ 1])
  then have m: "m = projr (buildSpecMap demo_cfg)" by simp
  have "denote_split ''EXTRAITEMS'' demo_body [] (projr (buildSpecMap demo_cfg)) (1 + 1)
      [(''NAME'', JStr ''dns''), (''PORT'', num_of_int 53)] = Inr (map Lit ''dns:'' @ [Var ''FGT_PORT_2''])" by code_simp
  then have ps: "ps = map Lit ''dns:'' @ [Var ''FGT_PORT_2'']" using ps unfolding m by simp
  have "print_pieces (concat (map (fill (mapping_values (rc_ItemMappings demo_rule) (fcName demo_cfg) demo_item2 (item_suffix 1)))
        (map Lit ''dns:'' @ [Var ''FGT_PORT_2'']))) = ''dns:53''" by code_simp
  moreover have "IndexedResourceFile ''/tmp/fw/cr1/u1/fw_vip.tf'' 1 = ''/tmp/fw/cr1/u1/fw_vip_2.tf''" by code_simp
  ultimately have "content_at (w_fs w1) ''/tmp/fw/cr1/u1/fw_vip_2.tf'' = Some ''dns:53''" using out unfolding ps by simp
  with run show ?thesis by blast
qed

end
