(* ===== verification/Spec2Isabelle.thy ===== *)
theory Spec2Isabelle
  imports Engine_Properties Rules_Properties Loading_Properties Tofu_Properties Cluster_Properties
    Upgrade_Properties Lifecycle ConfigLife Deploy_Properties Buckets Delivery
begin

text \<open>
  A verification library for the FortiGate operator, a Kubernetes operator in Go.  It watches the
  custom resources \<open>FortigateFirewall\<close>, \<open>FortigateConfig\<close>, \<open>FortigateUpdate\<close>,
  \<open>FortigateUpdatePath\<close>, \<open>Firewall\<close> and \<open>FortigateBackup\<close>: it creates virtual firewalls as KubeVirt
  machines, waits over SSH until they are licensed, configures them by filling OpenTofu templates
  kept in S3 and running OpenTofu on them, and upgrades their firmware over the REST interface.

  \<^bold>\<open>Shape of the model.\<close>  An operation of type \<open>('s, 'a) op\<close> takes a state and returns an error or a
  value, and a new state (\<open>Prelude\<close>).  The state of the engine is a file system (\<open>Store\<close>: files with
  content and permission, directories, and the paths the system refuses), that of the package
  variables a \<open>registry\<close> (\<open>Registry\<close>), and that of a reconcile a \<open>world\<close> (\<open>World\<close>): file system,
  registry, environment variables and the log of all calls made to the outside.  What is not part of
  the repository is a parameter: a record of functions that answer a call from the log so far, so
  that answers may change over time and be errors at any point (\<open>external\<close> for S3, OpenTofu and the
  HCL parser, \<open>cluster\<close> for the API server, \<open>ssh_api\<close>, \<open>net_api\<close> for HTTP, JSON, versions and the
  headless browser, \<open>manager_api\<close> for the controller manager, \<open>regexp\<close>).  No theorem assumes more of
  them than it says.  Every return, error and panic of the code is a branch; a panic is an error
  \<open>Panic\<close>, which no code recovers from.

  \<^bold>\<open>Theories and sources\<close> (file names under \<open>internal/controller\<close> unless given in full).
  \<^item> \<open>Prelude\<close>: strings, \<open>strings\<close> and \<open>path/filepath\<close> functions, association lists as Go maps
    (locale \<open>go_map\<close>), operations and their composition.
  \<^item> \<open>Naming\<close>: \<open>rule_helpers.go\<close>, names of generated files.  \<open>Json\<close>: decoded JSON values, path lookups,
    key normalisation.  \<open>GoNet\<close>: \<open>strconv\<close> and \<open>net\<close> parsers.  \<open>Numbers\<close>: how numbers print and read.
  \<^item> \<open>Template\<close>, \<open>Engine\<close>: \<open>smart_nested_process.go\<close>; the scan for loops, expansion in place, splitting
    into files.  \<open>Template_Spec\<close> is the abstract template language with its printing and denotation,
    \<open>Template_Refine\<close> proves that the scanner and the expansion implement it, \<open>Pipeline\<close> puts engine
    and rules together.
  \<^item> \<open>Store\<close>: \<open>file_utils.go\<close> (locale \<open>file_store\<close>).  \<open>Api\<close>: the types of \<open>api/v1\<close>.
  \<^item> \<open>Rules\<close>: \<open>rule_config_driven.go\<close>.  \<open>Registry\<close>: \<open>operator_rules.go\<close>, \<open>common_config.go\<close>,
    \<open>operator_config.go\<close>, \<open>rule_from_configmap.go\<close>, \<open>rule_from_configmap_client.go\<close>.
  \<^item> \<open>Schedule\<close>: \<open>internal/webhook/v1\<close>, the admission of backups.
  \<^item> \<open>Terraform\<close>: \<open>s3_utils.go\<close>, \<open>startup.go\<close>, \<open>send_terraform_request.go\<close>, \<open>controller.go\<close>.  \<open>Buckets\<close>: the
    functions of \<open>s3_utils.go\<close> that nothing calls.
  \<^item> \<open>Manifests\<close>, \<open>Cluster\<close>: \<open>create_fortios_vm.go\<close>, \<open>create_vyos_vm.go\<close>, \<open>clone_pvc.go\<close>,
    \<open>secrets_read.go\<close>.
  \<^item> \<open>Ssh\<close>: \<open>ssh_operations.go\<close>, \<open>wait_firewall_ready.go\<close>, \<open>get_token_api.go\<close>, \<open>register_license.go\<close>.
  \<^item> \<open>Firmware\<close>: \<open>send_api_request.go\<close>, \<open>rest_api_structs.go\<close>, \<open>upgrade_firewall.go\<close>,
    \<open>upgrade_firewall_ssh.go\<close>, \<open>upgrade_get_path.go\<close> and the two controllers of updates.
  \<^item> \<open>Controllers\<close>: the controllers of \<open>FortigateFirewall\<close>, \<open>FortigateConfig\<close>, \<open>Firewall\<close> and
    \<open>FortigateBackup\<close>.  \<open>finalizing\<close> is the protocol three of them share (locale
    \<open>cleanup_contract\<close>, interpreted on each of their clean-ups).
  \<^item> \<open>Startup\<close>: \<open>cmd/main.go\<close>, what the methods \<open>SetupWithManager\<close> register (kind, predicates, name), and
    the steps by which package variables change afterwards.

  \<^bold>\<open>What is shown.\<close>  \<open>Terraform_Facts\<close>, \<open>Controllers_Facts\<close> and \<open>Firmware_Facts\<close> hold the lemmas about
  which calls an operation makes: \<open>quiet P m\<close> says that \<open>m\<close> only appends to the log and makes no call
  in \<open>P\<close>, \<open>logs m\<close> that it only appends.  \<open>Examples\<close> and \<open>Example_Runs\<close> hold one installation on which
  the theorems are applied.  The properties are in \<open>Engine_Properties\<close> (substitution, loops, what a
  render writes and leaves alone), \<open>Rules_Properties\<close> (validation before writing, effect of rules),
  \<open>Loading_Properties\<close> (validators, merge and loading of rules, schedules, package variables, start),
  \<open>Tofu_Properties\<close> (order and exclusiveness of OpenTofu commands and S3 deletions, providers),
  \<open>Cluster_Properties\<close> (finalizers, clean-up, readiness, claims), \<open>Lifecycle\<close> and \<open>ConfigLife\<close>
  (the lives of a firewall and of a configuration: what the operator made for an object does not
  outlive it; both are instances of the locale \<open>finalizer_protocol\<close> of \<open>Finalizers\<close>, an inductive transition
  system of users, other controllers and interrupted reconciles in which the invariant is proved once;
  and what a configuration whose firewall is gone comes to),
  \<open>Deploy_Properties\<close> (the work of a reconcile of a \<open>FortigateFirewall\<close> on the API server of \<open>Server\<close>, a
  store of objects that answers by what was done to it: the firewall is brought up, doing it again
  changes nothing, a deletion is not finished), \<open>Upgrade_Properties\<close> (backup and snapshot before an
  image, images per path, upgrade paths),
  \<open>Delivery\<close> (a whole reconcile of a \<open>FortigateConfig\<close> on the files: what OpenTofu sees is the meaning
  of the local template, be it what S3 sent or what an earlier run left, over download, copy, engine,
  rule and common file; it rests on \<open>Paths\<close>, absolute paths as lists of components), and in this theory the two that join template
  language, engine and rules.

  \<^bold>\<open>Bounds.\<close>  All functions are total.  The one loop of the code without a bound is the wait for a
  claim, \<open>CheckFirewallPVC\<close>: \<open>pollPVC n\<close> makes at most \<open>n\<close> rounds and then fails with \<open>Waiting\<close>;
  \<open>claim_wait\<close> says that it returns as soon as the claim is bound when \<open>n\<close> is large enough, whatever
  larger \<open>n\<close> is taken.  Operations that contain it take \<open>n\<close> as an argument and their theorems hold for
  every \<open>n\<close>.  The wait for a FortiGate is bounded by the code itself and terminates by a measure.

  \<^bold>\<open>Abstractions.\<close>  Error texts are shortened and their accents transliterated; that an error is a
  NotFound is kept.  \<open>ToUpper\<close> is ASCII.  The iteration over a Go map is the order of its association
  list; the theorems on \<open>replace_mods\<close> and on the merge say when order does not matter.  Log output,
  the closing of streams and the pauses inside an SSH session are left out; pauses between attempts
  are calls of the log.  Temporary directories get the name a parameter gives.  \<open>KApply\<close> is
  \<open>CreateOrUpdate\<close>.  Numbers of a resource are decimals with the printing of Go's \<open>%v\<close>.  The pages of an
  S3 listing are fixed when the listing begins (\<open>deletePages\<close>, \<open>downloadPages\<close>), while the paginator
  fetches the next one between the deletions or downloads.  \<open>specToMap\<close> has no error: the raw parts of a
  spec are decoded JSON here, so writing and reading them back cannot fail.  A body from S3 may break
  off, an SSH session may never end (then the call is \<open>Waiting\<close>, as the code reads without a deadline);
  writing a local file fails or writes all of it.  A deletion the API server has accepted counts as
  done, in \<open>Server\<close> and in \<open>Finalizers\<close>: that an object with finalizers of its own (a KubeVirt machine, a
  claim in use) stays a while longer is not followed.

  \<^bold>\<open>Not modelled:\<close> the generated deep copies and the scheme registration (\<open>zz_generated.deepcopy.go\<close>,
  \<open>groupversion_info.go\<close>, \<open>init\<close> of \<open>main\<close>): mechanical code; the list types of \<open>api/v1\<close>, which are
  lists here, and the answer types of \<open>rest_api_structs.go\<close> nothing uses; what the manager does with a
  registered controller (a parameter), in particular when it queues an object; the tests.
\<close>

section \<open>Templates\<close>

text \<open>C1: rendering a printed template is its denotation, for a resource none of whose scalars prints
  with an opening bracket (so none is null, which prints as \<open><nil>\<close>). Parsing the loops of the text of
  a well-formed template and expanding them in place against such a resource gives exactly the text of
  what the template means: every loop repeated for the elements of its list, which are numbered from
  one, every placeholder with a value replaced by it, the others kept (outside loops) or given the
  index of their element; errors (a list that does not exist) are the same. What a list is found under
  is shared with the code (\<open>resolveListPath\<close>). Without the condition the equality fails, see
  \<open>nested_value_read_again\<close>.\<close>

theorem rendering_denotes:
  assumes "list_all wf_node ns" and "clean_obj m"
  shows "(case findTopLevelLoops (print_nodes ns) of
            Inl e \<Rightarrow> Inl e
          | Inr blocks \<Rightarrow> renderInPlace (print_nodes ns) blocks m) =
         map_sum (\<lambda>e. e) print_pieces (denote_template ns m)"
  by (simp add: findTopLevelLoops_print [OF assms(1)] renderInPlace_denote [OF assms])

theorem rendering_denotes_witness:
  "(case findTopLevelLoops (print_nodes (Piece (Lit (CHR ''#'')) # demo_nodes)) of
      Inl e \<Rightarrow> Inl e
    | Inr blocks \<Rightarrow> renderInPlace (print_nodes (Piece (Lit (CHR ''#'')) # demo_nodes)) blocks
        [(''EXTRAITEMS'', JArr [JStr ''a'', JStr ''b''])]) =
   Inr ''#<FGT_EXTRAITEMS_NAME_1>:<FGT_PORT_1><FGT_EXTRAITEMS_NAME_2>:<FGT_PORT_2>''"
proof -
  have "list_all wf_node (Piece (Lit (CHR ''#'')) # demo_nodes)" by code_simp
  moreover have "clean_obj [(''EXTRAITEMS'', JArr [JStr ''a'', JStr ''b''])]" by code_simp
  moreover have "map_sum (\<lambda>e. e) print_pieces (denote_template (Piece (Lit (CHR ''#'')) # demo_nodes)
      [(''EXTRAITEMS'', JArr [JStr ''a'', JStr ''b''])]) =
    Inr ''#<FGT_EXTRAITEMS_NAME_1>:<FGT_PORT_1><FGT_EXTRAITEMS_NAME_2>:<FGT_PORT_2>''" by code_simp
  ultimately show ?thesis by (simp only: rendering_denotes)
qed

text \<open>
  A value with brackets inside a nested loop: the pass over the element of the outer loop reads what
  the inner one put in, and gives it an index.
\<close>

lemma nested_value_read_again:
  "(case findTopLevelLoops ''<FGT_FOR_STR><A><FGT_FOR_STR><B><FGT_A_B_V><FGT_FOR_END><FGT_FOR_END>'' of
      Inl e \<Rightarrow> Inl e
    | Inr blocks \<Rightarrow> renderInPlace ''<FGT_FOR_STR><A><FGT_FOR_STR><B><FGT_A_B_V><FGT_FOR_END><FGT_FOR_END>'' blocks
        [(''A'', JArr [JObj [(''B'', JArr [JObj [(''V'', JStr ''<Q>'')]])]])]) = Inr ''<Q_1>''"
  by code_simp

text \<open>C2: a list rule end to end. Take a template that opens with an EXTRAITEMS loop, a list rule over
  \<open>spec.extraItems\<close>, and a resource none of whose scalars prints with an opening bracket (so none is
  null). Running the engine and then the rule leaves for each element \<open>j\<close> of the list that is an
  object one file, under the name \<open>IndexedResourceFile\<close> gives it, whose text is the meaning of the
  template for that element with the placeholders of the rule filled with the element's own
  values.\<close>

theorem list_rule_end_to_end:
  assumes "content_at s f = Some c" "TrimSpace c = print_nodes (Loop tag body # rest)"
    and "wf_node (Loop tag body)" "list_all wf_node rest" "ToUpper tag = ''EXTRAITEMS''"
    and "clean_cfg cfg" "fcs_ExtraItems (fc_Spec cfg) = items" "j < length items" "items ! j = JObj im"
    and "rc_ListField rc = ''spec.extraItems''" "list_all (\<lambda>(t, p). wf_name t) (rc_ItemMappings rc)"
    and "splitTerraformExt (finalName f) = splitTerraformExt f"
    and "smartNestedProcess f cfg s = (Inr (), s1)"
    and "applyConfigDrivenRule re rc cfg (finalName f) s1 = (Inr (), s2)"
    and "buildSpecMap cfg = Inr m" and "normalizzaMappaInMaiuscolo (JObj im) = JObj im'"
  shows "\<exists>ps. denote_split tag body rest m (j + 1) im' = Inr ps \<and>
    content_at s2 (IndexedResourceFile f j) = Some (print_pieces (concat (map
      (fill (mapping_values (rc_ItemMappings rc) (om_Name (fc_Meta cfg)) im (item_suffix j))) ps)))"
  using assms by (rule list_rule_output)

theorem list_rule_end_to_end_witness:
  "content_at (snd (applyConfigDrivenRule demo_re demo_rule demo_cfg ''/w/t.tf''
     (snd (smartNestedProcess ''/w/t.tf'' demo_cfg demo_fs)))) ''/w/t_2.tf'' = Some ''dns:53''"
proof -
  define s1 where "s1 = snd (smartNestedProcess ''/w/t.tf'' demo_cfg demo_fs)"
  define s2 where "s2 = snd (applyConfigDrivenRule demo_re demo_rule demo_cfg ''/w/t.tf'' s1)"
  have r1: "smartNestedProcess ''/w/t.tf'' demo_cfg demo_fs = (Inr (), s1)"
    unfolding s1_def by (simp add: prod_eq_iff) code_simp
  have fin: "finalName ''/w/t.tf'' = ''/w/t.tf''" by code_simp
  have "fst (applyConfigDrivenRule demo_re demo_rule demo_cfg ''/w/t.tf'' s1) = Inr ()"
    unfolding s1_def by code_simp
  then have r2: "applyConfigDrivenRule demo_re demo_rule demo_cfg (finalName ''/w/t.tf'') s1 = (Inr (), s2)"
    unfolding s2_def fin by (simp add: prod_eq_iff)
  have m: "buildSpecMap demo_cfg = Inr (projr (buildSpecMap demo_cfg))" by code_simp
  have "\<exists>ps. denote_split ''EXTRAITEMS'' demo_body [] (projr (buildSpecMap demo_cfg)) (1 + 1)
      [(''NAME'', JStr ''dns''), (''PORT'', num_of_int 53)] = Inr ps \<and>
    content_at s2 (IndexedResourceFile ''/w/t.tf'' 1) = Some (print_pieces (concat (map
      (fill (mapping_values (rc_ItemMappings demo_rule) (om_Name (fc_Meta demo_cfg)) demo_item2 (item_suffix 1))) ps)))"
  proof (rule list_rule_end_to_end [OF _ _ _ _ _ _ _ _ _ _ _ _ r1 r2 m])
    show "content_at demo_fs ''/w/t.tf'' = Some demo_tmpl" by code_simp
    show "TrimSpace demo_tmpl = print_nodes (Loop ''EXTRAITEMS'' demo_body # [])" by code_simp
    show "wf_node (Loop ''EXTRAITEMS'' demo_body)" "list_all wf_node []" by code_simp+
    show "ToUpper ''EXTRAITEMS'' = ''EXTRAITEMS''" by code_simp
    show "clean_cfg demo_cfg" by code_simp
    show "fcs_ExtraItems (fc_Spec demo_cfg) = [JObj demo_item1, JObj demo_item2]" by (simp add: demo_cfg_def)
    show "rc_ListField demo_rule = ''spec.extraItems''" by code_simp
    show "list_all (\<lambda>(t, p). wf_name t) (rc_ItemMappings demo_rule)" by code_simp
    show "splitTerraformExt (finalName ''/w/t.tf'') = splitTerraformExt ''/w/t.tf''" by code_simp
    show "normalizzaMappaInMaiuscolo (JObj demo_item2) = JObj [(''NAME'', JStr ''dns''), (''PORT'', num_of_int 53)]"
      by code_simp
  qed simp_all
  moreover have "denote_split ''EXTRAITEMS'' demo_body [] (projr (buildSpecMap demo_cfg)) (1 + 1)
      [(''NAME'', JStr ''dns''), (''PORT'', num_of_int 53)] =
    Inr (map Lit ''dns:'' @ [Var ''FGT_PORT_2''])" by code_simp
  moreover have "IndexedResourceFile ''/w/t.tf'' 1 = ''/w/t_2.tf''" by code_simp
  moreover have "print_pieces (concat (map
      (fill (mapping_values (rc_ItemMappings demo_rule) (om_Name (fc_Meta demo_cfg)) demo_item2 (item_suffix 1)))
        (map Lit ''dns:'' @ [Var ''FGT_PORT_2'']))) = ''dns:53''" by code_simp
  ultimately show ?thesis unfolding s2_def s1_def by auto
qed

end
